(* ===== verification/Go_Prelude.thy ===== *)
theory Go_Prelude
  imports Main "HOL-Library.AList" "HOL-Library.Word"
begin

text \<open>
  What every component of the development shares: how a Go function ends (it returns, it
  panics, its goroutine exits, or it blocks for ever), the error values of the program,
  Go's string-keyed maps as association lists, the once-guarded cells the program builds
  from \<^verbatim>\<open>sync.Once\<close> and a channel, and the contract of such a cell as a locale.
\<close>

section \<open>How a Go call ends\<close>

text \<open>
  \<open>Ret\<close> is a normal return, \<open>Panic\<close> a run-time panic, \<open>Goexit\<close> the end of the calling
  goroutine by \<^verbatim>\<open>runtime.Goexit\<close> and \<open>Blocked\<close> a receive that never completes. A stateful
  Go function is a function from the state to the outcome and the new state.
\<close>

datatype 'a outcome = Ret 'a | Panic string | Goexit | Blocked

type_synonym ('s, 'a) go = "'s \<Rightarrow> 'a outcome \<times> 's"

named_theorems go_simps \<open>unfolding rules of the call combinators\<close>

definition go_ret :: "'a \<Rightarrow> ('s, 'a) go" where
  "go_ret a = (\<lambda>s. (Ret a, s))"

definition go_panic :: "string \<Rightarrow> ('s, 'a) go" where
  "go_panic m = (\<lambda>s. (Panic m, s))"

definition go_bind :: "('s, 'a) go \<Rightarrow> ('a \<Rightarrow> ('s, 'b) go) \<Rightarrow> ('s, 'b) go" where
  "go_bind m f = (\<lambda>s. case m s of
       (Ret a, s') \<Rightarrow> f a s'
     | (Panic p, s') \<Rightarrow> (Panic p, s')
     | (Goexit, s') \<Rightarrow> (Goexit, s')
     | (Blocked, s') \<Rightarrow> (Blocked, s'))"

text \<open>
  A Go function with results \<^verbatim>\<open>(T, error)\<close> is a computation of type \<open>error + 'a\<close>;
  \<open>go_try\<close> is the caller that returns the error as it is, \<open>go_try_with\<close> the one that wraps
  it first.
\<close>

definition go_try :: "('s, 'e + 'a) go \<Rightarrow> ('a \<Rightarrow> ('s, 'e + 'b) go) \<Rightarrow> ('s, 'e + 'b) go" where
  "go_try m f = go_bind m (\<lambda>r. case r of Inl e \<Rightarrow> go_ret (Inl e) | Inr a \<Rightarrow> f a)"

definition go_try_with :: "('e \<Rightarrow> 'e) \<Rightarrow> ('s, 'e + 'a) go \<Rightarrow> ('a \<Rightarrow> ('s, 'e + 'b) go) \<Rightarrow> ('s, 'e + 'b) go" where
  "go_try_with w m f = go_bind m (\<lambda>r. case r of Inl e \<Rightarrow> go_ret (Inl (w e)) | Inr a \<Rightarrow> f a)"

fun go_each :: "('a \<Rightarrow> ('s, unit) go) \<Rightarrow> 'a list \<Rightarrow> ('s, unit) go" where
  "go_each f [] = go_ret ()"
| "go_each f (x # xs) = go_bind (f x) (\<lambda>_. go_each f xs)"

lemma go_ret_apply [simp, go_simps]: "go_ret a s = (Ret a, s)"
  by (simp add: go_ret_def)

lemma go_panic_apply [simp, go_simps]: "go_panic m s = (Panic m, s)"
  by (simp add: go_panic_def)

lemma go_bind_Ret [simp, go_simps]: "m s = (Ret a, s') \<Longrightarrow> go_bind m f s = f a s'"
  by (simp add: go_bind_def)

lemma go_bind_not_Ret [simp]:
  "m s = (Panic p, s') \<Longrightarrow> go_bind m f s = (Panic p, s')"
  "m s = (Goexit, s') \<Longrightarrow> go_bind m f s = (Goexit, s')"
  "m s = (Blocked, s') \<Longrightarrow> go_bind m f s = (Blocked, s')"
  by (simp_all add: go_bind_def)

lemma go_bind_ret_left [simp]: "go_bind (go_ret a) f = f a"
  by (rule ext) simp

lemma go_bind_assoc: "go_bind (go_bind m f) g = go_bind m (\<lambda>a. go_bind (f a) g)"
  by (rule ext) (auto simp: go_bind_def split: prod.splits outcome.splits)

text \<open>A call that returned did so through each of its steps.\<close>

lemma go_bind_RetE [elim!]:
  assumes "go_bind m f s = (Ret b, t)"
  obtains a s' where "m s = (Ret a, s')" "f a s' = (Ret b, t)"
  using assms by (auto simp: go_bind_def split: prod.splits outcome.splits)

lemma go_try_Inr [simp, go_simps]: "m s = (Ret (Inr a), s') \<Longrightarrow> go_try m f s = f a s'"
  by (simp add: go_try_def)

lemma go_try_Inl [simp, go_simps]: "m s = (Ret (Inl e), s') \<Longrightarrow> go_try m f s = (Ret (Inl e), s')"
  by (simp add: go_try_def)

lemma go_try_with_Inr [simp, go_simps]: "m s = (Ret (Inr a), s') \<Longrightarrow> go_try_with w m f s = f a s'"
  by (simp add: go_try_with_def)

lemma go_try_with_Inl [simp, go_simps]:
  "m s = (Ret (Inl e), s') \<Longrightarrow> go_try_with w m f s = (Ret (Inl (w e)), s')"
  by (simp add: go_try_with_def)

lemma go_try_RetE [elim!]:
  assumes "go_try m f s = (Ret (Inr b), t)"
  obtains a s' where "m s = (Ret (Inr a), s')" "f a s' = (Ret (Inr b), t)"
  using assms by (auto simp: go_try_def split: sum.splits)

lemma go_try_with_RetE [elim!]:
  assumes "go_try_with w m f s = (Ret (Inr b), t)"
  obtains a s' where "m s = (Ret (Inr a), s')" "f a s' = (Ret (Inr b), t)"
  using assms by (auto simp: go_try_with_def split: sum.splits)

section \<open>What a call establishes\<close>

text \<open>
  \<open>triple P m Q E\<close>: from a state with \<open>P\<close>, the call ends either by returning some \<open>a\<close> in a state
  with \<open>Q a\<close>, or in another way in a state with \<open>E\<close>. The rules follow the combinators, so a
  property of an operation is proved from those of the calls it makes; they form the
  collection \<open>go_triples\<close>.
\<close>

definition triple :: "('s \<Rightarrow> bool) \<Rightarrow> ('s, 'a) go \<Rightarrow> ('a \<Rightarrow> 's \<Rightarrow> bool) \<Rightarrow> ('s \<Rightarrow> bool) \<Rightarrow> bool" where
  "triple P m Q E \<longleftrightarrow> (\<forall>s. P s \<longrightarrow> (case m s of (Ret a, t) \<Rightarrow> Q a t | (_, t) \<Rightarrow> E t))"

named_theorems go_triples \<open>rules for \<open>triple\<close>, by combinator\<close>

lemma tripleI:
  assumes "\<And>s a t. P s \<Longrightarrow> m s = (Ret a, t) \<Longrightarrow> Q a t"
    and "\<And>s r t. P s \<Longrightarrow> m s = (r, t) \<Longrightarrow> (\<And>a. r \<noteq> Ret a) \<Longrightarrow> E t"
  shows "triple P m Q E"
  using assms unfolding triple_def by (auto split: prod.splits outcome.splits)

lemma triple_Ret: "triple P m Q E \<Longrightarrow> P s \<Longrightarrow> m s = (Ret a, t) \<Longrightarrow> Q a t"
  unfolding triple_def by (auto split: prod.splits outcome.splits)

lemma triple_snd:
  "triple P m (\<lambda>_. E) E \<Longrightarrow> P s \<Longrightarrow> E (snd (m s))"
  by (cases "m s"; cases "fst (m s)") (fastforce simp: triple_def)+

lemma triple_conseq:
  assumes "triple P m Q E" "\<And>s. P' s \<Longrightarrow> P s" "\<And>a s. Q a s \<Longrightarrow> Q' a s" "\<And>s. E s \<Longrightarrow> E' s"
  shows "triple P' m Q' E'"
  using assms unfolding triple_def by (fastforce split: prod.splits outcome.splits)

lemma triple_keepI: "(\<And>s. P s \<Longrightarrow> P (snd (m s))) \<Longrightarrow> triple P m (\<lambda>_. P) P"
proof (rule tripleI)
  fix s a t assume keep: "\<And>s. P s \<Longrightarrow> P (snd (m s))"
  show "P s \<Longrightarrow> m s = (Ret a, t) \<Longrightarrow> P t" using keep [of s] by simp
  show "P s \<Longrightarrow> m s = (r, t) \<Longrightarrow> P t" for r using keep [of s] by simp
qed

lemma triple_pointwise: "(\<And>s. P s \<Longrightarrow> triple (\<lambda>t. t = s) m Q E) \<Longrightarrow> triple P m Q E"
  by (simp add: triple_def)

lemma triple_ret [go_triples]: "(\<And>s. P s \<Longrightarrow> Q a s) \<Longrightarrow> triple P (go_ret a) Q E"
  by (simp add: triple_def)

lemma triple_panic [go_triples]: "(\<And>s. P s \<Longrightarrow> E s) \<Longrightarrow> triple P (go_panic m) Q E"
  by (simp add: triple_def)

lemma triple_bind [go_triples]:
  assumes "triple P m R E" "\<And>a. triple (R a) (f a) Q E"
  shows "triple P (go_bind m f) Q E"
  using assms unfolding triple_def go_bind_def
  by (fastforce split: prod.splits outcome.splits)

lemma triple_try_with [go_triples]:
  assumes "triple P m (\<lambda>r. case r of Inl e \<Rightarrow> Q (Inl (w e)) | Inr a \<Rightarrow> R a) E"
    and "\<And>a. triple (R a) (f a) Q E"
  shows "triple P (go_try_with w m f) Q E"
  unfolding go_try_with_def
  by (rule triple_bind [OF assms(1)]) (auto simp: assms(2) split: sum.splits intro: triple_ret)

lemma triple_try [go_triples]:
  assumes "triple P m (\<lambda>r. case r of Inl e \<Rightarrow> Q (Inl e) | Inr a \<Rightarrow> R a) E"
    and "\<And>a. triple (R a) (f a) Q E"
  shows "triple P (go_try m f) Q E"
  unfolding go_try_def
  by (rule triple_bind [OF assms(1)]) (auto simp: assms(2) split: sum.splits intro: triple_ret)

lemma triple_if [go_triples]:
  assumes "c \<Longrightarrow> triple P m Q E" "\<not> c \<Longrightarrow> triple P n Q E"
  shows "triple P (if c then m else n) Q E"
  using assms by simp

section \<open>Error values\<close>

text \<open>
  \<open>Errorf\<close> is an error made from a message, \<open>Wrapf m e\<close> is \<^verbatim>\<open>fmt.Errorf("m: %w", e)\<close>,
  \<open>JoinE\<close> is \<^verbatim>\<open>errors.Join\<close>. The other constructors are the errors of libraries the program
  tells apart: not-found and conflict answers, the two end-of-file errors, the two context
  errors.
\<close>

datatype error =
    Errorf string
  | Wrapf string error
  | JoinE "error list"
  | ErrNotFound string
  | ErrConflict string
  | EOF
  | ErrUnexpectedEOF
  | ErrCanceled
  | ErrDeadlineExceeded
  | CodeExitError int error

text \<open>\<^verbatim>\<open>errors.Is\<close>/\<^verbatim>\<open>errdefs.IsX\<close> look through wrapping.\<close>

fun error_any :: "(error \<Rightarrow> bool) \<Rightarrow> error \<Rightarrow> bool" where
  "error_any P (Wrapf m e) \<longleftrightarrow> P (Wrapf m e) \<or> error_any P e"
| "error_any P (JoinE es) \<longleftrightarrow> P (JoinE es) \<or> list_ex (error_any P) es"
| "error_any P (CodeExitError c e) \<longleftrightarrow> P (CodeExitError c e)"
| "error_any P e \<longleftrightarrow> P e"

definition IsNotFound :: "error \<Rightarrow> bool" where
  "IsNotFound = error_any (\<lambda>e. case e of ErrNotFound _ \<Rightarrow> True | _ \<Rightarrow> False)"

definition IsConflict :: "error \<Rightarrow> bool" where
  "IsConflict = error_any (\<lambda>e. case e of ErrConflict _ \<Rightarrow> True | _ \<Rightarrow> False)"

definition IsEOF :: "error \<Rightarrow> bool" where
  "IsEOF = error_any (\<lambda>e. e = EOF)"

lemma IsNotFound_simps [simp]:
  "IsNotFound (ErrNotFound m)" "\<not> IsNotFound (Errorf m)" "\<not> IsNotFound (ErrConflict m)"
  "IsNotFound (Wrapf m e) = IsNotFound e"
  by (simp_all add: IsNotFound_def)

lemma IsConflict_simps [simp]:
  "IsConflict (ErrConflict m)" "\<not> IsConflict (Errorf m)" "\<not> IsConflict (ErrNotFound m)"
  "IsConflict (Wrapf m e) = IsConflict e"
  by (simp_all add: IsConflict_def)

section \<open>String-keyed maps\<close>

lemma find_SomeD: "find P xs = Some x \<Longrightarrow> P x \<and> x \<in> set xs"
  by (induction xs) (auto split: if_splits)

text \<open>
  A Go \<^verbatim>\<open>map[string]T\<close> is an association list; its content is what \<open>map_of\<close> says, and
  reading an absent key of a \<^verbatim>\<open>map[string]string\<close> gives the empty string.
\<close>

type_synonym strmap = "(string \<times> string) list"

definition mget :: "strmap \<Rightarrow> string \<Rightarrow> string" where
  "mget m k = (case map_of m k of None \<Rightarrow> [] | Some v \<Rightarrow> v)"

definition maps_Copy :: "('k \<times> 'v) list \<Rightarrow> ('k \<times> 'v) list \<Rightarrow> ('k \<times> 'v) list" where
  "maps_Copy dst src = fold (\<lambda>(k, v). AList.update k v) src dst"

lemma map_of_update_same [simp]: "map_of (AList.update k v m) k = Some v"
  by (simp add: update_conv')

lemma map_of_update_other [simp]: "k' \<noteq> k \<Longrightarrow> map_of (AList.update k v m) k' = map_of m k'"
  by (simp add: update_conv')

lemma mget_update [simp]: "mget (AList.update k v m) k' = (if k' = k then v else mget m k')"
  by (simp add: mget_def)

lemma mget_Nil [simp]: "mget [] k = []"
  by (simp add: mget_def)

lemma maps_Copy_Nil [simp]: "maps_Copy dst [] = dst"
  by (simp add: maps_Copy_def)

lemma maps_Copy_Cons [simp]: "maps_Copy dst ((k, v) # src) = maps_Copy (AList.update k v dst) src"
  by (simp add: maps_Copy_def)

lemma map_of_maps_Copy_notin:
  "k \<notin> fst ` set src \<Longrightarrow> map_of (maps_Copy dst src) k = map_of dst k"
  by (induction src arbitrary: dst) auto

lemma map_of_maps_Copy_distinct:
  "distinct (map fst src) \<Longrightarrow> map_of (maps_Copy dst src) = map_of dst ++ map_of src"
proof (induction src arbitrary: dst)
  case Nil
  then show ?case by simp
next
  case (Cons p src)
  obtain k v where p: "p = (k, v)" by (cases p)
  from Cons p have "map_of (maps_Copy dst (p # src)) = map_of (AList.update k v dst) ++ map_of src"
    by simp
  also have "\<dots> = map_of dst ++ map_of (p # src)"
    using Cons.prems p by (simp add: update_conv' map_add_upd_left dom_map_of_conv_image_fst)
  finally show ?case .
qed

lemma distinct_maps_Copy: "distinct (map fst dst) \<Longrightarrow> distinct (map fst (maps_Copy dst src))"
  by (induction src arbitrary: dst) (auto simp: distinct_update)

section \<open>Cells that are provided once\<close>

text \<open>
  The program hands values between components through a field, a \<^verbatim>\<open>sync.Once\<close> and a channel
  that is closed once the field is set: the first caller of the setter wins, the getter waits
  for the channel. \<open>None\<close> is a cell whose channel is still open.
\<close>

type_synonym 'a once = "'a option"

definition once_provide :: "'a \<Rightarrow> 'a once \<Rightarrow> 'a once" where
  "once_provide v c = (case c of None \<Rightarrow> Some v | Some w \<Rightarrow> Some w)"

text \<open>The contract of a provided-once setter and its waiting getter, whatever holds the cell.\<close>

locale provided_once =
  fixes provide :: "'a \<Rightarrow> 's \<Rightarrow> 's"
    and value_of :: "'s \<Rightarrow> 'a option"
  assumes value_after_provide: "value_of (provide v s) = once_provide v (value_of s)"
begin

lemma provide_first: "value_of s = None \<Longrightarrow> value_of (provide v s) = Some v"
  by (simp add: value_after_provide once_provide_def)

lemma provide_again: "value_of s = Some w \<Longrightarrow> value_of (provide v s) = Some w"
  by (simp add: value_after_provide once_provide_def)

lemma provided_stays: "value_of s = Some w \<Longrightarrow> value_of (fold provide vs s) = Some w"
  by (induction vs arbitrary: s) (simp_all add: provide_again)

lemma first_provider_wins: "value_of s = None \<Longrightarrow> value_of (fold provide (v # vs) s) = Some v"
  by (simp add: provide_first provided_stays)

end

section \<open>Reachability\<close>

text \<open>
  Components with concurrency are step relations. A property that holds at the start and is
  kept by every step holds in every reachable state.
\<close>

inductive reaches :: "('s \<Rightarrow> 's \<Rightarrow> bool) \<Rightarrow> 's \<Rightarrow> 's \<Rightarrow> bool" for step s where
  reaches_refl [simp, intro!]: "reaches step s s"
| reaches_step: "reaches step s t \<Longrightarrow> step t u \<Longrightarrow> reaches step s u"

locale invariant_system =
  fixes step :: "'s \<Rightarrow> 's \<Rightarrow> bool" and start :: "'s" and inv :: "'s \<Rightarrow> bool"
  assumes inv_start: "inv start"
    and inv_step: "inv s \<Longrightarrow> step s t \<Longrightarrow> inv t"
begin

lemma inv_reaches: "reaches step start s \<Longrightarrow> inv s"
proof (induction rule: reaches.induct)
  case (reaches_step t u)
  then show ?case by (blast intro: inv_step)
qed (rule inv_start)

end

lemma reaches_trans: "reaches step t u \<Longrightarrow> reaches step s t \<Longrightarrow> reaches step s u"
  by (induction rule: reaches.induct) (auto intro: reaches_step)

end
