(* ===== verification/Go_Strings.thy ===== *)
theory Go_Strings
  imports Go_Prelude
begin

text \<open>
  The functions of Go's packages \<^verbatim>\<open>strings\<close>, \<^verbatim>\<open>strconv\<close> and \<^verbatim>\<open>path/filepath\<close> that the
  program calls, on byte strings. A Go string is a sequence of bytes, so it is a \<open>string\<close>
  (a list of 8-bit characters); the case mapping is the one of ASCII letters.
\<close>

section \<open>Strings\<close>

abbreviation dot :: char where "dot \<equiv> CHR ''.''"
abbreviation dash :: char where "dash \<equiv> CHR ''-''"
abbreviation colon :: char where "colon \<equiv> CHR '':''"
abbreviation comma :: char where "comma \<equiv> CHR '',''"
abbreviation slash :: char where "slash \<equiv> CHR ''/''"
abbreviation space :: char where "space \<equiv> CHR '' ''"
abbreviation newline :: char where "newline \<equiv> CHR 0x0A"

definition char_ToLower :: "char \<Rightarrow> char" where
  "char_ToLower c = (let n = (of_char c :: nat) in if 65 \<le> n \<and> n \<le> 90 then char_of (n + 32) else c)"

definition strings_ToLower :: "string \<Rightarrow> string" where
  "strings_ToLower = map char_ToLower"

definition strings_HasPrefix :: "string \<Rightarrow> string \<Rightarrow> bool" where
  "strings_HasPrefix s p \<longleftrightarrow> take (length p) s = p"

definition strings_HasSuffix :: "string \<Rightarrow> string \<Rightarrow> bool" where
  "strings_HasSuffix s p \<longleftrightarrow> strings_HasPrefix (rev s) (rev p)"

definition strings_TrimPrefix :: "string \<Rightarrow> string \<Rightarrow> string" where
  "strings_TrimPrefix s p = (if strings_HasPrefix s p then drop (length p) s else s)"

definition strings_TrimSuffix :: "string \<Rightarrow> string \<Rightarrow> string" where
  "strings_TrimSuffix s p = (if strings_HasSuffix s p then take (length s - length p) s else s)"

definition strings_TrimFunc :: "(char \<Rightarrow> bool) \<Rightarrow> string \<Rightarrow> string" where
  "strings_TrimFunc P s = rev (dropWhile P (rev (dropWhile P s)))"

definition is_space :: "char \<Rightarrow> bool" where
  "is_space c \<longleftrightarrow> c \<in> {CHR '' '', CHR 0x09, CHR 0x0A, CHR 0x0B, CHR 0x0C, CHR 0x0D}"

definition strings_TrimSpace :: "string \<Rightarrow> string" where
  "strings_TrimSpace = strings_TrimFunc is_space"

text \<open>\<^verbatim>\<open>strings.Split\<close>, \<^verbatim>\<open>strings.Cut\<close> and \<^verbatim>\<open>strings.Join\<close> for a one-byte separator.\<close>

fun strings_Split :: "char \<Rightarrow> string \<Rightarrow> string list" where
  "strings_Split c [] = [[]]"
| "strings_Split c (x # xs) =
     (if x = c then [] # strings_Split c xs
      else (case strings_Split c xs of [] \<Rightarrow> [[x]] | y # ys \<Rightarrow> (x # y) # ys))"

fun strings_Cut :: "char \<Rightarrow> string \<Rightarrow> string \<times> string \<times> bool" where
  "strings_Cut c [] = ([], [], False)"
| "strings_Cut c (x # xs) =
     (if x = c then ([], xs, True)
      else (case strings_Cut c xs of (b, a, ok) \<Rightarrow> (x # b, a, ok)))"

fun strings_Join :: "string \<Rightarrow> string list \<Rightarrow> string" where
  "strings_Join sep [] = []"
| "strings_Join sep [x] = x"
| "strings_Join sep (x # y # ys) = x @ sep @ strings_Join sep (y # ys)"

fun strings_Fields_acc :: "string \<Rightarrow> string \<Rightarrow> string list" where
  "strings_Fields_acc w [] = (if w = [] then [] else [rev w])"
| "strings_Fields_acc w (x # xs) =
     (if is_space x then (if w = [] then strings_Fields_acc [] xs else rev w # strings_Fields_acc [] xs)
      else strings_Fields_acc (x # w) xs)"

definition strings_Fields :: "string \<Rightarrow> string list" where
  "strings_Fields = strings_Fields_acc []"

section \<open>Numbers in decimal\<close>

definition digit_char :: "nat \<Rightarrow> char" where
  "digit_char d = char_of (48 + d)"

definition is_digit :: "char \<Rightarrow> bool" where
  "is_digit c \<longleftrightarrow> 48 \<le> (of_char c :: nat) \<and> (of_char c :: nat) \<le> 57"

definition digit_val :: "char \<Rightarrow> nat" where
  "digit_val c = of_char c - 48"

fun nat_dec :: "nat \<Rightarrow> string" where
  "nat_dec n = (if n < 10 then [digit_char n] else nat_dec (n div 10) @ [digit_char (n mod 10)])"

declare nat_dec.simps [simp del]

definition strconv_FormatInt :: "int \<Rightarrow> string" where
  "strconv_FormatInt i = (if i < 0 then dash # nat_dec (nat (- i)) else nat_dec (nat i))"

datatype num_error = ErrSyntax | ErrRange

text \<open>
  \<^verbatim>\<open>strconv.ParseUint(s, 10, bits)\<close>: the largest value with a range error as soon as the
  digits read so far pass it, zero with a syntax error for anything that is not a digit.
\<close>

fun ParseUint_loop :: "nat \<Rightarrow> nat \<Rightarrow> string \<Rightarrow> nat \<times> num_error option" where
  "ParseUint_loop maxv n [] = (n, None)"
| "ParseUint_loop maxv n (c # cs) =
     (if \<not> is_digit c then (0, Some ErrSyntax)
      else let n' = n * 10 + digit_val c
           in if maxv < n' then (maxv, Some ErrRange) else ParseUint_loop maxv n' cs)"

definition strconv_ParseUint :: "nat \<Rightarrow> string \<Rightarrow> nat \<times> num_error option" where
  "strconv_ParseUint bits s =
     (if s = [] then (0, Some ErrSyntax) else ParseUint_loop (2 ^ bits - 1) 0 s)"

definition strconv_ParseInt64 :: "string \<Rightarrow> int \<times> num_error option" where
  "strconv_ParseInt64 s =
     (if s = [] then (0, Some ErrSyntax)
      else let neg = (hd s = dash);
               body = (if hd s = dash \<or> hd s = CHR ''+'' then tl s else s)
           in (case strconv_ParseUint 64 body of
                (_, Some ErrSyntax) \<Rightarrow> (0, Some ErrSyntax)
              | (un, _) \<Rightarrow>
                  if \<not> neg \<and> 2 ^ 63 \<le> un then (2 ^ 63 - 1, Some ErrRange)
                  else if neg \<and> 2 ^ 63 < un then (- (2 ^ 63), Some ErrRange)
                  else (if neg then - int un else int un, None)))"

section \<open>Quoted text\<close>

text \<open>\<^verbatim>\<open>%q\<close>: a double-quoted literal with the escapes of the language. Bytes above 127 are copied, as the
  letters of other scripts are.\<close>

definition hex_char :: "nat \<Rightarrow> char" where
  "hex_char d = (if d < 10 then char_of (48 + d) else char_of (87 + d))"

definition quote_char :: "char \<Rightarrow> string" where
  "quote_char c =
     (let n = (of_char c :: nat); b = CHR 0x5C
      in if c = CHR 0x22 \<or> c = b then [b, c]
         else if n = 7 then [b, CHR ''a''] else if n = 8 then [b, CHR ''b''] else if n = 12 then [b, CHR ''f'']
         else if n = 10 then [b, CHR ''n''] else if n = 13 then [b, CHR ''r''] else if n = 9 then [b, CHR ''t'']
         else if n = 11 then [b, CHR ''v'']
         else if n < 32 \<or> n = 127 then [b, CHR ''x'', hex_char (n div 16), hex_char (n mod 16)]
         else [c])"

definition strconv_Quote :: "string \<Rightarrow> string" where
  "strconv_Quote s = CHR 0x22 # concat (map quote_char s) @ [CHR 0x22]"

section \<open>File paths\<close>

fun clean_elems :: "bool \<Rightarrow> string list \<Rightarrow> string list \<Rightarrow> string list" where
  "clean_elems rooted out [] = rev out"
| "clean_elems rooted out (e # es) =
     (if e = [] \<or> e = ''.'' then clean_elems rooted out es
      else if e = ''..'' then
        (case out of
           [] \<Rightarrow> if rooted then clean_elems rooted [] es else clean_elems rooted [e] es
         | o1 # os \<Rightarrow> if o1 = ''..'' then clean_elems rooted (e # out) es else clean_elems rooted os es)
      else clean_elems rooted (e # out) es)"

definition path_rooted :: "string \<Rightarrow> bool" where
  "path_rooted p \<longleftrightarrow> (case p of [] \<Rightarrow> False | c # _ \<Rightarrow> c = slash)"

definition filepath_Clean :: "string \<Rightarrow> string" where
  "filepath_Clean p =
     (let body = strings_Join [slash] (clean_elems (path_rooted p) [] (strings_Split slash p))
      in if path_rooted p then slash # body else if body = [] then ''.'' else body)"

definition filepath_Join :: "string list \<Rightarrow> string" where
  "filepath_Join es =
     (case filter (\<lambda>e. e \<noteq> []) es of [] \<Rightarrow> [] | ne \<Rightarrow> filepath_Clean (strings_Join [slash] ne))"

definition filepath_Dir :: "string \<Rightarrow> string" where
  "filepath_Dir p = filepath_Clean (rev (dropWhile (\<lambda>c. c \<noteq> slash) (rev p)))"

definition filepath_Base :: "string \<Rightarrow> string" where
  "filepath_Base p =
     (if p = [] then ''.''
      else let q = dropWhile (\<lambda>c. c = slash) (rev p);
               b = rev (takeWhile (\<lambda>c. c \<noteq> slash) q)
           in if b = [] then [slash] else b)"

section \<open>Facts about prefixes, separators and trimming\<close>

lemma HasPrefix_append [simp]: "strings_HasPrefix (p @ s) p"
  by (simp add: strings_HasPrefix_def)

lemma HasPrefix_iff: "strings_HasPrefix s p \<longleftrightarrow> (\<exists>r. s = p @ r)"
  unfolding strings_HasPrefix_def by (metis append_eq_conv_conj append_take_drop_id)

lemma HasSuffix_iff: "strings_HasSuffix s p \<longleftrightarrow> (\<exists>r. s = r @ p)"
  unfolding strings_HasSuffix_def HasPrefix_iff
  by (metis rev_append rev_rev_ident)

lemma TrimPrefix_append [simp]: "strings_TrimPrefix (p @ s) p = s"
  by (simp add: strings_TrimPrefix_def)

lemma Split_not_Nil [simp]: "strings_Split c s \<noteq> []"
  by (cases s) (auto split: list.splits)

lemma Split_Nil_sep: "c \<notin> set s \<Longrightarrow> strings_Split c s = [s]"
  by (induction s) auto

lemma Split_append: "c \<notin> set x \<Longrightarrow> strings_Split c (x @ c # s) = x # strings_Split c s"
  by (induction x) auto

lemma Split_Join:
  "xs \<noteq> [] \<Longrightarrow> \<forall>x \<in> set xs. c \<notin> set x \<Longrightarrow> strings_Split c (strings_Join [c] xs) = xs"
  by (induction "[c]" xs rule: strings_Join.induct) (auto simp: Split_Nil_sep Split_append)

lemma Join_Split: "strings_Join [c] (strings_Split c s) = s"
proof (induction s)
  case (Cons x s)
  obtain y ys where "strings_Split c s = y # ys" using Split_not_Nil by (metis list.exhaust)
  with Cons show ?case by (cases ys) auto
qed simp

lemma Split_no_sep: "x \<in> set (strings_Split c s) \<Longrightarrow> c \<notin> set x"
  by (induction s arbitrary: x) (auto split: list.splits if_splits)

lemma Cut_append: "c \<notin> set x \<Longrightarrow> strings_Cut c (x @ c # s) = (x, s, True)"
  by (induction x) auto

lemma Cut_absent: "c \<notin> set s \<Longrightarrow> strings_Cut c s = (s, [], False)"
  by (induction s) auto

text \<open>Two strings cut at the first separator, or at the last one, agree in both parts.\<close>

lemma sep_first_inject:
  fixes c :: char
  assumes "x @ c # s = y @ c # t" "c \<notin> set x" "c \<notin> set y"
  shows "x = y \<and> s = t"
  by (metis assms Cut_append prod.inject)

lemma sep_last_inject:
  fixes c :: char
  assumes "x @ c # s = y @ c # t" "c \<notin> set s" "c \<notin> set t"
  shows "x = y \<and> s = t"
proof -
  from assms(1) have "rev s @ c # rev x = rev t @ c # rev y"
    by (metis append.assoc append_Cons append_Nil rev.simps(2) rev_append)
  with assms(2,3) show ?thesis
    using sep_first_inject [of "rev s" c "rev x" "rev t" "rev y"] by simp
qed

lemma hd_dropWhile_not: "dropWhile P s \<noteq> [] \<Longrightarrow> \<not> P (hd (dropWhile P s))"
  by (rule hd_dropWhile)

lemma TrimFunc_last: "strings_TrimFunc P s \<noteq> [] \<Longrightarrow> \<not> P (last (strings_TrimFunc P s))"
  by (simp add: strings_TrimFunc_def last_rev hd_dropWhile)

lemma TrimFunc_hd: "strings_TrimFunc P s \<noteq> [] \<Longrightarrow> \<not> P (hd (strings_TrimFunc P s))"
proof -
  assume ne: "strings_TrimFunc P s \<noteq> []"
  let ?d = "dropWhile P s"
  obtain z where z: "rev ?d = z @ dropWhile P (rev ?d)"
    by (metis takeWhile_dropWhile_id)
  then have "?d = strings_TrimFunc P s @ rev z"
    unfolding strings_TrimFunc_def by (metis rev_append rev_rev_ident)
  with ne have "hd (strings_TrimFunc P s) = hd ?d" and "?d \<noteq> []" by (metis hd_append2, force)
  then show ?thesis by (simp add: hd_dropWhile)
qed

lemma TrimFunc_infix: "\<exists>a b. s = a @ strings_TrimFunc P s @ b"
  unfolding strings_TrimFunc_def
  by (metis rev_append rev_rev_ident takeWhile_dropWhile_id)

lemma TrimFunc_id:
  "s = [] \<or> (\<not> P (hd s) \<and> \<not> P (last s)) \<Longrightarrow> strings_TrimFunc P s = s"
proof (cases s rule: rev_cases)
  case (snoc ys y)
  assume "s = [] \<or> (\<not> P (hd s) \<and> \<not> P (last s))"
  with snoc have "\<not> P (hd s)" "\<not> P y" by auto
  moreover from this have "dropWhile P s = s" by (cases s) auto
  ultimately show ?thesis using snoc by (simp add: strings_TrimFunc_def)
qed (simp add: strings_TrimFunc_def)

section \<open>Facts about decimal numbers\<close>

lemma of_char_digit_char [simp]: "d < 10 \<Longrightarrow> (of_char (digit_char d) :: nat) = 48 + d"
  by (simp add: digit_char_def of_char_of)

lemma digit_char_table:
  "digit_char 0 = CHR ''0''" "digit_char 1 = CHR ''1''" "digit_char 2 = CHR ''2''" "digit_char 3 = CHR ''3''" "digit_char 4 = CHR ''4''"
  "digit_char 5 = CHR ''5''" "digit_char 6 = CHR ''6''" "digit_char 7 = CHR ''7''" "digit_char 8 = CHR ''8''" "digit_char 9 = CHR ''9''"
  by (simp_all add: digit_char_def char_of_def bit_0)

lemma unat32_less [simp]: "unat (w :: 32 word) < 4294967296"
  using unsigned_less [of w] by simp

lemmas dec_eval = nat_dec.simps digit_char_table

lemma is_digit_digit_char [simp]: "d < 10 \<Longrightarrow> is_digit (digit_char d)"
  by (simp add: is_digit_def)

lemma digit_val_digit_char [simp]: "d < 10 \<Longrightarrow> digit_val (digit_char d) = d"
  by (simp add: digit_val_def)

lemma nat_dec_not_Nil [simp]: "nat_dec n \<noteq> []"
  by (subst nat_dec.simps) simp

lemma nat_dec_digits: "c \<in> set (nat_dec n) \<Longrightarrow> is_digit c"
proof (induction n rule: nat_dec.induct)
  case (1 n)
  then show ?case
    by (cases "n < 10") (auto simp: nat_dec.simps [of n])
qed

lemma not_digit_chars [simp]:
  "\<not> is_digit dot" "\<not> is_digit dash" "\<not> is_digit colon" "\<not> is_digit comma" "\<not> is_digit slash"
  "\<not> is_digit space" "\<not> is_digit newline"
  by (simp_all add: is_digit_def)

lemma nat_dec_notin: "\<not> is_digit c \<Longrightarrow> c \<notin> set (nat_dec n)"
  using nat_dec_digits by blast

lemma ParseUint_loop_append:
  "ParseUint_loop m n xs = (k, None) \<Longrightarrow> ParseUint_loop m n (xs @ ys) = ParseUint_loop m k ys"
  by (induction m n xs rule: ParseUint_loop.induct) (auto simp: Let_def split: if_splits)

lemma ParseUint_loop_nat_dec: "n \<le> m \<Longrightarrow> ParseUint_loop m 0 (nat_dec n) = (n, None)"
proof (induction n rule: nat_dec.induct)
  case (1 n)
  show ?case
  proof (cases "n < 10")
    case True
    with 1 show ?thesis by (simp add: nat_dec.simps [of n])
  next
    case False
    with 1 have "ParseUint_loop m 0 (nat_dec (n div 10)) = (n div 10, None)" by simp
    from ParseUint_loop_append [OF this, of "[digit_char (n mod 10)]"] False 1
    show ?thesis by (simp add: nat_dec.simps [of n])
  qed
qed

lemma ParseUint_loop_range: "fst (ParseUint_loop m n xs) = m \<and> snd (ParseUint_loop m n xs) = Some ErrRange \<Longrightarrow>
    ParseUint_loop m n (xs @ ys) = (m, Some ErrRange)"
  by (induction m n xs rule: ParseUint_loop.induct) (auto simp: Let_def split: if_splits)

lemma ParseUint_loop_nat_dec_large: "m < n \<Longrightarrow> ParseUint_loop m 0 (nat_dec n) = (m, Some ErrRange)"
proof (induction n rule: nat_dec.induct)
  case (1 n)
  show ?case
  proof (cases "n < 10")
    case True
    with 1 show ?thesis by (simp add: nat_dec.simps [of n])
  next
    case big: False
    have step: "nat_dec n = nat_dec (n div 10) @ [digit_char (n mod 10)]"
      using big by (simp add: nat_dec.simps [of n])
    show ?thesis
    proof (cases "m < n div 10")
      case True
      with 1 big have "ParseUint_loop m 0 (nat_dec (n div 10)) = (m, Some ErrRange)" by simp
      with step show ?thesis by (simp add: ParseUint_loop_range)
    next
      case False
      then have "ParseUint_loop m 0 (nat_dec (n div 10)) = (n div 10, None)"
        by (simp add: ParseUint_loop_nat_dec)
      from ParseUint_loop_append [OF this, of "[digit_char (n mod 10)]"] step "1.prems"
      show ?thesis by simp
    qed
  qed
qed

lemma ParseUint_nat_dec: "n < 2 ^ bits \<Longrightarrow> strconv_ParseUint bits (nat_dec n) = (n, None)"
  by (simp add: strconv_ParseUint_def ParseUint_loop_nat_dec)

lemma nat_dec_inject [simp]: "nat_dec m = nat_dec n \<longleftrightarrow> m = n"
  by (metis ParseUint_loop_nat_dec le_add1 le_add2 prod.inject)

lemma ParseUint_loop_bound: "n \<le> m \<Longrightarrow> fst (ParseUint_loop m n s) \<le> m"
  by (induction m n s rule: ParseUint_loop.induct) (auto simp: Let_def)

lemma ParseUint_bound: "fst (strconv_ParseUint bits s) < 2 ^ bits"
proof -
  have "fst (ParseUint_loop (2 ^ bits - 1) 0 s) \<le> 2 ^ bits - 1"
    by (rule ParseUint_loop_bound) simp
  also have "(2::nat) ^ bits - 1 < 2 ^ bits" by simp
  finally show ?thesis by (simp add: strconv_ParseUint_def)
qed

section \<open>Facts about cleaned paths\<close>

lemma clean_elems_rooted_no_dotdot:
  "''..'' \<notin> set out \<Longrightarrow> ''..'' \<notin> set (clean_elems True out es)"
  by (induction "True" out es rule: clean_elems.induct) (auto split: list.splits)

lemma clean_elems_from: "set (clean_elems r out es) \<subseteq> set out \<union> set es"
proof (induction r out es rule: clean_elems.induct)
  case (2 r out e es)
  show ?case
  proof (cases out)
    case Nil
    with 2 show ?thesis by (auto split: if_splits)
  next
    case (Cons o1 os)
    with 2 show ?thesis by (simp split: if_splits) blast+
  qed
qed simp

lemma clean_elems_no_empty:
  "\<forall>e \<in> set out. e \<noteq> [] \<and> e \<noteq> ''.'' \<Longrightarrow> e \<in> set (clean_elems r out es) \<Longrightarrow> e \<noteq> [] \<and> e \<noteq> ''.''"
  by (induction r out es rule: clean_elems.induct) (auto split: list.splits if_splits)

end
