(* ===== verification/Base64.thy ===== *)
theory Base64
  imports Go_Strings
begin

text \<open>
  \<^verbatim>\<open>base64.RawURLEncoding\<close> of Go's standard library: the URL alphabet, no padding. The
  decoder skips carriage returns and line feeds and rejects any other foreign byte and a
  single left-over character, as the library does.
\<close>

definition b64_char :: "nat \<Rightarrow> char" where
  "b64_char i =
     (if i < 26 then char_of (65 + i)
      else if i < 52 then char_of (71 + i)
      else if i < 62 then char_of (i - 4)
      else if i = 62 then CHR ''-'' else CHR ''_'')"

definition b64_val :: "char \<Rightarrow> nat option" where
  "b64_val c = (let n = (of_char c :: nat) in
     if 65 \<le> n \<and> n \<le> 90 then Some (n - 65)
     else if 97 \<le> n \<and> n \<le> 122 then Some (n - 71)
     else if 48 \<le> n \<and> n \<le> 57 then Some (n + 4)
     else if n = 45 then Some 62
     else if n = 95 then Some 63
     else None)"

abbreviation byte :: "char \<Rightarrow> nat" where "byte \<equiv> of_char"

fun b64_encode :: "string \<Rightarrow> string" where
  "b64_encode [] = []"
| "b64_encode [a] = [b64_char (byte a div 4), b64_char (byte a mod 4 * 16)]"
| "b64_encode [a, b] =
     [b64_char (byte a div 4), b64_char (byte a mod 4 * 16 + byte b div 16), b64_char (byte b mod 16 * 4)]"
| "b64_encode (a # b # c # r) =
     b64_char (byte a div 4) # b64_char (byte a mod 4 * 16 + byte b div 16)
     # b64_char (byte b mod 16 * 4 + byte c div 64) # b64_char (byte c mod 64) # b64_encode r"

fun b64_vals :: "nat list \<Rightarrow> string option" where
  "b64_vals [] = Some []"
| "b64_vals [x] = None"
| "b64_vals [x, y] = Some [char_of (x * 4 + y div 16)]"
| "b64_vals [x, y, z] = Some [char_of (x * 4 + y div 16), char_of (y mod 16 * 16 + z div 4)]"
| "b64_vals (x # y # z # w # r) =
     map_option (\<lambda>t. char_of (x * 4 + y div 16) # char_of (y mod 16 * 16 + z div 4)
       # char_of (z mod 4 * 64 + w) # t) (b64_vals r)"

definition b64_decode :: "string \<Rightarrow> string option" where
  "b64_decode s =
     (let vs = map b64_val (filter (\<lambda>c. c \<noteq> CHR 0x0A \<and> c \<noteq> CHR 0x0D) s)
      in if None \<in> set vs then None else b64_vals (map the vs))"

lemma b64_char_facts [simp]:
  assumes "i < 64"
  shows "b64_val (b64_char i) = Some i" "b64_char i \<noteq> CHR 0x0A" "b64_char i \<noteq> CHR 0x0D"
proof -
  have n: "byte (b64_char i) = (if i < 26 then 65 + i else if i < 52 then 71 + i
      else if i < 62 then i - 4 else if i = 62 then 45 else 95)"
    using assms by (simp add: b64_char_def of_char_of)
  show "b64_val (b64_char i) = Some i"
    using assms by (auto simp: b64_val_def n Let_def)
  have "byte (b64_char i) \<noteq> byte (CHR 0x0A)" "byte (b64_char i) \<noteq> byte (CHR 0x0D)"
    using assms by (auto simp: n)
  then show "b64_char i \<noteq> CHR 0x0A" "b64_char i \<noteq> CHR 0x0D" by metis+
qed

lemma byte_less [simp]: "byte c < 256"
  using of_char_mod_256 [of c, where 'a = nat] by (metis mod_less_divisor zero_less_numeral)

lemma sextet_bounds [simp]:
  "byte a div 4 < 64" "byte a mod 4 * 16 < 64" "byte b mod 16 * 4 < 64"
  "byte a mod 4 * 16 + byte b div 16 < 64" "byte b mod 16 * 4 + byte c div 64 < 64"
  "byte c mod 64 < 64"
  using byte_less [of a] byte_less [of b] byte_less [of c] by linarith+

text \<open>The sextets of an encoded string, which the encoder looks up in the alphabet.\<close>

fun sextets :: "string \<Rightarrow> nat list" where
  "sextets [] = []"
| "sextets [a] = [byte a div 4, byte a mod 4 * 16]"
| "sextets [a, b] = [byte a div 4, byte a mod 4 * 16 + byte b div 16, byte b mod 16 * 4]"
| "sextets (a # b # c # r) =
     [byte a div 4, byte a mod 4 * 16 + byte b div 16, byte b mod 16 * 4 + byte c div 64,
      byte c mod 64] @ sextets r"

lemma b64_encode_sextets: "b64_encode s = map b64_char (sextets s)"
  by (induction s rule: sextets.induct) auto

lemma sextets_small: "i \<in> set (sextets s) \<Longrightarrow> i < 64"
  by (induction s rule: sextets.induct) (auto simp del: sextet_bounds simp: sextet_bounds)

lemma byte_quotients [simp]:
  "byte b div 16 div 16 = 0" "byte b div 16 mod 16 = byte b div 16"
  "byte c div 64 div 4 = 0" "byte c div 64 mod 4 = byte c div 64"
proof -
  have "byte b div 16 < 16" "byte c div 64 < 4"
    using byte_less [of b] byte_less [of c] by linarith+
  then show "byte b div 16 div 16 = 0" "byte b div 16 mod 16 = byte b div 16"
    "byte c div 64 div 4 = 0" "byte c div 64 mod 4 = byte c div 64" by simp_all
qed

lemma b64_vals_sextets: "b64_vals (sextets s) = Some s"
  by (induction s rule: sextets.induct) simp_all

theorem b64_decode_encode: "b64_decode (b64_encode s) = Some s"
proof -
  let ?xs = "sextets s"
  have small: "\<forall>i \<in> set ?xs. i < 64" using sextets_small by blast
  then have "filter (\<lambda>c. c \<noteq> CHR 0x0A \<and> c \<noteq> CHR 0x0D) (map b64_char ?xs) = map b64_char ?xs"
    by (auto simp: filter_id_conv)
  moreover have "map b64_val (map b64_char ?xs) = map Some ?xs"
    using small by simp
  ultimately show ?thesis
    by (simp add: b64_decode_def b64_encode_sextets b64_vals_sextets comp_def
        flip: map_map) (auto simp: comp_def b64_vals_sextets)
qed

lemma b64_encode_eq_Nil [simp]: "b64_encode s = [] \<longleftrightarrow> s = []"
  by (cases s rule: b64_encode.cases) auto

end
