(* ===== verification/Cri_Types.thy ===== *)
theory Cri_Types
  imports Go_Strings
begin

text \<open>
  The messages of the container runtime interface (\<^verbatim>\<open>k8s.io/cri-api\<close>) as records of the
  fields the program reads or writes. The generated getters are nil-safe and give the zero
  value for a nil message, so a message that is only read through getters is its zero record
  when absent; where the program tests a pointer for nil, the field is an option. The zero
  value of the namespace-mode enumeration is \<open>POD\<close>.
\<close>

datatype namespace_mode = POD | CONTAINER | NODE | TARGET

record namespace_option =
  ns_network :: namespace_mode
  ns_pid :: namespace_mode
  ns_ipc :: namespace_mode

record pod_sandbox_metadata =
  psm_name :: string
  psm_namespace :: string
  psm_uid :: string

record port_mapping =
  pm_protocol :: string
  pm_container_port :: int
  pm_host_port :: int
  pm_host_ip :: string

record dns_config =
  dns_servers :: "string list"
  dns_searches :: "string list"
  dns_options :: "string list"

record sandbox_security_context =
  ssc_privileged :: bool
  ssc_namespace_options :: "namespace_option option"

record linux_pod_sandbox_config =
  lps_security_context :: "sandbox_security_context option"
  lps_sysctls :: strmap

record pod_sandbox_config =
  psc_metadata :: pod_sandbox_metadata
  psc_hostname :: string
  psc_log_directory :: string
  psc_dns_config :: "dns_config option"
  psc_port_mappings :: "port_mapping list"
  psc_labels :: strmap
  psc_annotations :: strmap
  psc_linux :: "linux_pod_sandbox_config option"

record container_metadata =
  cm_name :: string
  cm_attempt :: "32 word"

record container_security_context =
  csc_run_as_user :: "int option"
  csc_run_as_group :: "int option"
  csc_run_as_username :: string
  csc_namespace_options :: namespace_option
  csc_privileged :: bool
  csc_readonly_rootfs :: bool
  csc_readonly_paths :: "string list"
  csc_masked_paths :: "string list"
  csc_supplemental_groups :: "int list"
  csc_add_capabilities :: "string list"
  csc_drop_capabilities :: "string list"
  csc_no_new_privs :: bool

record container_resources =
  cr_cpu_shares :: int
  cr_memory_limit :: int
  cr_memory_swap_limit :: int
  cr_cpu_quota :: int
  cr_cpu_period :: int

record cri_mount =
  mnt_container_path :: string
  mnt_host_path :: string
  mnt_readonly :: bool

record container_config =
  cc_metadata :: container_metadata
  cc_image :: string
  cc_command :: "string list"
  cc_args :: "string list"
  cc_working_dir :: string
  cc_envs :: "(string \<times> string) list"
  cc_mounts :: "cri_mount list"
  cc_labels :: strmap
  cc_annotations :: strmap
  cc_log_path :: string
  cc_stdin :: bool
  cc_stdin_once :: bool
  cc_tty :: bool
  cc_security_context :: container_security_context
  cc_resources :: container_resources

definition namespace_option_zero :: namespace_option where
  "namespace_option_zero = \<lparr>ns_network = POD, ns_pid = POD, ns_ipc = POD\<rparr>"

definition pod_sandbox_config_zero :: pod_sandbox_config where
  "pod_sandbox_config_zero =
     \<lparr>psc_metadata = \<lparr>psm_name = [], psm_namespace = [], psm_uid = []\<rparr>, psc_hostname = [],
      psc_log_directory = [], psc_dns_config = None, psc_port_mappings = [], psc_labels = [],
      psc_annotations = [], psc_linux = None\<rparr>"

definition container_security_context_zero :: container_security_context where
  "container_security_context_zero =
     \<lparr>csc_run_as_user = None, csc_run_as_group = None, csc_run_as_username = [],
      csc_namespace_options = namespace_option_zero, csc_privileged = False,
      csc_readonly_rootfs = False, csc_readonly_paths = [], csc_masked_paths = [],
      csc_supplemental_groups = [], csc_add_capabilities = [], csc_drop_capabilities = [],
      csc_no_new_privs = False\<rparr>"

definition container_config_zero :: container_config where
  "container_config_zero =
     \<lparr>cc_metadata = \<lparr>cm_name = [], cm_attempt = 0\<rparr>, cc_image = [], cc_command = [],
      cc_args = [], cc_working_dir = [], cc_envs = [], cc_mounts = [], cc_labels = [],
      cc_annotations = [], cc_log_path = [], cc_stdin = False, cc_stdin_once = False,
      cc_tty = False, cc_security_context = container_security_context_zero,
      cc_resources = \<lparr>cr_cpu_shares = 0, cr_memory_limit = 0, cr_memory_swap_limit = 0,
        cr_cpu_quota = 0, cr_cpu_period = 0\<rparr>\<rparr>"

text \<open>
  \<^verbatim>\<open>encoding/json\<close> on these messages is a parameter: the bytes a configuration marshals to,
  and the configuration that unmarshalling bytes into a zero value leaves behind (the program
  ignores the error). \<open>json_sandbox_ok\<close> and \<open>json_container_ok\<close> state that unmarshalling
  gives back what was marshalled, for the configuration at hand.
\<close>

record json_codec =
  json_marshal_sandbox :: "pod_sandbox_config \<Rightarrow> string"
  json_unmarshal_sandbox :: "string \<Rightarrow> pod_sandbox_config"
  json_marshal_container :: "container_config \<Rightarrow> string"
  json_unmarshal_container :: "string \<Rightarrow> container_config"
  json_marshal_aliases :: "(string \<times> string list) list \<Rightarrow> string"
  json_unmarshal_aliases :: "string \<Rightarrow> (string \<times> string list) list option"

definition json_sandbox_ok :: "json_codec \<Rightarrow> pod_sandbox_config \<Rightarrow> bool" where
  "json_sandbox_ok J c \<longleftrightarrow>
     json_unmarshal_sandbox J (json_marshal_sandbox J c) = c \<and> json_marshal_sandbox J c \<noteq> []"

definition json_container_ok :: "json_codec \<Rightarrow> container_config \<Rightarrow> bool" where
  "json_container_ok J c \<longleftrightarrow>
     json_unmarshal_container J (json_marshal_container J c) = c \<and> json_marshal_container J c \<noteq> []"

definition json_aliases_ok :: "json_codec \<Rightarrow> (string \<times> string list) list \<Rightarrow> bool" where
  "json_aliases_ok J as \<longleftrightarrow>
     json_unmarshal_aliases J (json_marshal_aliases J as) = Some as \<and> json_marshal_aliases J as \<noteq> []"

end
