(* ===== verification/Tags.thy ===== *)
theory Tags
  imports Base64 Cri_Types
begin

text \<open>
  \<^verbatim>\<open>src/pkg/nanokube/tags.go\<close>: the tag builder that stores the program's metadata in Docker
  labels and derives resource names from it. The builder is a record of its prefix and its
  tag map; each method is one definition. The driver's name and the options' name are
  arguments of \<open>NewTagBuilder\<close>.
\<close>

section \<open>Keys and resource types\<close>

datatype resource_type =
    ResourceUnknown | ResourceSandbox | ResourceContainer | ResourceVolume | ResourceNetwork

fun resource_string :: "resource_type \<Rightarrow> string" where
  "resource_string ResourceUnknown = ''unknown''"
| "resource_string ResourceSandbox = ''sandbox''"
| "resource_string ResourceContainer = ''container''"
| "resource_string ResourceVolume = ''volume''"
| "resource_string ResourceNetwork = ''network''"

definition keyManagedBy :: string where "keyManagedBy = ''managed-by''"
definition keyType :: string where "keyType = ''type''"
definition keyName :: string where "keyName = ''name''"
definition keyNamespace :: string where "keyNamespace = ''namespace''"
definition keyUID :: string where "keyUID = ''uid''"
definition keySandboxUID :: string where "keySandboxUID = ''sandbox-uid''"
definition keyAttempt :: string where "keyAttempt = ''attempt''"
definition keySandboxConfig :: string where "keySandboxConfig = ''sandbox-config''"
definition keyContainerConfig :: string where "keyContainerConfig = ''container-config''"
definition KeyDNSAliases :: string where "KeyDNSAliases = ''dns-aliases''"
definition KeyHostAliases :: string where "KeyHostAliases = ''host-aliases''"
definition KeySecurityContext :: string where "KeySecurityContext = ''security-context''"
definition KeyNetwork :: string where "KeyNetwork = ''network''"

lemmas key_defs = keyManagedBy_def keyType_def keyName_def keyNamespace_def keyUID_def
  keySandboxUID_def keyAttempt_def keySandboxConfig_def keyContainerConfig_def KeyDNSAliases_def
  KeyHostAliases_def KeySecurityContext_def KeyNetwork_def

definition internalKeys :: "string list" where
  "internalKeys = [keyManagedBy, keyType, keyName, keyNamespace, keyUID, keySandboxUID, keyAttempt]"

section \<open>Normalising names\<close>

definition dns_char :: "char \<Rightarrow> bool" where
  "dns_char c \<longleftrightarrow> (let n = (of_char c :: nat) in 97 \<le> n \<and> n \<le> 122 \<or> 48 \<le> n \<and> n \<le> 57 \<or> n = 45)"

text \<open>\<^verbatim>\<open>reMultiDash\<close>: every run of two or more dashes becomes one dash.\<close>

fun collapse_dashes :: "string \<Rightarrow> string" where
  "collapse_dashes [] = []"
| "collapse_dashes [c] = [c]"
| "collapse_dashes (c # d # r) =
     (if c = dash \<and> d = dash then collapse_dashes (d # r) else c # collapse_dashes (d # r))"

definition dash_char :: "char \<Rightarrow> char" where
  "dash_char c = (if c = CHR ''_'' \<or> c = CHR ''.'' then dash else c)"

definition normalize :: "string \<Rightarrow> string" where
  "normalize s =
     (let s1 = strings_ToLower s;
          s2 = map dash_char s1;
          s3 = filter dns_char s2;
          s4 = collapse_dashes s3
      in strings_TrimFunc (\<lambda>c. c = dash) s4)"

section \<open>The builder\<close>

record tag_builder =
  tb_prefix :: string
  tb_tags :: strmap

definition Key :: "tag_builder \<Rightarrow> string \<Rightarrow> string" where
  "Key b key = tb_prefix b @ ''.'' @ key"

definition tb_get :: "tag_builder \<Rightarrow> string \<Rightarrow> string" where
  "tb_get b key = mget (tb_tags b) (Key b key)"

definition tb_set :: "string \<Rightarrow> string \<Rightarrow> tag_builder \<Rightarrow> tag_builder" where
  "tb_set key v b = b\<lparr>tb_tags := AList.update (Key b key) v (tb_tags b)\<rparr>"

definition NewTagBuilder :: "string \<Rightarrow> string \<Rightarrow> tag_builder" where
  "NewTagBuilder options_name driver_name =
     tb_set keyType (resource_string ResourceUnknown)
       (tb_set keyManagedBy driver_name \<lparr>tb_prefix = options_name, tb_tags = []\<rparr>)"

definition WithTags :: "strmap \<Rightarrow> tag_builder \<Rightarrow> tag_builder" where
  "WithTags tags b = b\<lparr>tb_tags := maps_Copy (tb_tags b) tags\<rparr>"

definition tag_Name :: "tag_builder \<Rightarrow> string" where "tag_Name b = tb_get b keyName"
definition tag_Namespace :: "tag_builder \<Rightarrow> string" where "tag_Namespace b = tb_get b keyNamespace"
definition tag_UID :: "tag_builder \<Rightarrow> string" where "tag_UID b = tb_get b keyUID"
definition tag_SandboxUID :: "tag_builder \<Rightarrow> string" where "tag_SandboxUID b = tb_get b keySandboxUID"

definition tag_Attempt :: "tag_builder \<Rightarrow> 32 word" where
  "tag_Attempt b = word_of_nat (fst (strconv_ParseUint 32 (tb_get b keyAttempt)))"

definition PodSandboxConfig :: "json_codec \<Rightarrow> tag_builder \<Rightarrow> pod_sandbox_config" where
  "PodSandboxConfig J b =
     (let blob = tb_get b keySandboxConfig
      in if blob = [] then pod_sandbox_config_zero
         else (case b64_decode blob of
                 None \<Rightarrow> pod_sandbox_config_zero
               | Some raw \<Rightarrow> json_unmarshal_sandbox J raw))"

definition ContainerConfig :: "json_codec \<Rightarrow> tag_builder \<Rightarrow> container_config" where
  "ContainerConfig J b =
     (let blob = tb_get b keyContainerConfig
      in if blob = [] then container_config_zero
         else (case b64_decode blob of
                 None \<Rightarrow> container_config_zero
               | Some raw \<Rightarrow> json_unmarshal_container J raw))"

definition LogDirectory :: "json_codec \<Rightarrow> tag_builder \<Rightarrow> string" where
  "LogDirectory J b = psc_log_directory (PodSandboxConfig J b)"

definition LogPath :: "json_codec \<Rightarrow> tag_builder \<Rightarrow> string" where
  "LogPath J b =
     (let dir = psc_log_directory (PodSandboxConfig J b);
          path = cc_log_path (ContainerConfig J b)
      in if dir = [] \<or> path = [] then [] else filepath_Join [dir, path])"

definition tag_Labels :: "json_codec \<Rightarrow> tag_builder \<Rightarrow> strmap" where
  "tag_Labels J b =
     (let t = tb_get b keyType
      in if t = resource_string ResourceContainer then cc_labels (ContainerConfig J b)
         else if t = resource_string ResourceSandbox then psc_labels (PodSandboxConfig J b)
         else [])"

definition tag_Annotations :: "json_codec \<Rightarrow> tag_builder \<Rightarrow> strmap" where
  "tag_Annotations J b =
     (let t = tb_get b keyType
      in if t = resource_string ResourceContainer then cc_annotations (ContainerConfig J b)
         else if t = resource_string ResourceSandbox then psc_annotations (PodSandboxConfig J b)
         else [])"

definition DNSAliases :: "tag_builder \<Rightarrow> string list" where
  "DNSAliases b =
     (let v = tb_get b KeyDNSAliases in if v \<noteq> [] then strings_Split comma v else [])"

definition ExtraHosts :: "json_codec \<Rightarrow> tag_builder \<Rightarrow> string list" where
  "ExtraHosts J b =
     (let v = tb_get b KeyHostAliases
      in if v = [] then []
         else (case json_unmarshal_aliases J v of
                 None \<Rightarrow> []
               | Some entries \<Rightarrow>
                   concat (map (\<lambda>(ip, hostnames). map (\<lambda>h. h @ '':'' @ ip) hostnames) entries)))"

definition SecurityContext :: "tag_builder \<Rightarrow> string" where
  "SecurityContext b = tb_get b KeySecurityContext"

definition SecurityContextFor :: "tag_builder \<Rightarrow> string \<Rightarrow> string" where
  "SecurityContextFor b name =
     (let sc = tb_get b (KeySecurityContext @ ''/'' @ name)
      in if sc \<noteq> [] then sc else tb_get b KeySecurityContext)"

definition IsManaged :: "tag_builder \<Rightarrow> bool" where
  "IsManaged b \<longleftrightarrow> tb_get b keyManagedBy \<noteq> []"

definition UIDKey :: "tag_builder \<Rightarrow> string" where
  "UIDKey b = Key b keyUID"

definition SandboxUIDFilter :: "tag_builder \<Rightarrow> string \<Rightarrow> string" where
  "SandboxUIDFilter b uid = Key b keySandboxUID @ ''='' @ uid"

definition TypeFilter :: "tag_builder \<Rightarrow> resource_type \<Rightarrow> string" where
  "TypeFilter b t = Key b keyType @ ''='' @ resource_string t"

definition WithType :: "resource_type \<Rightarrow> tag_builder \<Rightarrow> tag_builder" where
  "WithType t = tb_set keyType (resource_string t)"
definition WithName :: "string \<Rightarrow> tag_builder \<Rightarrow> tag_builder" where
  "WithName = tb_set keyName"
definition WithNamespace :: "string \<Rightarrow> tag_builder \<Rightarrow> tag_builder" where
  "WithNamespace = tb_set keyNamespace"
definition WithUID :: "string \<Rightarrow> tag_builder \<Rightarrow> tag_builder" where
  "WithUID = tb_set keyUID"
definition WithSandboxUID :: "string \<Rightarrow> tag_builder \<Rightarrow> tag_builder" where
  "WithSandboxUID = tb_set keySandboxUID"
definition WithAttempt :: "32 word \<Rightarrow> tag_builder \<Rightarrow> tag_builder" where
  "WithAttempt attempt = tb_set keyAttempt (nat_dec (unat attempt))"

definition WithPodSandboxConfig :: "json_codec \<Rightarrow> pod_sandbox_config option \<Rightarrow> tag_builder \<Rightarrow> tag_builder" where
  "WithPodSandboxConfig J config b =
     (case config of None \<Rightarrow> b
      | Some c \<Rightarrow> tb_set keySandboxConfig (b64_encode (json_marshal_sandbox J c)) b)"

definition WithContainerConfig :: "json_codec \<Rightarrow> container_config option \<Rightarrow> tag_builder \<Rightarrow> tag_builder" where
  "WithContainerConfig J config b =
     (case config of None \<Rightarrow> b
      | Some c \<Rightarrow> tb_set keyContainerConfig (b64_encode (json_marshal_container J c)) b)"

text \<open>\<^verbatim>\<open>Build\<close> never fails: its error result is always nil, so the model returns the pair.\<close>

definition Build :: "json_codec \<Rightarrow> tag_builder \<Rightarrow> string \<times> strmap" where
  "Build J b =
     (let t = tb_get b keyType;
          meta = psc_metadata (PodSandboxConfig J b)
      in if t = resource_string ResourceSandbox
         then (''sandbox-0.'' @ psm_name meta @ ''.'' @ psm_namespace meta, tb_tags b)
         else if t = resource_string ResourceContainer
         then (tb_get b keyName @ ''-'' @ tb_get b keyAttempt @ ''.'' @ psm_name meta @ ''.'' @ psm_namespace meta,
               tb_tags b)
         else
           let name = normalize (tb_get b keyName);
               attempt = tb_get b keyAttempt;
               name = (if attempt \<noteq> [] then name @ ''-'' @ attempt else name);
               name = (if t \<noteq> resource_string ResourceContainer \<and> t \<noteq> resource_string ResourceVolume
                       then name @ ''-'' @ t else name);
               namespace = normalize (tb_get b keyNamespace);
               name = (if namespace \<noteq> [] then name @ ''.'' @ namespace else name)
           in (name @ ''.'' @ normalize (tb_prefix b), tb_tags b))"

definition tb_Clone :: "tag_builder \<Rightarrow> tag_builder" where
  "tb_Clone b = \<lparr>tb_prefix = tb_prefix b, tb_tags = maps_Copy [] (tb_tags b)\<rparr>"

definition IncrementAttempt :: "tag_builder \<Rightarrow> tag_builder" where
  "IncrementAttempt b =
     (let current = fst (strconv_ParseUint 32 (tb_get b keyAttempt))
      in tb_set keyAttempt (nat_dec (current + 1)) b)"

definition InternalTags :: "tag_builder \<Rightarrow> strmap" where
  "InternalTags b =
     (let p = tb_prefix b @ ''.''
      in filter (\<lambda>(k, v). \<not> (v = [] \<or> \<not> strings_HasPrefix k p
                             \<or> drop (length p) k \<notin> set internalKeys)) (tb_tags b))"

section \<open>The builder chains of the driver\<close>

text \<open>
  The chains with which the driver describes a container and a sandbox (\<^verbatim>\<open>CreateContainer\<close>
  and \<^verbatim>\<open>RunPodSandbox\<close> of \<^verbatim>\<open>src/pkg/driver/docker/docker.go\<close>).
\<close>

definition container_tb :: "json_codec \<Rightarrow> string \<Rightarrow> string \<Rightarrow> string \<Rightarrow> container_config \<Rightarrow> pod_sandbox_config \<Rightarrow> tag_builder" where
  "container_tb J options_name driver_name podSandboxID config sandboxConfig =
     WithPodSandboxConfig J (Some sandboxConfig)
      (WithContainerConfig J (Some config)
       (WithAttempt (cm_attempt (cc_metadata config))
        (WithSandboxUID podSandboxID
         (WithName (cm_name (cc_metadata config))
          (WithType ResourceContainer (NewTagBuilder options_name driver_name))))))"

definition sandbox_tb :: "json_codec \<Rightarrow> string \<Rightarrow> string \<Rightarrow> pod_sandbox_config \<Rightarrow> tag_builder" where
  "sandbox_tb J options_name driver_name config =
     WithPodSandboxConfig J (Some config)
      (WithUID (psm_uid (psc_metadata config))
       (WithNamespace (psm_namespace (psc_metadata config))
        (WithName (psm_name (psc_metadata config))
         (WithType ResourceSandbox (NewTagBuilder options_name driver_name)))))"

section \<open>Reading back what was set\<close>

text \<open>A builder has one entry per key and always carries its manager and its type.\<close>

definition tb_inv :: "tag_builder \<Rightarrow> bool" where
  "tb_inv b \<longleftrightarrow> distinct (map fst (tb_tags b))
     \<and> map_of (tb_tags b) (Key b keyManagedBy) \<noteq> None \<and> map_of (tb_tags b) (Key b keyType) \<noteq> None"

named_theorems tb_simps \<open>what the builder's methods do to its fields\<close>

lemma Key_inject [simp]: "Key b k = Key b k' \<longleftrightarrow> k = k'"
  by (simp add: Key_def)

lemma Key_prefix_cong: "tb_prefix b = tb_prefix b' \<Longrightarrow> Key b = Key b'"
  by (simp add: Key_def fun_eq_iff)

lemma tb_set_prefix [simp, tb_simps]: "tb_prefix (tb_set k v b) = tb_prefix b"
  by (simp add: tb_set_def)

lemma Key_tb_set [simp]: "Key (tb_set k v b) = Key b"
  by (rule Key_prefix_cong) simp

lemma tb_get_set [simp, tb_simps]: "tb_get (tb_set k v b) k' = (if k' = k then v else tb_get b k')"
  by (simp add: tb_get_def) (simp add: tb_set_def)

lemma tb_inv_set [simp]: "tb_inv b \<Longrightarrow> tb_inv (tb_set k v b)"
  by (auto simp: tb_inv_def) (simp_all add: tb_set_def distinct_update update_conv')

lemma tb_inv_New [simp]: "tb_inv (NewTagBuilder on dn)"
  by (auto simp: tb_inv_def NewTagBuilder_def tb_set_def Key_def key_defs)

lemma New_prefix [simp, tb_simps]: "tb_prefix (NewTagBuilder on dn) = on"
  by (simp add: NewTagBuilder_def)

lemma Key_New: "tb_prefix b = on \<Longrightarrow> Key (NewTagBuilder on dn) = Key b"
  by (rule Key_prefix_cong) simp

lemma tb_get_New [tb_simps]:
  "tb_get (NewTagBuilder on dn) k =
     (if k = keyType then resource_string ResourceUnknown else if k = keyManagedBy then dn else [])"
  by (simp add: NewTagBuilder_def) (simp add: tb_get_def)

lemmas with_defs [tb_simps] = WithType_def WithName_def WithNamespace_def WithUID_def WithSandboxUID_def
  WithAttempt_def WithPodSandboxConfig_def WithContainerConfig_def

lemma container_tb_inv [simp]: "tb_inv (container_tb J on dn sid c sc)"
  by (auto simp: container_tb_def with_defs)

lemma sandbox_tb_inv [simp]: "tb_inv (sandbox_tb J on dn sc)"
  by (auto simp: sandbox_tb_def with_defs)

lemma chain_prefix [simp]:
  "tb_prefix (container_tb J on dn sid c sc) = on" "tb_prefix (sandbox_tb J on dn sc) = on"
  by (simp_all add: container_tb_def sandbox_tb_def tb_simps)

text \<open>Labels read back from the daemon give a builder that answers like the one they came from.\<close>

lemma hydrate_get:
  assumes "tb_inv b" "tb_prefix b = on"
  shows "tb_get (WithTags (tb_tags b) (NewTagBuilder on dn)) k = tb_get b k"
proof -
  let ?h = "WithTags (tb_tags b) (NewTagBuilder on dn)"
  have key: "Key ?h = Key b"
    by (rule Key_prefix_cong) (simp add: WithTags_def assms)
  have m: "map_of (tb_tags ?h) = map_of (tb_tags (NewTagBuilder on dn)) ++ map_of (tb_tags b)"
    using assms(1) by (simp add: WithTags_def map_of_maps_Copy_distinct tb_inv_def)
  show ?thesis
  proof (cases "map_of (tb_tags b) (Key b k)")
    case (Some v)
    then show ?thesis by (simp add: tb_get_def mget_def key m)
  next
    case None
    then have "k \<noteq> keyType" "k \<noteq> keyManagedBy"
      using assms(1) by (auto simp: tb_inv_def)
    then have "tb_get (NewTagBuilder on dn) k = []" by (simp add: tb_get_New)
    with None show ?thesis
      by (simp add: tb_get_def mget_def key m map_add_def Key_New [OF assms(2)])
  qed
qed

lemma get_PodSandboxConfig:
  assumes "tb_get b keySandboxConfig = b64_encode (json_marshal_sandbox J c)" "json_sandbox_ok J c"
  shows "PodSandboxConfig J b = c"
  using assms by (simp add: PodSandboxConfig_def b64_decode_encode json_sandbox_ok_def)

lemma get_ContainerConfig:
  assumes "tb_get b keyContainerConfig = b64_encode (json_marshal_container J c)" "json_container_ok J c"
  shows "ContainerConfig J b = c"
  using assms by (simp add: ContainerConfig_def b64_decode_encode json_container_ok_def)

lemma container_tb_get:
  "tb_get (container_tb J on dn sid c sc) keyType = resource_string ResourceContainer"
  "tb_get (container_tb J on dn sid c sc) keyName = cm_name (cc_metadata c)"
  "tb_get (container_tb J on dn sid c sc) keySandboxUID = sid"
  "tb_get (container_tb J on dn sid c sc) keyAttempt = nat_dec (unat (cm_attempt (cc_metadata c)))"
  "tb_get (container_tb J on dn sid c sc) keyContainerConfig = b64_encode (json_marshal_container J c)"
  "tb_get (container_tb J on dn sid c sc) keySandboxConfig = b64_encode (json_marshal_sandbox J sc)"
  "tb_get (container_tb J on dn sid c sc) keyManagedBy = dn"
  by (simp_all add: container_tb_def tb_simps key_defs)

lemma sandbox_tb_get:
  "tb_get (sandbox_tb J on dn sc) keyType = resource_string ResourceSandbox"
  "tb_get (sandbox_tb J on dn sc) keyName = psm_name (psc_metadata sc)"
  "tb_get (sandbox_tb J on dn sc) keyNamespace = psm_namespace (psc_metadata sc)"
  "tb_get (sandbox_tb J on dn sc) keyUID = psm_uid (psc_metadata sc)"
  "tb_get (sandbox_tb J on dn sc) keySandboxConfig = b64_encode (json_marshal_sandbox J sc)"
  "tb_get (sandbox_tb J on dn sc) keyManagedBy = dn"
  by (simp_all add: sandbox_tb_def tb_simps key_defs)

section \<open>Normalised names\<close>

fun no_double_dash :: "string \<Rightarrow> bool" where
  "no_double_dash (c # d # r) \<longleftrightarrow> \<not> (c = dash \<and> d = dash) \<and> no_double_dash (d # r)"
| "no_double_dash _ \<longleftrightarrow> True"

definition is_label :: "string \<Rightarrow> bool" where
  "is_label s \<longleftrightarrow> list_all dns_char s \<and> (s = [] \<or> hd s \<noteq> dash \<and> last s \<noteq> dash) \<and> no_double_dash s"

lemma set_collapse: "set (collapse_dashes s) \<subseteq> set s"
  by (induction s rule: collapse_dashes.induct) auto

lemma hd_collapse: "s \<noteq> [] \<Longrightarrow> collapse_dashes s \<noteq> [] \<and> hd (collapse_dashes s) = hd s"
  by (induction s rule: collapse_dashes.induct) auto

lemma no_double_dash_Cons: "no_double_dash (c # s) \<longleftrightarrow> no_double_dash s \<and> (s = [] \<or> \<not> (c = dash \<and> hd s = dash))"
  by (cases s) auto

lemma collapse_no_double: "no_double_dash (collapse_dashes s)"
  by (induction s rule: collapse_dashes.induct) (auto simp: no_double_dash_Cons hd_collapse)

lemma collapse_id: "no_double_dash s \<Longrightarrow> collapse_dashes s = s"
  by (induction s rule: collapse_dashes.induct) auto

lemma no_double_dash_append: "no_double_dash (a @ b) \<Longrightarrow> no_double_dash a \<and> no_double_dash b"
  by (induction a) (auto simp: no_double_dash_Cons)

lemma dns_char_fixed: "dns_char c \<Longrightarrow> char_ToLower c = c \<and> dash_char c = c"
  by (auto simp: dns_char_def char_ToLower_def dash_char_def Let_def)

lemma normalize_label: "is_label (normalize s)"
proof -
  define t where "t = collapse_dashes (filter dns_char (map dash_char (strings_ToLower s)))"
  have n: "normalize s = strings_TrimFunc (\<lambda>c. c = dash) t"
    by (simp add: normalize_def t_def Let_def)
  obtain a b where ab: "t = a @ normalize s @ b"
    using TrimFunc_infix n by metis
  have "set t \<subseteq> Collect dns_char"
    unfolding t_def using set_collapse by fastforce
  then have "list_all dns_char (normalize s)" using ab by (auto simp: list_all_iff)
  moreover have "no_double_dash (normalize s)"
    using no_double_dash_append collapse_no_double ab t_def by metis
  ultimately show ?thesis
    using TrimFunc_hd [of "\<lambda>c. c = dash" t] TrimFunc_last [of "\<lambda>c. c = dash" t] n
    by (auto simp: is_label_def)
qed

lemma normalize_id:
  assumes "is_label s"
  shows "normalize s = s"
proof -
  from assms have "\<forall>c \<in> set s. dns_char c" by (simp add: is_label_def list_all_iff)
  then have "strings_ToLower s = s" "map dash_char s = s" "filter dns_char s = s"
    by (auto simp: strings_ToLower_def dns_char_fixed intro: map_idI)
  with assms show ?thesis
    by (simp add: normalize_def is_label_def collapse_id TrimFunc_id)
qed

section \<open>Names and attempts\<close>

lemma dash_split_inject:
  assumes "x @ ''-'' @ nat_dec m = y @ ''-'' @ nat_dec n"
  shows "x = y \<and> m = n"
  using sep_last_inject [of x dash "nat_dec m" y "nat_dec n"] assms
  by (simp add: nat_dec_notin)

lemma dot_split_inject:
  assumes "x @ ''.'' @ s = y @ ''.'' @ t" "dot \<notin> set s" "dot \<notin> set t"
  shows "x = y \<and> s = t"
  using sep_last_inject [of x dot s y t] assms by simp

lemma Build_container_tb:
  assumes "json_sandbox_ok J sc"
  shows "fst (Build J (container_tb J on dn sid c sc)) =
    cm_name (cc_metadata c) @ ''-'' @ nat_dec (unat (cm_attempt (cc_metadata c))) @ ''.'' @
    psm_name (psc_metadata sc) @ ''.'' @ psm_namespace (psc_metadata sc)"
  by (simp add: Build_def container_tb_get get_PodSandboxConfig assms Let_def)

lemma IncrementAttempt_get:
  assumes "tb_get b keyAttempt = nat_dec a" "a < 2 ^ 32"
  shows "tb_get (IncrementAttempt b) keyAttempt = nat_dec (a + 1)"
  using ParseUint_nat_dec [of a 32] assms by (simp add: IncrementAttempt_def)

lemma IncrementAttempt_get_other [simp]: "k \<noteq> keyAttempt \<Longrightarrow> tb_get (IncrementAttempt b) k = tb_get b k"
  by (simp add: IncrementAttempt_def Let_def)

lemma IncrementAttempt_inv [intro]: "tb_inv b \<Longrightarrow> tb_inv (IncrementAttempt b)"
  by (auto simp: IncrementAttempt_def Let_def)

lemma Clone_get [simp]: "tb_inv b \<Longrightarrow> tb_get (tb_Clone b) k = tb_get b k"
  by (simp add: tb_get_def mget_def tb_Clone_def Key_def map_of_maps_Copy_distinct tb_inv_def)

lemma Clone_inv [intro]: "tb_inv b \<Longrightarrow> tb_inv (tb_Clone b)"
  using map_of_SomeD by (fastforce simp: tb_inv_def tb_Clone_def Key_def map_of_maps_Copy_distinct
      distinct_maps_Copy simp del: map_of_eq_Some_iff)

lemma InternalTags_map_of:
  assumes "tb_inv b"
  shows "map_of (InternalTags b) k = Some v \<longleftrightarrow>
    v \<noteq> [] \<and> (\<exists>key \<in> set internalKeys. k = Key b key \<and> tb_get b key = v)"
proof -
  have d: "distinct (map fst (tb_tags b))" using assms by (simp add: tb_inv_def)
  then have d': "distinct (map fst (InternalTags b))"
    by (simp add: InternalTags_def distinct_map_filter)
  have get: "tb_get b key = v \<longleftrightarrow> (Key b key, v) \<in> set (tb_tags b)" if "v \<noteq> []" for key
    using that d map_of_eq_Some_iff [OF d, of "Key b key" v]
    by (cases "map_of (tb_tags b) (Key b key)") (auto simp: tb_get_def mget_def simp del: map_of_eq_Some_iff)
  have "k = Key b key \<longleftrightarrow> strings_HasPrefix k (tb_prefix b @ ''.'') \<and> drop (Suc (length (tb_prefix b))) k = key" for key
    by (auto simp: Key_def HasPrefix_iff)
  then have "(k, v) \<in> set (InternalTags b) \<longleftrightarrow>
      v \<noteq> [] \<and> (\<exists>key \<in> set internalKeys. k = Key b key \<and> (k, v) \<in> set (tb_tags b))"
    by (auto simp: InternalTags_def)
  with d' get show ?thesis by auto
qed

section \<open>Properties\<close>

text \<open>A builder that answers like the one of a container gives back what it was made from.\<close>

lemma container_tb_read:
  assumes get: "\<And>k. tb_get h k = tb_get (container_tb J on dn sid c sc) k"
    and "json_container_ok J c" "json_sandbox_ok J sc"
  shows "tag_Name h = cm_name (cc_metadata c)" "tag_Attempt h = cm_attempt (cc_metadata c)" "tag_SandboxUID h = sid"
    "ContainerConfig J h = c" "PodSandboxConfig J h = sc" "tag_Labels J h = cc_labels c"
    "tag_Annotations J h = cc_annotations c"
    "cc_log_path c \<noteq> [] \<Longrightarrow> psc_log_directory sc \<noteq> [] \<Longrightarrow> LogPath J h = filepath_Join [psc_log_directory sc, cc_log_path c]"
proof -
  show cc: "ContainerConfig J h = c"
    by (rule get_ContainerConfig [OF _ assms(2)]) (simp add: get container_tb_get)
  show ps: "PodSandboxConfig J h = sc"
    by (rule get_PodSandboxConfig [OF _ assms(3)]) (simp add: get container_tb_get)
  have "unat (cm_attempt (cc_metadata c)) < 2 ^ 32"
    by simp
  then show "tag_Attempt h = cm_attempt (cc_metadata c)"
    by (simp add: tag_Attempt_def get container_tb_get ParseUint_nat_dec)
qed (simp_all add: tag_Name_def tag_SandboxUID_def tag_Labels_def tag_Annotations_def LogPath_def get container_tb_get
       get_ContainerConfig [OF _ assms(2)] get_PodSandboxConfig [OF _ assms(3)])

text \<open>C5. The labels that \<^verbatim>\<open>CreateContainer\<close> stores on a container carry everything that is read
  back from them: a builder hydrated from the labels alone returns the container's name, its
  attempt number (for every 32-bit value), the sandbox it belongs to, both configurations, the
  labels and annotations of the container, and the log path joined from both configurations.\<close>

theorem container_tags_roundtrip:
  assumes "json_container_ok J c" and "json_sandbox_ok J sc"
    and "cc_log_path c \<noteq> []" and "psc_log_directory sc \<noteq> []"
    and hyd: "h = WithTags (snd (Build J (container_tb J on dn sid c sc))) (NewTagBuilder on dn')"
  shows "tag_Name h = cm_name (cc_metadata c) \<and> tag_Attempt h = cm_attempt (cc_metadata c)
    \<and> tag_SandboxUID h = sid \<and> ContainerConfig J h = c \<and> PodSandboxConfig J h = sc
    \<and> tag_Labels J h = cc_labels c \<and> tag_Annotations J h = cc_annotations c
    \<and> LogPath J h = filepath_Join [psc_log_directory sc, cc_log_path c]"
proof -
  have h: "h = WithTags (tb_tags (container_tb J on dn sid c sc)) (NewTagBuilder on dn')"
    by (simp add: hyd Build_def container_tb_get Let_def)
  have get: "tb_get h k = tb_get (container_tb J on dn sid c sc) k" for k
    unfolding h by (rule hydrate_get) simp_all
  show ?thesis
    using container_tb_read [OF get assms(1,2)] assms(3,4) by simp
qed

definition example_codec :: "container_config \<Rightarrow> pod_sandbox_config \<Rightarrow> json_codec" where
  "example_codec c sc = \<lparr>json_marshal_sandbox = \<lambda>_. ''{}'', json_unmarshal_sandbox = \<lambda>_. sc,
     json_marshal_container = \<lambda>_. ''{}'', json_unmarshal_container = \<lambda>_. c,
     json_marshal_aliases = \<lambda>_. ''[]'', json_unmarshal_aliases = \<lambda>_. Some []\<rparr>"

definition example_container :: "container_config" where
  "example_container = container_config_zero\<lparr>cc_metadata := \<lparr>cm_name = ''web'', cm_attempt = 3\<rparr>,
     cc_log_path := ''web/3.log'', cc_labels := [(''app'', ''shop'')]\<rparr>"

definition example_sandbox :: "pod_sandbox_config" where
  "example_sandbox = pod_sandbox_config_zero\<lparr>psc_metadata := \<lparr>psm_name = ''shop-0'',
     psm_namespace = ''default'', psm_uid = ''u-1''\<rparr>, psc_log_directory := ''/var/log/pods''\<rparr>"

lemma example_codec_ok [simp]:
  "json_container_ok (example_codec c sc) c" "json_sandbox_ok (example_codec c sc) sc"
  by (simp_all add: json_container_ok_def json_sandbox_ok_def example_codec_def)

theorem container_tags_roundtrip_witness:
  "tag_Attempt (WithTags (snd (Build (example_codec example_container example_sandbox)
       (container_tb (example_codec example_container example_sandbox) ''nanokube'' ''docker'' ''sb1''
         example_container example_sandbox))) (NewTagBuilder ''nanokube'' ''docker'')) = 3"
proof -
  have "cc_log_path example_container \<noteq> []" "psc_log_directory example_sandbox \<noteq> []"
    by (simp_all add: example_container_def example_sandbox_def)
  from container_tags_roundtrip [OF example_codec_ok this refl, of "''nanokube''" "''docker''" "''sb1''" "''docker''"]
  show ?thesis by (simp add: example_container_def)
qed

text \<open>Two containers get the same Docker name only if they are the same container of the
  same pod in the same attempt, provided the container names and the namespaces contain no dot
  (Kubernetes admits none there; pod names may contain dots).\<close>

theorem container_names_injective:
  assumes "fst (Build J (container_tb J on dn sid c sc)) = fst (Build J (container_tb J on' dn' sid' c' sc'))"
    and "json_sandbox_ok J sc" and "json_sandbox_ok J sc'"
    and "dot \<notin> set (cm_name (cc_metadata c))" and "dot \<notin> set (cm_name (cc_metadata c'))"
    and "dot \<notin> set (psm_namespace (psc_metadata sc))" and "dot \<notin> set (psm_namespace (psc_metadata sc'))"
  shows "cm_name (cc_metadata c) = cm_name (cc_metadata c') \<and> cm_attempt (cc_metadata c) = cm_attempt (cc_metadata c')
    \<and> psm_name (psc_metadata sc) = psm_name (psc_metadata sc')
    \<and> psm_namespace (psc_metadata sc) = psm_namespace (psc_metadata sc')"
proof -
  define x where "x c = cm_name (cc_metadata c) @ ''-'' @ nat_dec (unat (cm_attempt (cc_metadata c)))" for c :: container_config
  define y where "y s = psm_name (psc_metadata s) @ ''.'' @ psm_namespace (psc_metadata s)" for s :: pod_sandbox_config
  have "x c @ dot # y sc = x c' @ dot # y sc'"
    using assms(1) by (simp add: Build_container_tb assms(2,3) x_def y_def)
  moreover have "dot \<notin> set (x c)" "dot \<notin> set (x c')"
    using assms(4,5) by (simp_all add: x_def nat_dec_notin)
  ultimately have "x c = x c'" and "y sc = y sc'"
    using sep_first_inject by blast+
  with dash_split_inject dot_split_inject [OF _ assms(6,7)] show ?thesis
    unfolding x_def y_def by (metis word_unat_eq_iff)
qed

theorem container_names_injective_witness:
  "fst (Build (example_codec example_container example_sandbox)
     (container_tb (example_codec example_container example_sandbox) ''nanokube'' ''docker'' ''sb1''
       example_container example_sandbox)) = ''web-3.shop-0.default''
   \<and> cm_name (cc_metadata example_container) = ''web''"
proof -
  let ?J = "example_codec example_container example_sandbox"
  have d: "dot \<notin> set (cm_name (cc_metadata example_container))"
    "dot \<notin> set (psm_namespace (psc_metadata example_sandbox))"
    by (simp_all add: example_container_def example_sandbox_def)
  have "cm_name (cc_metadata example_container) = cm_name (cc_metadata example_container)"
    using container_names_injective [of ?J "''nanokube''" "''docker''" "''sb1''" example_container example_sandbox
        "''nanokube''" "''docker''" "''sb2''" example_container example_sandbox] d
    by (simp add: Build_container_tb)
  moreover have "nat_dec 3 = ''3''" by (simp add: dec_eval)
  ultimately show ?thesis
    by (simp add: Build_container_tb) (simp add: example_container_def example_sandbox_def)
qed

text \<open>\<^verbatim>\<open>normalize\<close> always gives a string of lower-case letters, digits and single inner dashes,
  it is idempotent, and it leaves exactly such strings unchanged. (The empty string is one of
  them, and the length is not bounded: the function does not by itself give a DNS label.)\<close>

theorem normalize_correct:
  "is_label (normalize s) \<and> normalize (normalize s) = normalize s \<and> is_label s = (normalize s = s)
   \<and> normalize ''__'' = []"
proof -
  have "normalize ''__'' = []" by (simp add: normalize_def strings_ToLower_def char_ToLower_def
        dash_char_def dns_char_def strings_TrimFunc_def)
  then show ?thesis using normalize_label normalize_id by metis
qed

text \<open>\<^verbatim>\<open>InternalTags\<close> is exactly the set of non-empty values the builder holds under the
  program's own keys: no Kubernetes label and no configuration blob is used as a filter.\<close>

lemma internal_tags_exact:
  "map_of (InternalTags (WithName n (WithType t (NewTagBuilder on dn)))) k = Some v \<longleftrightarrow>
     v \<noteq> [] \<and> ((k = on @ ''.managed-by'' \<and> v = dn) \<or> (k = on @ ''.type'' \<and> v = resource_string t)
       \<or> (k = on @ ''.name'' \<and> v = n))"
proof -
  have inv: "tb_inv (WithName n (WithType t (NewTagBuilder on dn)))"
    by (simp add: WithName_def WithType_def)
  show ?thesis
    unfolding InternalTags_map_of [OF inv]
    by (auto simp: internalKeys_def tb_simps key_defs Key_def)
qed

text \<open>The attempt counter: incrementing an attempt below \<open>2 ^ 32\<close> adds one to the number in
  the tag, and at \<open>2 ^ 32\<close>, where the parser saturates, incrementing leaves the tag as it is.\<close>

theorem increment_attempt_saturates:
  "tb_get (IncrementAttempt (tb_set keyAttempt (nat_dec a) b)) keyAttempt
     = nat_dec (if a < 2 ^ 32 then a + 1 else 2 ^ 32)"
proof (cases "a < 2 ^ 32")
  case True
  then show ?thesis using IncrementAttempt_get [of "tb_set keyAttempt (nat_dec a) b" a] by simp
next
  case False
  then have "fst (strconv_ParseUint 32 (nat_dec a)) = 2 ^ 32 - 1"
    by (simp add: strconv_ParseUint_def ParseUint_loop_nat_dec_large)
  with False show ?thesis by (simp add: IncrementAttempt_def)
qed

end
