(* ===== verification/Tag_Types.thy ===== *)
theory Tag_Types
  imports Tags
begin

text \<open>
  The types of the tags. A builder (\<^verbatim>\<open>src/pkg/nanokube/tags.go\<close>) stores every field as text; this theory
  shows that whatever sequence of its methods makes a builder, each field holds the text of a value of
  the type its reader expects, so that the readers' fallback values never hide a stored one.
\<close>

text \<open>The methods that change a builder, in any order.\<close>

datatype tag_op = OpType resource_type | OpName string | OpNamespace string | OpUID string | OpSandboxUID string
  | OpAttempt "32 word" | OpSandbox "pod_sandbox_config option" | OpContainer "container_config option" | OpIncrement | OpClone

fun tag_apply :: "json_codec \<Rightarrow> tag_op \<Rightarrow> tag_builder \<Rightarrow> tag_builder" where
  "tag_apply J (OpType t) = WithType t"
| "tag_apply J (OpName n) = WithName n"
| "tag_apply J (OpNamespace n) = WithNamespace n"
| "tag_apply J (OpUID u) = WithUID u"
| "tag_apply J (OpSandboxUID u) = WithSandboxUID u"
| "tag_apply J (OpAttempt a) = WithAttempt a"
| "tag_apply J (OpSandbox c) = WithPodSandboxConfig J c"
| "tag_apply J (OpContainer c) = WithContainerConfig J c"
| "tag_apply J OpIncrement = IncrementAttempt"
| "tag_apply J OpClone = tb_Clone"

text \<open>The text of each typed field; a field that was not set is empty.\<close>

definition text_of :: "('a \<Rightarrow> string) \<Rightarrow> 'a set \<Rightarrow> string \<Rightarrow> bool" where
  "text_of f A s \<longleftrightarrow> s = [] \<or> s \<in> f ` A"

definition tb_typed :: "json_codec \<Rightarrow> string \<Rightarrow> string \<Rightarrow> tag_builder \<Rightarrow> bool" where
  "tb_typed J on dn b \<longleftrightarrow> tb_inv b \<and> tb_prefix b = on \<and> tb_get b keyManagedBy = dn \<and>
     tb_get b keyType \<in> range resource_string \<and> text_of nat_dec {..2 ^ 32} (tb_get b keyAttempt) \<and>
     text_of (b64_encode \<circ> json_marshal_sandbox J) UNIV (tb_get b keySandboxConfig) \<and>
     text_of (b64_encode \<circ> json_marshal_container J) UNIV (tb_get b keyContainerConfig)"

lemma text_of_intros [simp]: "text_of f A []" "x \<in> A \<Longrightarrow> text_of f A (f x)"
  by (simp_all add: text_of_def)

lemma text_of_comp [simp]: "text_of (f \<circ> g) UNIV (f (g x))"
  by (auto simp: text_of_def)

lemma ParseUint_loop_le: "n \<le> m \<Longrightarrow> fst (ParseUint_loop m n s) \<le> m"
  by (induction m n s rule: ParseUint_loop.induct) (auto simp: Let_def)

lemma ParseUint_le: "fst (strconv_ParseUint bits s) < 2 ^ bits"
  using ParseUint_loop_le [of 0 "2 ^ bits - 1" s] by (simp add: strconv_ParseUint_def less_eq_Suc_le [symmetric] le_diff_conv2)

lemma typed_step: "tb_typed J on dn b \<Longrightarrow> tb_typed J on dn (tag_apply J op b)"
proof (cases op)
  case (OpAttempt a)
  moreover have "unat a \<le> 2 ^ 32" using unsigned_less [of a, where 'a = nat] by (simp add: less_imp_le)
  moreover assume "tb_typed J on dn b"
  ultimately show ?thesis by (simp add: tb_typed_def with_defs key_defs)
next
  case OpIncrement
  moreover have "fst (strconv_ParseUint 32 (tb_get b keyAttempt)) + 1 \<le> 2 ^ 32"
    using ParseUint_le [of 32 "tb_get b keyAttempt"] by simp
  moreover assume "tb_typed J on dn b"
  ultimately show ?thesis by (simp add: tb_typed_def IncrementAttempt_def Let_def key_defs)
next
  case OpClone
  moreover assume "tb_typed J on dn b"
  moreover have "tb_prefix (tb_Clone b) = tb_prefix b" by (simp add: tb_Clone_def)
  ultimately show ?thesis using Clone_inv by (simp add: tb_typed_def)
qed (auto simp: tb_typed_def with_defs key_defs split: option.splits)

lemma typed_fold: "tb_typed J on dn b \<Longrightarrow> tb_typed J on dn (fold (tag_apply J) ops b)"
  by (induction ops arbitrary: b) (simp_all add: typed_step)

lemma typed_New: "tb_typed J on dn (NewTagBuilder on dn)"
  using rangeI [of resource_string ResourceUnknown] by (simp add: tb_typed_def tb_get_New key_defs del: resource_string.simps)

text \<open>The readers return the stored value.\<close>

lemma attempt_text:
  assumes "text_of nat_dec {..2 ^ 32} (tb_get b keyAttempt)" "tb_get b keyAttempt \<noteq> []"
  shows "\<exists>n \<le> 2 ^ 32. tb_get b keyAttempt = nat_dec n \<and> unat (tag_Attempt b) = min n (2 ^ 32 - 1)"
proof -
  obtain n where n: "n \<le> 2 ^ 32" "tb_get b keyAttempt = nat_dec n" using assms by (auto simp: text_of_def)
  have "fst (strconv_ParseUint 32 (nat_dec n)) = min n (2 ^ 32 - 1)"
  proof (cases "n < 2 ^ 32")
    case True
    then show ?thesis using ParseUint_nat_dec [OF True] by simp
  next
    case False
    then show ?thesis using ParseUint_loop_nat_dec_large [of "2 ^ 32 - 1" n] by (simp add: strconv_ParseUint_def)
  qed
  with n show ?thesis by (auto simp: tag_Attempt_def unat_of_nat)
qed

lemma config_text:
  assumes "text_of (b64_encode \<circ> m) UNIV s" "s \<noteq> []"
  shows "\<exists>c. s = b64_encode (m c) \<and> b64_decode s = Some (m c)"
  using assms by (auto simp: text_of_def b64_decode_encode)


end
