(* ===== verification/Net_IP.thy ===== *)
theory Net_IP
  imports Go_Strings
begin

text \<open>
  Addresses of Go's package \<^verbatim>\<open>net\<close> as byte slices, and the byte loops of
  \<^verbatim>\<open>src/pkg/nanokube/network.go\<close> over them: the gateway computation and the carry loop that
  advances to the next subnet. Text forms of addresses follow the library: dotted decimal for
  4 bytes and for IPv4-mapped addresses, compressed hexadecimal groups for IPv6. Parsing covers
  the dotted-decimal form, the only one Docker reports in its IPv4 fields; every other text is
  not an IPv4 address.
\<close>

unbundle bit_operations_syntax

type_synonym ip = "8 word list"

record ipnet =
  net_ip :: ip
  net_mask :: ip

section \<open>Library functions\<close>

fun CIDRMask :: "nat \<Rightarrow> nat \<Rightarrow> ip" where
  "CIDRMask n 0 = []"
| "CIDRMask n (Suc l) =
     (if 8 \<le> n then 255 # CIDRMask (n - 8) l else NOT (drop_bit n 255) # CIDRMask 0 l)"

definition byte_ones :: "8 word \<Rightarrow> nat" where
  "byte_ones b = length (takeWhile (\<lambda>i. bit b i) [7, 6, 5, 4, 3, 2, 1, 0])"

fun mask_ones :: "ip \<Rightarrow> nat option" where
  "mask_ones [] = Some 0"
| "mask_ones (b # bs) =
     (if b = 255 then map_option (\<lambda>n. n + 8) (mask_ones bs)
      else if b = NOT (drop_bit (byte_ones b) 255) \<and> (\<forall>c \<in> set bs. c = 0) then Some (byte_ones b)
      else None)"

definition mask_Size :: "ip \<Rightarrow> nat" where
  "mask_Size m = (case mask_ones m of None \<Rightarrow> 0 | Some n \<Rightarrow> n)"

definition To4 :: "ip \<Rightarrow> ip option" where
  "To4 a = (if length a = 4 then Some a
            else if length a = 16 \<and> take 10 a = replicate 10 0 \<and> a ! 10 = 255 \<and> a ! 11 = 255
            then Some (drop 12 a) else None)"

definition As16 :: "ip \<Rightarrow> ip" where
  "As16 a = (if length a = 4 then replicate 10 0 @ [255, 255] @ a else a)"

definition ip_Mask :: "ip \<Rightarrow> ip \<Rightarrow> ip" where
  "ip_Mask a m = (if length a = length m then map2 (AND) a m else [])"

definition hex_digit :: "nat \<Rightarrow> char" where
  "hex_digit d = (if d < 10 then digit_char d else char_of (87 + d))"

fun hex_nat :: "nat \<Rightarrow> string" where
  "hex_nat n = (if n < 16 then [hex_digit n] else hex_nat (n div 16) @ [hex_digit (n mod 16)])"

declare hex_nat.simps [simp del]

definition hex_bytes :: "ip \<Rightarrow> string" where
  "hex_bytes a = concat (map (\<lambda>b. [hex_digit (unat b div 16), hex_digit (unat b mod 16)]) a)"

fun groups16 :: "ip \<Rightarrow> nat list" where
  "groups16 (a # b # r) = (unat a * 256 + unat b) # groups16 r"
| "groups16 _ = []"

text \<open>The first longest run of at least two zero groups, as the library looks for it.\<close>

definition zero_run :: "nat list \<Rightarrow> nat \<times> nat" where
  "zero_run gs =
     foldl (\<lambda>(s, l) i. let k = length (takeWhile (\<lambda>g. g = 0) (drop i gs))
                       in if 2 \<le> k \<and> l < k then (i, k) else (s, l)) (255, 0) [0..<8]"

definition ip6_string :: "ip \<Rightarrow> string" where
  "ip6_string a =
     (let gs = groups16 a; (s, l) = zero_run gs; hex = map hex_nat gs
      in if l = 0 then strings_Join [colon] hex
         else strings_Join [colon] (take s hex) @ ''::'' @ strings_Join [colon] (drop (s + l) hex))"

definition ip4_string :: "ip \<Rightarrow> string" where
  "ip4_string a = strings_Join [dot] (map (\<lambda>b. nat_dec (unat b)) a)"

definition ip_String :: "ip \<Rightarrow> string" where
  "ip_String a =
     (if a = [] then ''<nil>''
      else if length a \<noteq> 4 \<and> length a \<noteq> 16 then ''?'' @ hex_bytes a
      else (case To4 a of Some p4 \<Rightarrow> ip4_string p4 | None \<Rightarrow> ip6_string a))"

definition ipnet_String :: "ipnet \<Rightarrow> string" where
  "ipnet_String n =
     (case mask_ones (net_mask n) of
        None \<Rightarrow> ip_String (net_ip n) @ ''/'' @ hex_bytes (net_mask n)
      | Some k \<Rightarrow> ip_String (net_ip n) @ ''/'' @ nat_dec k)"

definition parse_octet :: "string \<Rightarrow> 8 word option" where
  "parse_octet s =
     (if s = [] \<or> (1 < length s \<and> hd s = CHR ''0'') then None
      else (case strconv_ParseUint 8 s of (n, None) \<Rightarrow> Some (word_of_nat n) | _ \<Rightarrow> None))"

definition ParseIP :: "string \<Rightarrow> ip option" where
  "ParseIP s =
     (case map parse_octet (strings_Split dot s) of
        [Some a, Some b, Some c, Some d] \<Rightarrow> Some (As16 [a, b, c, d])
      | _ \<Rightarrow> None)"

section \<open>The byte loops of the allocator\<close>

text \<open>\<^verbatim>\<open>gateway[j] |= ^ipNet.Mask[j]\<close> for every byte of the address; a mask shorter than the
  address is an index out of range (\<open>None\<close>).\<close>

fun or_not_mask :: "ip \<Rightarrow> ip \<Rightarrow> ip option" where
  "or_not_mask [] m = Some []"
| "or_not_mask (b # bs) [] = None"
| "or_not_mask (b # bs) (m # ms) = map_option ((#) (b OR NOT m)) (or_not_mask bs ms)"

text \<open>Both loops run from the last byte to the first, so they are written on the reversed slice.\<close>

fun dec_rev :: "ip \<Rightarrow> ip" where
  "dec_rev [] = []"
| "dec_rev (b # bs) = (let b' = b - 1 in if b' \<noteq> 255 then b' # bs else b' # dec_rev bs)"

definition ip_decrement :: "ip \<Rightarrow> ip" where
  "ip_decrement a = rev (dec_rev (rev a))"

fun carry_rev :: "32 word \<Rightarrow> ip \<Rightarrow> ip" where
  "carry_rev c [] = []"
| "carry_rev c (b # bs) =
     (if 0 < c then let sum = ucast b + c in ucast sum # carry_rev (drop_bit 8 sum) bs
      else b # bs)"

definition ip_advance :: "32 word \<Rightarrow> ip \<Rightarrow> ip" where
  "ip_advance c a = rev (carry_rev c (rev a))"

section \<open>The loops as arithmetic\<close>

text \<open>The value of a big-endian byte slice, and of a reversed one.\<close>

fun val_rev :: "ip \<Rightarrow> nat" where
  "val_rev [] = 0"
| "val_rev (b # bs) = unat b + 256 * val_rev bs"

definition ip_val :: "ip \<Rightarrow> nat" where
  "ip_val a = val_rev (rev a)"

lemma unat8_less: "unat (b :: 8 word) < 256"
  using unsigned_less [of b] by simp

lemma val_rev_bound: "val_rev bs < 256 ^ length bs"
proof (induction bs)
  case (Cons b bs)
  have "unat b + 256 * val_rev bs < 256 + 256 * val_rev bs" by (simp add: unat8_less)
  also have "\<dots> \<le> 256 * 256 ^ length bs" using Cons by simp
  finally show ?case by simp
qed simp

lemma byte_cons_inject:
  fixes x y m n :: nat
  assumes "x < 256" "y < 256"
  shows "x + 256 * m = y + 256 * n \<longleftrightarrow> x = y \<and> m = n"
proof
  assume eq: "x + 256 * m = y + 256 * n"
  have "x = (x + 256 * m) mod 256" using assms by simp
  also have "\<dots> = y" using eq assms by simp
  finally show "x = y \<and> m = n" using eq by simp
qed simp

lemma val_rev_inject: "length a = length b \<Longrightarrow> val_rev a = val_rev b \<longleftrightarrow> a = b"
proof (induction a b rule: list_induct2)
  case (Cons x xs y ys)
  have "unat x + 256 * val_rev xs = unat y + 256 * val_rev ys \<longleftrightarrow> unat x = unat y \<and> val_rev xs = val_rev ys"
    by (rule byte_cons_inject) (rule unat8_less)+
  with Cons show ?case by (simp add: word_unat_eq_iff)
qed simp

lemma ip_val_inject: "length a = length b \<Longrightarrow> ip_val a = ip_val b \<longleftrightarrow> a = b"
  by (simp add: ip_val_def val_rev_inject)

lemma length_dec_rev [simp]: "length (dec_rev bs) = length bs"
  by (induction bs) (auto simp: Let_def)

lemma length_carry_rev [simp]: "length (carry_rev c bs) = length bs"
  by (induction c bs rule: carry_rev.induct) (auto simp: Let_def)

lemma length_ip_advance [simp]: "length (ip_advance c a) = length a"
  by (simp add: ip_advance_def)

lemma length_ip_decrement [simp]: "length (ip_decrement a) = length a"
  by (simp add: ip_decrement_def)

lemma length_or_not_mask: "or_not_mask a m = Some g \<Longrightarrow> length g = length a"
  by (induction a m arbitrary: g rule: or_not_mask.induct) auto

lemma or_not_mask_total: "length a \<le> length m \<Longrightarrow> \<exists>g. or_not_mask a m = Some g"
  by (induction a m rule: or_not_mask.induct) auto

lemma length_CIDRMask [simp]: "length (CIDRMask n l) = l"
  by (induction n l rule: CIDRMask.induct) auto

lemma dec_rev_val: "0 < val_rev bs \<Longrightarrow> val_rev (dec_rev bs) = val_rev bs - 1"
proof (induction bs)
  case (Cons b bs)
  show ?case
  proof (cases "b = 0")
    case True
    with Cons.prems have "0 < val_rev bs" by simp
    moreover have "unat (- 1 :: 8 word) = 255" by code_simp
    ultimately show ?thesis using True Cons.IH by (simp add: Let_def)
  next
    case False
    then have u: "unat (b - 1) = unat b - 1" and p: "0 < unat b"
      by (simp_all add: unat_minus_one unat_gt_0)
    have "b - 1 \<noteq> 255"
    proof
      assume "b - 1 = 255"
      then have "unat b - 1 = 255" using u by simp
      then show False using unat8_less [of b] by linarith
    qed
    with u p show ?thesis by (simp add: Let_def)
  qed
qed simp


lemma ip_decrement_val: "0 < ip_val a \<Longrightarrow> ip_val (ip_decrement a) = ip_val a - 1"
  by (simp add: ip_val_def ip_decrement_def dec_rev_val)

lemma unat_ucast8: "unat (ucast (w :: 32 word) :: 8 word) = unat w mod 256"
  by (simp add: unsigned_ucast_eq take_bit_eq_mod)

lemma unat_ucast32: "unat (ucast (b :: 8 word) :: 32 word) = unat b"
  using unat8_less [of b] by (simp add: unsigned_ucast_eq take_bit_eq_mod mod_less)

lemma carry_rev_val:
  "unat c \<le> 2 ^ 31 \<Longrightarrow> val_rev (carry_rev c bs) = (val_rev bs + unat c) mod 256 ^ length bs"
proof (induction c bs rule: carry_rev.induct)
  case (2 c b bs)
  show ?case
  proof (cases "0 < c")
    case True
    define sum :: "32 word" where "sum = ucast b + c"
    have u: "unat sum = unat b + unat c"
      using 2(2) unat8_less [of b] unfolding sum_def
      by (simp add: unat_word_ariths unat_ucast32)
    have d: "unat (drop_bit 8 sum) = unat sum div 256"
      by (simp add: unat_div drop_bit_eq_div)
    have le: "unat (drop_bit 8 sum) \<le> 2 ^ 31"
      using 2(2) unat8_less [of b] by (simp add: d u)
    have "val_rev (carry_rev c (b # bs)) =
        unat sum mod 256 + 256 * ((val_rev bs + unat sum div 256) mod 256 ^ length bs)"
      using True 2(1) [OF True sum_def le] by (simp add: Let_def sum_def [symmetric] unat_ucast8 d)
    also have "\<dots> = (unat sum + 256 * val_rev bs) mod (256 * 256 ^ length bs)"
      by (simp add: mod_mult2_eq add.commute)
    finally show ?thesis by (simp add: u ac_simps)
  next
    case False
    then show ?thesis using val_rev_bound [of "b # bs"] by (simp add: word_gt_0)
  qed
qed simp

lemma ip_advance_val:
  "unat c \<le> 2 ^ 31 \<Longrightarrow> ip_val (ip_advance c a) = (ip_val a + unat c) mod 256 ^ length a"
  by (simp add: ip_val_def ip_advance_def carry_rev_val)


section \<open>Subnets of sixteen addresses\<close>

lemma CIDRMask_28 [simp]: "CIDRMask 28 4 = [255, 255, 255, 240]"
  by code_simp

lemma mask_Size_28 [simp]: "mask_Size [255, 255, 255, 240] = 28"
  by code_simp

lemma or_15_all: "\<forall>b :: 8 word. b AND 240 = b \<longrightarrow> unat (b OR 15) = unat b + 15"
  by code_simp

lemma not_masks: "- 256 = (0 :: 8 word)" "- 241 = (15 :: 8 word)"
  by code_simp+

lemma length_4D:
  assumes "length a = 4"
  obtains w x y z where "a = [w, x, y, z]"
  using assms by (auto simp: numeral_eq_Suc length_Suc_conv)

text \<open>In a /28 network whose address has its host bits clear, setting the host bits and counting
  down by one gives the last usable address: the network address plus 14.\<close>

lemma gateway_28:
  assumes "length a = 4" and "ip_Mask a (CIDRMask 28 4) = a" and "or_not_mask a (CIDRMask 28 4) = Some g"
  shows "ip_val (ip_decrement g) = ip_val a + 14" "length (ip_decrement g) = 4"
proof -
  obtain w x y z where a: "a = [w, x, y, z]" using assms(1) by (rule length_4D)
  have z: "z AND 240 = z" using assms(2) by (simp add: a ip_Mask_def)
  have g: "g = [w, x, y, z OR 15]" using assms(3) by (simp add: a not_masks)
  have v: "ip_val g = ip_val a + 15"
    using or_15_all z by (simp add: g a ip_val_def)
  then show "ip_val (ip_decrement g) = ip_val a + 14" by (simp add: ip_decrement_val)
  show "length (ip_decrement g) = 4" by (simp add: g)
qed


section \<open>Dotted decimal text\<close>

lemma nat_dec_hd: "10 \<le> n \<Longrightarrow> hd (nat_dec n) \<noteq> CHR ''0''"
proof (induction n rule: nat_dec.induct)
  case (1 n)
  have "hd (nat_dec n) = hd (nat_dec (n div 10))"
    using 1(2) by (subst nat_dec.simps) simp
  moreover have "hd (nat_dec (n div 10)) \<noteq> CHR ''0''"
  proof (cases "10 \<le> n div 10")
    case False
    then have "of_char (digit_char (n div 10)) = 48 + n div 10" and "0 < n div 10"
      using 1(2) by (auto simp: of_char_digit_char)
    then have "digit_char (n div 10) \<noteq> CHR ''0''" by auto
    with False show ?thesis by (subst nat_dec.simps) simp
  qed (use 1 in simp)
  ultimately show ?case by simp
qed

lemma parse_octet_nat_dec [simp]: "parse_octet (nat_dec (unat b)) = Some b"
proof -
  have "length (nat_dec (unat b)) = 1" if "unat b < 10"
    using that by (subst nat_dec.simps) simp
  moreover have "hd (nat_dec (unat b)) \<noteq> CHR ''0''" if "\<not> unat b < 10"
    using that by (intro nat_dec_hd) simp
  moreover have "strconv_ParseUint 8 (nat_dec (unat b)) = (unat b, None)"
    using unat8_less [of b] by (intro ParseUint_nat_dec) simp
  ultimately show ?thesis by (cases "unat b < 10") (simp_all add: parse_octet_def)
qed

lemma Split_ip4_string:
  "a \<noteq> [] \<Longrightarrow> strings_Split dot (ip4_string a) = map (\<lambda>b. nat_dec (unat b)) a"
  by (auto simp: ip4_string_def nat_dec_notin intro!: Split_Join)

lemma ParseIP_String: "length a = 4 \<Longrightarrow> ParseIP (ip_String a) = Some (As16 a)"
  by (erule length_4D) (simp add: ParseIP_def ip_String_def To4_def Split_ip4_string)

lemma To4_As16: "length a = 4 \<Longrightarrow> To4 (As16 a) = Some a"
  by (erule length_4D) (simp add: As16_def To4_def numeral_eq_Suc)

lemma ip_String_inject:
  assumes "length a = 4" "length b = 4"
  shows "ip_String a = ip_String b \<longleftrightarrow> a = b"
  using assms by (metis ParseIP_String To4_As16 option.inject)

end
