(* ===== verification/Network.thy ===== *)
theory Network
  imports Net_IP Cri_Types Go_Prelude
begin

text \<open>
  The subnet allocator of \<^verbatim>\<open>src/pkg/nanokube/network.go\<close>: the default network, the map of
  allocated networks keyed by the text of their address, the high-water mark \<^verbatim>\<open>nextIP\<close>, and the
  operations that hand a network to a sandbox and take it back. The driver's network service
  is a parameter: three functions on a world of their own. Go's \<^verbatim>\<open>sync.Map\<close> visits its entries
  in no fixed order, so the order is a parameter too. What a component that hands out resources
  promises, that nobody loses what it holds to somebody else, is stated as the locale
  \<open>holders\<close> and proved for the allocator.
\<close>

unbundle bit_operations_syntax

section \<open>State\<close>

text \<open>An \<^verbatim>\<open>allocatedNetworkImpl\<close> is never changed once it is made: the map entry is replaced by a
  new object. So an object is its value.\<close>

record alloc =
  an_id :: string
  an_type :: string
  an_gateway :: ip
  an_net :: ipnet
  an_uid :: "string option"

record 'w net_service =
  CreateNetwork :: "string \<Rightarrow> ipnet option \<Rightarrow> ip option \<Rightarrow> 'w \<Rightarrow> (error + string) \<times> 'w"
  GetNetwork :: "string \<Rightarrow> 'w \<Rightarrow> (error + string option \<times> ip option \<times> ipnet option) \<times> 'w"
  RemoveNetwork :: "string \<Rightarrow> 'w \<Rightarrow> error option \<times> 'w"

record 'w network =
  defaultNet :: "alloc option"
  defaultNetOnce :: bool
  networks :: "(string \<times> alloc) list"
  nextIP :: ip
  cancels :: "error list"
  world :: 'w

definition NewNetwork :: "'w \<Rightarrow> 'w network" where
  "NewNetwork w = \<lparr>defaultNet = None, defaultNetOnce = False, networks = [], nextIP = [],
                   cancels = [], world = w\<rparr>"

definition NetworkSubnetSize :: nat where
  "NetworkSubnetSize = 28"

definition an_key :: "alloc \<Rightarrow> string" where
  "an_key a = ip_String (net_ip (an_net a))"

text \<open>A visiting order is any rearrangement of the entries.\<close>

type_synonym range_ord = "(string \<times> alloc) list \<Rightarrow> (string \<times> alloc) list"

definition range_order :: "range_ord \<Rightarrow> (string \<times> alloc) list \<Rightarrow> (string \<times> alloc) list" where
  "range_order ord m = (if distinct (ord m) \<and> set (ord m) = set m then ord m else m)"

lemma set_range_order [simp]: "set (range_order ord m) = set m"
  by (simp add: range_order_def)

section \<open>Calls to the service and to the owner\<close>

definition srv :: "('w \<Rightarrow> 'a \<times> 'w) \<Rightarrow> ('w network, 'a) go" where
  "srv f s = (let (a, w) = f (world s) in (Ret a, s\<lparr>world := w\<rparr>))"

text \<open>\<^verbatim>\<open>n.ctx.Cancel(err)\<close> records the error and ends the calling goroutine.\<close>

definition ctx_Cancel :: "error \<Rightarrow> ('w network, 'a) go" where
  "ctx_Cancel e s = (Goexit, s\<lparr>cancels := cancels s @ [e]\<rparr>)"

definition or_cancel :: "string \<Rightarrow> ('w network, error + 'a) go \<Rightarrow> ('w network, 'a) go" where
  "or_cancel m c = go_bind c (\<lambda>r. case r of Inl e \<Rightarrow> ctx_Cancel (Wrapf m e) | Inr a \<Rightarrow> go_ret a)"

definition err_sum :: "error option \<Rightarrow> error + unit" where
  "err_sum e = (case e of None \<Rightarrow> Inr () | Some e \<Rightarrow> Inl e)"

section \<open>Allocated networks\<close>

definition LoadOrStore :: "string \<Rightarrow> alloc \<Rightarrow> ('w network, alloc) go" where
  "LoadOrStore k a s =
     (case map_of (networks s) k of
        Some b \<Rightarrow> (Ret b, s)
      | None \<Rightarrow> (Ret a, s\<lparr>networks := AList.update k a (networks s)\<rparr>))"

definition newAllocatedNetwork :: "'w net_service \<Rightarrow> string \<Rightarrow> ('w network, error + alloc) go" where
  "newAllocatedNetwork S nid =
     go_try (srv (GetNetwork S nid)) (\<lambda>(ty, gw, nt).
       case (ty, gw, nt) of
         (Some ty, Some gw, Some nt) \<Rightarrow>
           go_bind (LoadOrStore (ip_String (net_ip nt))
             \<lparr>an_id = nid, an_type = ty, an_gateway = gw, an_net = nt, an_uid = None\<rparr>) (\<lambda>an. go_ret (Inr an))
       | _ \<Rightarrow> go_ret (Inl (Errorf (''network '' @ strconv_Quote nid @ '' not found''))))"

text \<open>\<^verbatim>\<open>WithSandboxUID\<close> swaps a new object into the map and returns what was there before; it
  refuses to move an object from one sandbox to another.\<close>

definition alloc_WithSandboxUID :: "alloc \<Rightarrow> string option \<Rightarrow> ('w network, alloc option) go" where
  "alloc_WithSandboxUID a uid s =
     (if an_uid a \<noteq> None \<and> uid \<noteq> None \<and> an_uid a \<noteq> uid then (Ret None, s)
      else (Ret (map_of (networks s) (an_key a)),
            s\<lparr>networks := AList.update (an_key a) (a\<lparr>an_uid := uid\<rparr>) (networks s)\<rparr>))"

definition Deallocate :: "alloc \<Rightarrow> ('w network, error option) go" where
  "Deallocate a =
     go_bind (alloc_WithSandboxUID a None) (\<lambda>an. go_ret (case an of
        None \<Rightarrow> Some (Errorf (''unknown network: '' @ an_key a)) | Some _ \<Rightarrow> None))"

section \<open>The default network\<close>

text \<open>The body of \<^verbatim>\<open>defaultNetOnce.Do\<close>. An index or nil error of the source is a panic.\<close>

definition default_gateway :: "ip \<Rightarrow> ip \<Rightarrow> ip option" where
  "default_gateway a m = map_option ip_decrement (or_not_mask a m)"

definition default_body :: "'w net_service \<Rightarrow> ('w network, unit) go" where
  "default_body S =
     go_bind (or_cancel ''failed to reserve bridge network'' (srv (CreateNetwork S ''bridge'' None None))) (\<lambda>rid.
     go_bind (or_cancel ''failed to get reserved bridge network'' (srv (GetNetwork S rid))) (\<lambda>(_, _, reservedNet).
     go_bind (or_cancel ''failed to remove reserved bridge network''
                (go_bind (srv (RemoveNetwork S rid)) (\<lambda>e. go_ret (err_sum e)))) (\<lambda>_.
     case reservedNet of
       None \<Rightarrow> go_panic ''nil pointer dereference''
     | Some n0 \<Rightarrow>
         let ipNet = n0\<lparr>net_mask := CIDRMask NetworkSubnetSize 4\<rparr>
         in case default_gateway (net_ip ipNet) (net_mask ipNet) of
              None \<Rightarrow> go_panic ''index out of range''
            | Some gateway \<Rightarrow>
                go_bind (or_cancel ''failed to create default bridge network''
                           (srv (CreateNetwork S ''bridge'' (Some ipNet) (Some gateway)))) (\<lambda>nid.
                go_bind (or_cancel ''failed to create static network'' (newAllocatedNetwork S nid)) (\<lambda>an s.
                  (Ret (), s\<lparr>defaultNet := Some an,
                     nextIP := ip_advance (push_bit (32 - mask_Size (net_mask ipNet)) 1) (net_ip ipNet)\<rparr>))))))"

text \<open>\<^verbatim>\<open>sync.Once\<close> counts the body as done however it ended.\<close>

definition Default :: "'w net_service \<Rightarrow> ('w network, alloc option) go" where
  "Default S =
     go_bind (\<lambda>s. if defaultNetOnce s then (Ret (), s)
                  else let (r, t) = default_body S s in (r, t\<lparr>defaultNetOnce := True\<rparr>)) (\<lambda>_ s.
       case defaultNet s of
         None \<Rightarrow> ctx_Cancel (Errorf ''default network not initialized'') s
       | Some a \<Rightarrow> (Ret (Some a), s))"

section \<open>Lookups\<close>

definition Networks :: "range_ord \<Rightarrow> 'w network \<Rightarrow> alloc list" where
  "Networks ord s = map snd (range_order ord (networks s))"

definition range_find :: "range_ord \<Rightarrow> (alloc \<Rightarrow> bool) \<Rightarrow> 'w network \<Rightarrow> alloc option" where
  "range_find ord P s = find P (map snd (range_order ord (networks s)))"

definition FromID :: "range_ord \<Rightarrow> string \<Rightarrow> 'w network \<Rightarrow> alloc option" where
  "FromID ord nid = range_find ord (\<lambda>a. an_id a = nid)"

definition FromUID :: "range_ord \<Rightarrow> string \<Rightarrow> 'w network \<Rightarrow> alloc option" where
  "FromUID ord uid = range_find ord (\<lambda>a. an_uid a = Some uid)"

definition FromIP :: "ip \<Rightarrow> 'w network \<Rightarrow> alloc option" where
  "FromIP a s =
     (case To4 a of
        None \<Rightarrow> None
      | Some v4 \<Rightarrow> map_of (networks s) (ip_String (ip_Mask v4 (CIDRMask NetworkSubnetSize 4))))"

record pod_sandbox_status =
  pss_annotations :: strmap
  pss_ip :: string

definition from_file :: "strmap \<Rightarrow> bool" where
  "from_file ann \<longleftrightarrow> mget ann ''kubernetes.io/config.source'' = ''file''"

text \<open>\<^verbatim>\<open>net.ParseIP\<close> of a text that is no address is nil, whose \<^verbatim>\<open>To4\<close> is nil again.\<close>

definition FromStatus :: "'w net_service \<Rightarrow> pod_sandbox_status option \<Rightarrow> ('w network, error + alloc option) go" where
  "FromStatus S st =
     (case st of
        None \<Rightarrow> go_ret (Inr None)
      | Some st \<Rightarrow>
          go_bind (Default S) (\<lambda>d. case d of
             None \<Rightarrow> go_ret (Inl (Errorf ''default network not initialized''))
           | Some d \<Rightarrow>
               if from_file (pss_annotations st) then go_ret (Inr (Some d))
               else (\<lambda>s. (Ret (Inr (case ParseIP (pss_ip st) of None \<Rightarrow> None | Some a \<Rightarrow> FromIP a s)), s))))"

section \<open>Handing a network to a sandbox\<close>

definition reclaimable :: "alloc \<Rightarrow> alloc \<Rightarrow> bool" where
  "reclaimable d a \<longleftrightarrow> an_id a \<noteq> an_id d \<and> an_uid a = None"

definition advance_nextIP :: "('w network, unit) go" where
  "advance_nextIP s = (Ret (), s\<lparr>nextIP := ip_advance (push_bit (32 - NetworkSubnetSize) 1) (nextIP s)\<rparr>)"

definition give :: "alloc \<Rightarrow> string \<Rightarrow> ('w network, error + alloc option) go" where
  "give a uid = go_bind (alloc_WithSandboxUID a (Some uid)) (\<lambda>r. go_ret (Inr r))"

definition allocate_next :: "'w net_service \<Rightarrow> string \<Rightarrow> ip \<Rightarrow> ('w network, error + alloc option) go" where
  "allocate_next S uid next =
     (let nextNet = \<lparr>net_ip = next, net_mask = CIDRMask NetworkSubnetSize 4\<rparr>
      in go_try (srv (CreateNetwork S ''bridge'' (Some nextNet) None)) (\<lambda>nid.
         go_try (newAllocatedNetwork S nid) (\<lambda>an.
         go_bind advance_nextIP (\<lambda>_. give an uid))))"

definition FromConfig :: "'w net_service \<Rightarrow> range_ord \<Rightarrow> pod_sandbox_config \<Rightarrow> ('w network, error + alloc option) go" where
  "FromConfig S ord cfg =
     (let uid = psm_uid (psc_metadata cfg)
      in go_bind (Default S) (\<lambda>d. case d of
           None \<Rightarrow> go_ret (Inl (Errorf ''default network not initialized''))
         | Some d \<Rightarrow>
             if from_file (psc_annotations cfg) then give d uid
             else (\<lambda>s. case range_find ord (reclaimable d) s of
                     Some a \<Rightarrow> give a uid s
                   | None \<Rightarrow> allocate_next S uid (nextIP s) s)))"

section \<open>Port maps\<close>

record port_map =
  pmi_local :: int
  pmi_remote :: int
  pmi_protocol :: string

definition NewPortMap :: "int \<Rightarrow> int \<Rightarrow> string \<Rightarrow> port_map" where
  "NewPortMap l r p = \<lparr>pmi_local = l, pmi_remote = r, pmi_protocol = p\<rparr>"


section \<open>Invariant\<close>

text \<open>Every entry is filed under the text of its own address, no key has two entries, and the
  default network is among them once it is set.\<close>

definition net_inv :: "'w network \<Rightarrow> bool" where
  "net_inv s \<longleftrightarrow> distinct (map fst (networks s)) \<and> list_all (\<lambda>(k, a). k = an_key a) (networks s) \<and>
     (case defaultNet s of None \<Rightarrow> True | Some d \<Rightarrow> map_of (networks s) (an_key d) \<noteq> None)"

definition owner :: "'w network \<Rightarrow> string \<Rightarrow> string option" where
  "owner s k = Option.bind (map_of (networks s) k) an_uid"

text \<open>The entries \<open>m\<close> are in place.\<close>

definition holding :: "(string \<rightharpoonup> alloc) \<Rightarrow> 'w network \<Rightarrow> bool" where
  "holding m s \<longleftrightarrow> net_inv s \<and> m \<subseteq>\<^sub>m map_of (networks s)"

lemma net_inv_NewNetwork: "net_inv (NewNetwork w)"
  by (simp add: net_inv_def NewNetwork_def)

lemma net_inv_key: "net_inv s \<Longrightarrow> map_of (networks s) k = Some a \<Longrightarrow> k = an_key a"
  by (auto simp: net_inv_def list_all_iff dest!: map_of_SomeD)

lemma net_inv_world [simp]: "net_inv (s\<lparr>world := w\<rparr>) = net_inv s"
  and net_inv_cancels [simp]: "net_inv (s\<lparr>cancels := c\<rparr>) = net_inv s"
  and net_inv_nextIP [simp]: "net_inv (s\<lparr>nextIP := x\<rparr>) = net_inv s"
  and net_inv_once [simp]: "net_inv (s\<lparr>defaultNetOnce := b\<rparr>) = net_inv s"
  by (simp_all add: net_inv_def cong: option.case_cong)

lemma net_inv_update:
  assumes "net_inv s" "k = an_key a"
  shows "net_inv (s\<lparr>networks := AList.update k a (networks s)\<rparr>)"
proof -
  have "list_all (\<lambda>(k, a). k = an_key a) (AList.update k a m)"
    if "list_all (\<lambda>(k, a). k = an_key a) m" for m
    using that assms(2) by (induction m) auto
  with assms show ?thesis
    by (auto simp: net_inv_def distinct_update update_conv' split: option.splits)
qed

lemma range_find_Some:
  assumes "net_inv s" "range_find ord P s = Some a"
  shows "P a" "map_of (networks s) (an_key a) = Some a"
proof -
  have *: "P a \<and> a \<in> snd ` set (networks s)"
    using find_SomeD [OF assms(2) [unfolded range_find_def]] by simp
  then show "P a" by simp
  from * obtain k where "(k, a) \<in> set (networks s)" by auto
  moreover from this have "k = an_key a" using assms(1) by (auto simp: net_inv_def list_all_iff)
  ultimately show "map_of (networks s) (an_key a) = Some a"
    using assms(1) by (auto simp: net_inv_def)
qed

lemma range_find_None: "range_find ord P s = None \<longleftrightarrow> (\<forall>(k, a) \<in> set (networks s). \<not> P a)"
  by (force simp: range_find_def find_None_iff)


section \<open>What the calls keep\<close>

lemma holding_world [simp]: "holding m (s\<lparr>world := w\<rparr>) = holding m s"
  and holding_cancels [simp]: "holding m (s\<lparr>cancels := c\<rparr>) = holding m s"
  and holding_nextIP [simp]: "holding m (s\<lparr>nextIP := x\<rparr>) = holding m s"
  and holding_once [simp]: "holding m (s\<lparr>defaultNetOnce := b\<rparr>) = holding m s"
  by (simp_all add: holding_def)

lemma holding_update:
  assumes "holding m s" "m (an_key a) = None \<or> m (an_key a) = Some a"
  shows "holding m (s\<lparr>networks := AList.update (an_key a) a (networks s)\<rparr>)"
  using assms by (auto simp: holding_def net_inv_update map_le_def update_conv' dom_def)

lemma srv_holding [go_triples]: "triple (holding m) (srv f) (\<lambda>_. holding m) E"
  by (simp add: triple_def srv_def split: prod.splits)

lemma cancel_holding [go_triples]: "triple (holding m) (ctx_Cancel e) Q (holding m)"
  by (simp add: triple_def ctx_Cancel_def)

lemma or_cancel_holding:
  assumes "triple (holding m) c (\<lambda>r s. holding m s \<and> (\<forall>a. r = Inr a \<longrightarrow> Q a s)) (holding m)"
  shows "triple (holding m) (or_cancel e c) (\<lambda>a s. holding m s \<and> Q a s) (holding m)"
proof -
  have "triple (\<lambda>s. holding m s \<and> (\<forall>a. r = Inr a \<longrightarrow> Q a s))
          (case r of Inl e' \<Rightarrow> ctx_Cancel (Wrapf e e') | Inr a \<Rightarrow> go_ret a)
          (\<lambda>a s. holding m s \<and> Q a s) (holding m)" for r
    by (cases r) (auto simp: triple_def ctx_Cancel_def)
  with assms show ?thesis unfolding or_cancel_def by (blast intro: triple_bind)
qed

lemma LoadOrStore_holding:
  "triple (holding m) (LoadOrStore (an_key a) a)
     (\<lambda>an s. holding m s \<and> map_of (networks s) (an_key an) = Some an) E"
proof (rule tripleI, goal_cases)
  case (1 s an t)
  show ?case
  proof (cases "map_of (networks s) (an_key a)")
    case None
    with 1 have "m (an_key a) = None" by (auto simp: holding_def map_le_def dom_def)
    with 1 None holding_update [of m s a] show ?thesis by (auto simp: LoadOrStore_def)
  next
    case (Some b)
    with 1 net_inv_key [of s "an_key a" b] show ?thesis by (auto simp: LoadOrStore_def holding_def)
  qed
qed (auto simp: LoadOrStore_def split: option.splits)

lemma newAllocatedNetwork_holding:
  "triple (holding m) (newAllocatedNetwork S nid)
     (\<lambda>r s. holding m s \<and> (\<forall>an. r = Inr an \<longrightarrow> map_of (networks s) (an_key an) = Some an)) (holding m)"
    (is "triple _ _ ?Q _")
proof -
  have found: "triple (holding m) (go_bind (LoadOrStore (an_key a) a) (\<lambda>an. go_ret (Inr an))) ?Q (holding m)" for a
    by (rule triple_bind [OF LoadOrStore_holding]) (auto intro: triple_ret)
  show ?thesis
    unfolding newAllocatedNetwork_def
  proof (rule triple_try [where R = "\<lambda>_. holding m"])
    fix r :: "string option \<times> ip option \<times> ipnet option"
    obtain ty gw nt where r: "r = (ty, gw, nt)" by (cases r)
    show "triple (holding m) ((\<lambda>(ty, gw, nt). case (ty, gw, nt) of
         (Some ty, Some gw, Some nt) \<Rightarrow>
           go_bind (LoadOrStore (ip_String (net_ip nt))
             \<lparr>an_id = nid, an_type = ty, an_gateway = gw, an_net = nt, an_uid = None\<rparr>) (\<lambda>an. go_ret (Inr an))
       | _ \<Rightarrow> go_ret (Inl (Errorf (''network '' @ strconv_Quote nid @ '' not found'')))) r) ?Q (holding m)"
      using found [of "\<lparr>an_id = nid, an_type = the ty, an_gateway = the gw, an_net = the nt, an_uid = None\<rparr>"]
      by (auto simp: r an_key_def intro: triple_ret split: option.splits)
  qed (auto simp: triple_def srv_def split: prod.splits sum.splits)
qed

lemma or_cancel_srv [go_triples]:
  "triple (holding m) (or_cancel e (srv f)) (\<lambda>_. holding m) (holding m)"
  by (rule triple_conseq [OF or_cancel_holding [where Q = "\<lambda>_ _. True"]])
     (auto simp: triple_def srv_def split: prod.splits)

lemma or_cancel_remove [go_triples]:
  "triple (holding m) (or_cancel e (go_bind (srv f) (\<lambda>r. go_ret (err_sum r)))) (\<lambda>_. holding m) (holding m)"
  by (rule triple_conseq [OF or_cancel_holding [where Q = "\<lambda>_ _. True"]])
     (auto simp: triple_def srv_def go_bind_def split: prod.splits)

lemma default_body_holding:
  "triple (holding m) (default_body S) (\<lambda>_. holding m) (holding m)"
proof -
  have last: "triple (\<lambda>s. holding m s \<and> map_of (networks s) (an_key an) = Some an)
      (\<lambda>s. (Ret (), s\<lparr>defaultNet := Some an, nextIP := x\<rparr>)) (\<lambda>_. holding m) (holding m)" for an x
    by (auto simp: triple_def holding_def net_inv_def)
  have new: "triple (holding m) (or_cancel e (newAllocatedNetwork S nid))
      (\<lambda>an s. holding m s \<and> map_of (networks s) (an_key an) = Some an) (holding m)" for e nid
    by (rule or_cancel_holding [OF newAllocatedNetwork_holding])
  show ?thesis
    unfolding default_body_def Let_def
    by (intro go_triples triple_bind [OF or_cancel_srv] triple_bind [OF or_cancel_remove]
          triple_bind [OF new] last | clarsimp split: option.splits simp: triple_panic
        | intro conjI allI impI)+
qed

lemma Default_holding:
  "triple (holding m) (Default S)
     (\<lambda>d s. holding m s \<and> d \<noteq> None \<and> defaultNet s = d) (holding m)"
  unfolding Default_def
proof (rule triple_bind [where R = "\<lambda>_. holding m"])
  show "triple (holding m) (\<lambda>s. if defaultNetOnce s then (Ret (), s)
          else let (r, t) = default_body S s in (r, t\<lparr>defaultNetOnce := True\<rparr>)) (\<lambda>_. holding m) (holding m)"
  proof (rule tripleI, goal_cases)
    case (1 s a t)
    with triple_snd [OF default_body_holding, of m s S] show ?case by (auto split: if_splits prod.splits)
  next
    case (2 s r t)
    with triple_snd [OF default_body_holding, of m s S] show ?case by (auto split: if_splits prod.splits)
  qed
qed (auto simp: triple_def ctx_Cancel_def split: option.splits)

text \<open>Giving a network to a sandbox leaves the entries \<open>m\<close> alone when the network is not one of
  them, or is one of them and already has its sandbox.\<close>

lemma WithSandboxUID_holding:
  assumes "m (an_key a) = None \<or> (m (an_key a) = Some a \<and> an_uid a \<noteq> None)"
  shows "triple (holding m) (alloc_WithSandboxUID a (Some uid)) (\<lambda>_. holding m) E"
proof -
  have "holding m (s\<lparr>networks := AList.update (an_key a) (a\<lparr>an_uid := Some uid\<rparr>) (networks s)\<rparr>)"
    if "holding m s" "an_uid a = None \<or> an_uid a = Some uid" for s
  proof -
    have "m (an_key (a\<lparr>an_uid := Some uid\<rparr>)) = None \<or>
          m (an_key (a\<lparr>an_uid := Some uid\<rparr>)) = Some (a\<lparr>an_uid := Some uid\<rparr>)"
      using assms that(2) by (cases a) (auto simp: an_key_def)
    from holding_update [OF that(1) this] show ?thesis by (simp add: an_key_def)
  qed
  then show ?thesis by (auto simp: triple_def alloc_WithSandboxUID_def)
qed

definition all_held :: "(string \<rightharpoonup> alloc) \<Rightarrow> bool" where
  "all_held m \<longleftrightarrow> (\<forall>a \<in> ran m. an_uid a \<noteq> None)"

lemma held_disjoint:
  assumes "holding m s" "all_held m" "map_of (networks s) (an_key a) = Some a"
  shows "m (an_key a) = None \<or> (m (an_key a) = Some a \<and> an_uid a \<noteq> None)"
  using assms by (cases "m (an_key a)") (force simp: holding_def map_le_def all_held_def ran_def dom_def)+

lemma give_disjoint:
  assumes "m (an_key a) = None \<or> (m (an_key a) = Some a \<and> an_uid a \<noteq> None)"
  shows "triple (holding m) (give a uid) (\<lambda>_. holding m) E"
  unfolding give_def
  by (rule triple_bind [where R = "\<lambda>_. holding m"]) (use assms in \<open>auto intro: WithSandboxUID_holding triple_ret\<close>)

lemma give_holding:
  assumes "all_held m"
  shows "triple (\<lambda>s. holding m s \<and> map_of (networks s) (an_key a) = Some a) (give a uid) (\<lambda>_. holding m) E"
  using held_disjoint [OF _ assms]
  by (blast intro: triple_pointwise triple_conseq [OF give_disjoint])

lemma advance_holding:
  "triple (\<lambda>s. holding m s \<and> map_of (networks s) k = Some a) advance_nextIP
     (\<lambda>_ s. holding m s \<and> map_of (networks s) k = Some a) E"
  by (simp add: triple_def advance_nextIP_def)

lemma allocate_next_holding:
  assumes "all_held m"
  shows "triple (holding m) (allocate_next S uid next) (\<lambda>_. holding m) (holding m)"
  unfolding allocate_next_def Let_def
proof (rule triple_try [where R = "\<lambda>_. holding m"])
  show "triple (holding m) (go_try (newAllocatedNetwork S nid) (\<lambda>an.
         go_bind advance_nextIP (\<lambda>_. give an uid))) (\<lambda>_. holding m) (holding m)" for nid
    by (rule triple_try [OF triple_conseq [OF newAllocatedNetwork_holding]
              triple_bind [OF advance_holding give_holding [OF assms]]]) (auto split: sum.splits)
qed (auto simp: triple_def srv_def split: prod.splits sum.splits)

text \<open>Only the default network is handed out while a sandbox holds it, to the static pods.\<close>

lemma give_default: "defaultNet (snd (give a uid s)) = defaultNet s"
  by (simp add: give_def go_bind_def alloc_WithSandboxUID_def)

definition unless_default :: "(string \<rightharpoonup> alloc) \<Rightarrow> 'w network \<Rightarrow> bool" where
  "unless_default m s \<longleftrightarrow> (case defaultNet s of None \<Rightarrow> holding m s | Some d \<Rightarrow> holding (m(an_key d := None)) s)"

lemma holding_weaken: "holding m s \<Longrightarrow> holding (m(k := None)) s"
  by (auto simp: holding_def map_le_def)

lemma upd_None_idem: "k \<notin> dom m \<Longrightarrow> m(k := None) = m"
  by (auto simp: domIff)

lemma upd_None_dom: "\<forall>x \<in> dom m. k \<noteq> x \<Longrightarrow> m(k := None) = m"
  by (rule upd_None_idem) auto

lemma give_default_holding:
  "triple (\<lambda>s. holding m s \<and> defaultNet s = Some d) (give d uid) (\<lambda>_. unless_default m) E"
proof (rule tripleI, goal_cases)
  case (1 s r t)
  have "triple (holding (m(an_key d := None))) (give d uid) (\<lambda>_. holding (m(an_key d := None))) E"
    by (rule give_disjoint) simp
  from triple_Ret [OF this, of s r t] 1 holding_weaken [of m s] give_default [of d uid s]
  show ?case by (simp add: unless_default_def)
qed (auto simp: give_def go_bind_def alloc_WithSandboxUID_def split: if_splits)

lemma FromConfig_holding:
  assumes "all_held m"
  shows "triple (holding m) (FromConfig S ord cfg)
     (\<lambda>_. if from_file (psc_annotations cfg) then unless_default m else holding m) (holding m)"
    (is "triple _ _ (\<lambda>_. ?Q) _")
  unfolding FromConfig_def Let_def
proof (rule triple_bind [OF Default_holding], goal_cases)
  case (1 d)
  let ?uid = "psm_uid (psc_metadata cfg)"
  have reclaim: "triple (holding m) (\<lambda>s. case range_find ord (reclaimable d) s of
      Some a \<Rightarrow> give a ?uid s | None \<Rightarrow> allocate_next S ?uid (nextIP s) s) (\<lambda>_. holding m) (holding m)" for d
  proof (rule triple_pointwise)
    fix s :: "'a network" assume h: "holding m s"
    show "triple (\<lambda>t. t = s) (\<lambda>s. case range_find ord (reclaimable d) s of
      Some a \<Rightarrow> give a ?uid s | None \<Rightarrow> allocate_next S ?uid (nextIP s) s) (\<lambda>_. holding m) (holding m)"
    proof (cases "range_find ord (reclaimable d) s")
      case None
      with allocate_next_holding [OF assms, of S ?uid "nextIP s"] h show ?thesis by (simp add: triple_def)
    next
      case (Some a)
      then have "map_of (networks s) (an_key a) = Some a"
        using range_find_Some h unfolding holding_def by blast
      with Some h give_holding [OF assms, of a ?uid "holding m :: 'a network \<Rightarrow> bool"] show ?thesis by (simp add: triple_def)
    qed
  qed
  show ?case
  proof (cases d)
    case (Some x)
    show ?thesis
      using triple_conseq [OF reclaim [of x], of "\<lambda>s. holding m s \<and> d \<noteq> None \<and> defaultNet s = d"]
        give_default_holding [of m x ?uid "holding m :: 'a network \<Rightarrow> bool"]
      by (simp add: Some)
  qed (simp add: triple_def)
qed


lemma Deallocate_holding:
  "triple (holding m) (Deallocate a) (\<lambda>_. holding (m(an_key a := None))) E"
proof -
  have "holding (m(an_key a := None)) (s\<lparr>networks := AList.update (an_key a) (a\<lparr>an_uid := None\<rparr>) (networks s)\<rparr>)"
    if "holding m s" for s :: "'a network"
    using holding_update [OF holding_weaken [OF that, of "an_key a"], of "a\<lparr>an_uid := None\<rparr>"]
    by (simp add: an_key_def)
  then show ?thesis by (simp add: triple_def Deallocate_def go_bind_def alloc_WithSandboxUID_def)
qed

lemma FromStatus_holding: "triple (holding m) (FromStatus S st) (\<lambda>_. holding m) (holding m)"
proof (cases st)
  case (Some x)
  show ?thesis unfolding FromStatus_def Some option.case
    by (rule triple_bind [OF Default_holding]) (auto simp: triple_def split: option.splits)
qed (simp add: FromStatus_def triple_ret)

section \<open>The allocator as a holder of networks\<close>

text \<open>
  A component hands out resources to owners. Its operations may take a resource from its owner
  only where \<open>frees\<close> says so. Then whoever lost a resource over a run of operations lost it to an
  operation that frees it.
\<close>

locale holders =
  fixes inv :: "'s \<Rightarrow> bool"
    and step :: "'op \<Rightarrow> 's \<Rightarrow> 's"
    and owner_of :: "'s \<Rightarrow> 'k \<Rightarrow> 'u option"
    and frees :: "'op \<Rightarrow> 's \<Rightarrow> 'k \<Rightarrow> bool"
  assumes inv_step: "inv s \<Longrightarrow> inv (step op s)"
    and owner_kept: "inv s \<Longrightarrow> owner_of s k = Some u \<Longrightarrow> \<not> frees op s k \<Longrightarrow> owner_of (step op s) k = Some u"
begin

lemma inv_run: "inv s \<Longrightarrow> inv (fold step ops s)"
  by (induction ops arbitrary: s) (simp_all add: inv_step)

lemma lost_was_freed:
  assumes "inv s" "owner_of s k = Some u" "owner_of (fold step ops s) k \<noteq> Some u"
  shows "\<exists>i < length ops. frees (ops ! i) (fold step (take i ops) s) k"
  using assms
proof (induction ops arbitrary: s)
  case (Cons op ops)
  show ?case
  proof (cases "frees op s k")
    case True
    then show ?thesis by (intro exI [of _ 0]) simp
  next
    case False
    with Cons.prems have "owner_of (step op s) k = Some u" by (simp add: owner_kept)
    with Cons.prems Cons.IH [of "step op s"] inv_step obtain i where
      "i < length ops" "frees (ops ! i) (fold step (take i ops) (step op s)) k" by auto
    then show ?thesis by (intro exI [of _ "Suc i"]) simp
  qed
qed simp

end

text \<open>The operations other components call, run for their effect on the state.\<close>

datatype net_op =
    OpDefault
  | OpFromConfig range_ord pod_sandbox_config
  | OpFromStatus "pod_sandbox_status option"
  | OpDeallocate alloc

fun net_step :: "'w net_service \<Rightarrow> net_op \<Rightarrow> 'w network \<Rightarrow> 'w network" where
  "net_step S OpDefault s = snd (Default S s)"
| "net_step S (OpFromConfig ord cfg) s = snd (FromConfig S ord cfg s)"
| "net_step S (OpFromStatus st) s = snd (FromStatus S st s)"
| "net_step S (OpDeallocate a) s = snd (Deallocate a s)"

text \<open>A network is released by \<open>Deallocate\<close> on it; the default network also changes hands when a
  static pod takes it.\<close>

fun net_frees :: "'w net_service \<Rightarrow> net_op \<Rightarrow> 'w network \<Rightarrow> string \<Rightarrow> bool" where
  "net_frees S (OpDeallocate a) s k \<longleftrightarrow> an_key a = k"
| "net_frees S (OpFromConfig ord cfg) s k \<longleftrightarrow> from_file (psc_annotations cfg) \<and>
     map_option an_key (defaultNet (snd (FromConfig S ord cfg s))) = Some k"
| "net_frees S _ s k \<longleftrightarrow> False"

lemma triple_snd_or: "triple P m (\<lambda>_. Q) E \<Longrightarrow> P s \<Longrightarrow> Q (snd (m s)) \<or> E (snd (m s))"
  by (rule triple_snd [where E = "\<lambda>t. Q t \<or> E t", of P m]) (auto elim: triple_conseq)

lemma net_step_holding:
  assumes "holding m s" "all_held m" "\<forall>k \<in> dom m. \<not> net_frees S op s k"
  shows "holding m (net_step S op s)"
proof (cases op)
  case OpDefault
  with assms(1) triple_snd_or [OF triple_conseq [OF Default_holding], of "holding m" m "holding m" "holding m" s S] show ?thesis by auto
next
  case (OpFromStatus st)
  with assms(1) triple_snd [OF FromStatus_holding] show ?thesis by simp
next
  case (OpDeallocate a)
  then have "m(an_key a := None) = m" using assms(3) by (intro upd_None_idem) auto
  with triple_snd_or [OF Deallocate_holding, of m s a "\<lambda>_. False"] assms(1) OpDeallocate show ?thesis by simp
next
  case (OpFromConfig ord cfg)
  let ?t = "snd (FromConfig S ord cfg s)"
  have "unless_default m ?t \<longrightarrow> from_file (psc_annotations cfg) \<longrightarrow> holding m ?t"
    using assms(3) OpFromConfig
    by (cases "defaultNet ?t") (auto simp: unless_default_def upd_None_dom)
  with triple_snd_or [OF FromConfig_holding [OF assms(2)], of s cfg S ord] assms(1) OpFromConfig
  show ?thesis by (auto split: if_splits)
qed


interpretation nets: holders net_inv "net_step S" owner "net_frees S" for S
proof unfold_locales
  fix s :: "'a network" and op
  assume "net_inv s"
  then have "holding Map.empty s" by (simp add: holding_def)
  then have "holding Map.empty (net_step S op s)" by (rule net_step_holding) (simp_all add: all_held_def)
  then show "net_inv (net_step S op s)" by (simp add: holding_def)
next
  fix s :: "'a network" and op k u
  assume "net_inv s" "owner s k = Some u" and f: "\<not> net_frees S op s k"
  then obtain a where a: "map_of (networks s) k = Some a" "an_uid a = Some u"
    by (auto simp: owner_def bind_eq_Some_conv)
  have "holding [k \<mapsto> a] (net_step S op s)"
    by (rule net_step_holding) (use \<open>net_inv s\<close> a f in \<open>auto simp: holding_def map_le_def all_held_def\<close>)
  then have "map_of (networks (net_step S op s)) k = Some a" by (simp add: holding_def map_le_def)
  then show "owner (net_step S op s) k = Some u"
    using a by (simp add: holding_def map_le_def owner_def)
qed

text \<open>
  C1. A sandbox keeps its network. Starting from a fresh allocator, for every behaviour of the
  driver's network service and every visiting order of the map, after any sequence of \<open>Default\<close>,
  \<open>FromConfig\<close>, \<open>FromStatus\<close> and \<open>Deallocate\<close> calls: if the network filed under \<open>k\<close> belonged to
  sandbox \<open>u\<close> at some point and no longer does at a later one, then some call in between was a
  \<open>Deallocate\<close> of that network, or gave the default network, filed under \<open>k\<close>, to a static pod.
  No call hands a held network to another sandbox.
\<close>

theorem sandbox_keeps_network:
  fixes S :: "'w net_service" and before later :: "net_op list" and w
  defines "s \<equiv> fold (net_step S) before (NewNetwork w)"
  assumes "owner s k = Some u" and "owner (fold (net_step S) later s) k \<noteq> Some u"
  shows "\<exists>i < length later. case later ! i of
           OpDeallocate a \<Rightarrow> an_key a = k
         | OpFromConfig ord cfg \<Rightarrow> from_file (psc_annotations cfg) \<and>
             map_option an_key (defaultNet (fold (net_step S) (take (Suc i) later) s)) = Some k
         | _ \<Rightarrow> False"
proof -
  have "net_inv s" unfolding s_def by (rule nets.inv_run [OF net_inv_NewNetwork])
  then obtain i where i: "i < length later"
    and f: "net_frees S (later ! i) (fold (net_step S) (take i later) s) k"
    using nets.lost_was_freed [of s k u S later] assms(2,3) by blast
  from i f show ?thesis
    by (intro exI [of _ i]) (cases "later ! i"; simp add: take_Suc_conv_app_nth)
qed


section \<open>What a granted network is\<close>

text \<open>The allocator after \<open>Default\<close> has succeeded.\<close>

definition ready :: "alloc \<Rightarrow> 'w network \<Rightarrow> bool" where
  "ready d s \<longleftrightarrow> net_inv s \<and> defaultNetOnce s \<and> defaultNet s = Some d"

lemma Default_ready: "ready d s \<Longrightarrow> Default S s = (Ret (Some d), s)"
  by (simp add: ready_def Default_def go_bind_def)

lemma newAllocatedNetwork_Inr:
  assumes "net_inv s" "newAllocatedNetwork S nid s = (Ret (Inr an), t)"
  shows "owner t = owner s" "map_of (networks t) (an_key an) = Some an" "nextIP t = nextIP s"
  using assms net_inv_key [of s]
  by (fastforce simp: newAllocatedNetwork_def srv_def LoadOrStore_def an_key_def owner_def fun_eq_iff update_conv'
        split: prod.splits option.splits)+

lemma give_Inr:
  assumes "map_of (networks s) (an_key a) = Some a" "give a uid s = (Ret (Inr (Some r)), t)"
  shows "r = a" "an_uid a = None \<or> an_uid a = Some uid" "owner t (an_key a) = Some uid"
        "nextIP t = nextIP s" "world t = world s"
  using assms by (auto simp: give_def alloc_WithSandboxUID_def owner_def split: if_splits)

lemma FromConfig_ready:
  assumes "ready d s" "\<not> from_file (psc_annotations cfg)"
  shows "FromConfig S ord cfg s =
     (case range_find ord (reclaimable d) s of
        Some a \<Rightarrow> give a (psm_uid (psc_metadata cfg)) s
      | None \<Rightarrow> allocate_next S (psm_uid (psc_metadata cfg)) (nextIP s) s)"
  using assms Default_ready [OF assms(1), of S] by (simp add: FromConfig_def Let_def)

lemma allocate_next_Inr:
  assumes "net_inv s" "allocate_next S uid x s = (Ret (Inr r), t)"
  obtains nid s1 an s2 where
    "srv (CreateNetwork S ''bridge'' (Some \<lparr>net_ip = x, net_mask = CIDRMask NetworkSubnetSize 4\<rparr>) None) s = (Ret (Inr nid), s1)"
    "newAllocatedNetwork S nid s1 = (Ret (Inr an), s2)"
    "give an uid (snd (advance_nextIP s2)) = (Ret (Inr r), t)"
    "networks s1 = networks s" "nextIP s1 = nextIP s" "net_inv s1"
proof -
  from assms(2) obtain nid s1 an s2 where
    c: "srv (CreateNetwork S ''bridge'' (Some \<lparr>net_ip = x, net_mask = CIDRMask NetworkSubnetSize 4\<rparr>) None) s = (Ret (Inr nid), s1)"
    and n: "newAllocatedNetwork S nid s1 = (Ret (Inr an), s2)"
    and g: "give an uid (snd (advance_nextIP s2)) = (Ret (Inr r), t)"
    by (auto simp: allocate_next_def Let_def advance_nextIP_def)
  moreover from c have "networks s1 = networks s" "nextIP s1 = nextIP s" "net_inv s1"
    using assms(1) by (auto simp: srv_def split: prod.splits)
  ultimately show ?thesis by (rule that)
qed

text \<open>
  Once the default network exists, a network that \<open>FromConfig\<close> returns to a pod that is not
  static is exclusive: no other sandbox held it before the call, and the asking sandbox holds it
  after the call. The returned object is the entry as it was before the call, so its sandbox
  UID is the previous one and not the UID just recorded.
\<close>

theorem FromConfig_grants:
  assumes "ready d s" "\<not> from_file (psc_annotations cfg)"
    and "FromConfig S ord cfg s = (Ret (Inr (Some r)), t)"
  shows "owner t (an_key r) = Some (psm_uid (psc_metadata cfg)) \<and>
    (owner s (an_key r) = None \<or> owner s (an_key r) = Some (psm_uid (psc_metadata cfg))) \<and>
    an_uid r = owner s (an_key r)"
proof -
  let ?u = "psm_uid (psc_metadata cfg)"
  have inv: "net_inv s" using assms(1) by (simp add: ready_def)
  have "\<exists>a s'. owner s' = owner s \<and> map_of (networks s') (an_key a) = Some a \<and> give a ?u s' = (Ret (Inr (Some r)), t)"
  proof (cases "range_find ord (reclaimable d) s")
    case None
    then have "allocate_next S ?u (nextIP s) s = (Ret (Inr (Some r)), t)"
      using assms FromConfig_ready [OF assms(1,2), of S ord] by simp
    then obtain nid s1 an s2 where n: "newAllocatedNetwork S nid s1 = (Ret (Inr an), s2)"
      and g: "give an ?u (snd (advance_nextIP s2)) = (Ret (Inr (Some r)), t)"
      and "networks s1 = networks s" and i: "net_inv s1"
      using allocate_next_Inr [OF inv] by metis
    then have "owner s1 = owner s" by (simp add: owner_def fun_eq_iff)
    with newAllocatedNetwork_Inr [OF i n] g show ?thesis
      by (intro exI [of _ an] exI [of _ "snd (advance_nextIP s2)"]) (auto simp: advance_nextIP_def owner_def fun_eq_iff)
  next
    case (Some a)
    with range_find_Some [OF inv Some] assms FromConfig_ready [OF assms(1,2), of S ord]
    show ?thesis by (intro exI [of _ a] exI [of _ s]) simp
  qed
  then obtain a s' where o: "owner s' = owner s" and m: "map_of (networks s') (an_key a) = Some a"
    and g: "give a ?u s' = (Ret (Inr (Some r)), t)" by blast
  note r = give_Inr [OF m g]
  have "owner s (an_key r) = an_uid r" using m r(1) by (simp add: o [symmetric] owner_def)
  with r show ?thesis by auto
qed


text \<open>
  A free network is reused before a new one is made: if some allocated network other than the
  default one has no sandbox, \<open>FromConfig\<close> succeeds without calling the network service, gives one
  of the free networks to the pod, and neither moves the high-water mark nor changes any
  other entry.
\<close>

theorem FromConfig_reclaims:
  assumes "ready d s" "\<not> from_file (psc_annotations cfg)"
    and "map_of (networks s) k = Some a" "an_id a \<noteq> an_id d" "an_uid a = None"
  shows "\<exists>r t. FromConfig S ord cfg s = (Ret (Inr (Some r)), t) \<and> an_uid r = None \<and> an_id r \<noteq> an_id d \<and>
    world t = world s \<and> nextIP t = nextIP s \<and>
    map_of (networks t) = (map_of (networks s))(an_key r \<mapsto> r\<lparr>an_uid := Some (psm_uid (psc_metadata cfg))\<rparr>)"
proof -
  have inv: "net_inv s" using assms(1) by (simp add: ready_def)
  have "range_find ord (reclaimable d) s \<noteq> None"
    using map_of_SomeD [OF assms(3)] assms(4,5) by (auto simp: range_find_None reclaimable_def)
  then obtain r where r: "range_find ord (reclaimable d) s = Some r" by auto
  note f = range_find_Some [OF inv r]
  from f FromConfig_ready [OF assms(1,2), of S ord] r show ?thesis
    by (simp add: give_def go_bind_def alloc_WithSandboxUID_def reclaimable_def update_conv')
qed



text \<open>
  The default network is made at most once. When a call of \<open>Default\<close> returned a network, every
  later call returns the same object without calling the service and without changing the state;
  when the first call ended otherwise and no network was set, every later call cancels the
  program and ends its goroutine, so the set-up is never tried again.
\<close>

theorem Default_once:
  "case Default S s of
     (Ret r, t) \<Rightarrow> r \<noteq> None \<and> Default S t = (Ret r, t)
   | (_, t) \<Rightarrow> defaultNet t = None \<longrightarrow>
       Default S t = (Goexit, t\<lparr>cancels := cancels t @ [Errorf ''default network not initialized'']\<rparr>)"
proof (cases "defaultNetOnce s")
  case True
  then show ?thesis by (cases "defaultNet s") (simp_all add: Default_def go_bind_def ctx_Cancel_def)
next
  case False
  obtain r t where b: "default_body S s = (r, t)" by (cases "default_body S s")
  show ?thesis
    using False b
    by (cases r; cases "defaultNet t") (simp_all add: Default_def go_bind_def ctx_Cancel_def)
qed

text \<open>
  The plan of the default network. For a four-byte network address whose low four bits are
  clear, the gateway loops of \<open>Default\<close> end (no index error) at the address of the network plus
  14, the last address a host can have in the /28 subnet, and the first subnet for sandboxes
  starts sixteen addresses on.
\<close>

theorem default_plan:
  assumes "length a = 4" "ip_Mask a (CIDRMask NetworkSubnetSize 4) = a"
  shows "\<exists>g. default_gateway a (CIDRMask NetworkSubnetSize 4) = Some g \<and> length g = 4 \<and>
    ip_val g = ip_val a + 14 \<and>
    ip_val (ip_advance (push_bit (32 - mask_Size (CIDRMask NetworkSubnetSize 4)) 1) a) = (ip_val a + 16) mod 2 ^ 32"
proof -
  obtain g where g: "or_not_mask a (CIDRMask 28 4) = Some g"
    using or_not_mask_total [of a "CIDRMask 28 4"] assms(1) by auto
  show ?thesis
    using gateway_28 [OF assms(1) _ g] assms g
    by (simp add: default_gateway_def NetworkSubnetSize_def ip_advance_val)
qed

text \<open>
  From a sandbox's address back to its network. When an allocated network is filed in the
  map, a status that carries the text of any IPv4 address of its subnet makes \<open>FromStatus\<close> return
  exactly that entry, whatever the service does, and the state is not changed.
\<close>

lemma FromStatus_finds_network:
  assumes "ready d s" "map_of (networks s) k = Some a" "\<not> from_file (pss_annotations st)"
    and "length x = 4" "pss_ip st = ip_String x" "ip_Mask x (CIDRMask NetworkSubnetSize 4) = net_ip (an_net a)"
  shows "FromStatus S (Some st) s = (Ret (Inr (Some a)), s)"
proof -
  have "k = an_key a" using assms(1,2) net_inv_key by (auto simp: ready_def)
  then have "FromIP (As16 x) s = Some a"
    using assms by (simp add: FromIP_def To4_As16 an_key_def)
  then show ?thesis
    using assms Default_ready [OF assms(1), of S]
    by (simp add: FromStatus_def go_bind_def ParseIP_String)
qed

section \<open>A service in memory\<close>

text \<open>A network service that keeps its networks in a list and gives 10.0.0.0/16 when the caller
  does not ask for a subnet, for the instances below.\<close>

type_synonym mem = "(string \<times> ip option \<times> ipnet) list"

definition mem_create :: "string \<Rightarrow> ipnet option \<Rightarrow> ip option \<Rightarrow> mem \<Rightarrow> (error + string) \<times> mem" where
  "mem_create ty nt gw w =
     (let n = (case nt of Some n \<Rightarrow> n | None \<Rightarrow> \<lparr>net_ip = [10, 0, 0, 0], net_mask = [255, 255, 0, 0]\<rparr>);
          nid = ''net'' @ replicate (length w) CHR ''x''
      in (Inr nid, (nid, gw, n) # w))"

definition mem_get :: "string \<Rightarrow> mem \<Rightarrow> (error + string option \<times> ip option \<times> ipnet option) \<times> mem" where
  "mem_get nid w =
     (case map_of w nid of None \<Rightarrow> (Inl (ErrNotFound nid), w)
      | Some (g, n) \<Rightarrow> (Inr (Some ''bridge'', Some (case g of Some g \<Rightarrow> g | None \<Rightarrow> net_ip n), Some n), w))"

definition mem_service :: "mem net_service" where
  "mem_service = \<lparr>CreateNetwork = mem_create, GetNetwork = mem_get,
     RemoveNetwork = (\<lambda>nid w. (None, AList.delete nid w))\<rparr>"

definition pod_cfg :: "string \<Rightarrow> pod_sandbox_config" where
  "pod_cfg u = pod_sandbox_config_zero\<lparr>psc_metadata := \<lparr>psm_name = ''p'', psm_namespace = ''d'', psm_uid = u\<rparr>\<rparr>"

definition mem_started :: "mem network" where
  "mem_started = snd (Default mem_service (NewNetwork []))"

definition mem_default :: alloc where
  "mem_default = \<lparr>an_id = ''net'', an_type = ''bridge'', an_gateway = [10, 0, 0, 14],
     an_net = \<lparr>net_ip = [10, 0, 0, 0], net_mask = [255, 255, 255, 240]\<rparr>, an_uid = None\<rparr>"

definition mem_first :: alloc where
  "mem_first = \<lparr>an_id = ''netx'', an_type = ''bridge'', an_gateway = [10, 0, 0, 16],
     an_net = \<lparr>net_ip = [10, 0, 0, 16], net_mask = [255, 255, 255, 240]\<rparr>, an_uid = None\<rparr>"

definition mem_given :: "mem network" where
  "mem_given = snd (FromConfig mem_service (\<lambda>m. m) (pod_cfg ''u'') mem_started)"

lemma ready_started: "ready mem_default mem_started"
  by code_simp

lemma ready_given: "ready mem_default mem_given"
  by code_simp

lemma pod_cfg_not_file: "\<not> from_file (psc_annotations (pod_cfg u))"
  by (simp add: pod_cfg_def pod_sandbox_config_zero_def from_file_def)


theorem sandbox_keeps_network_witness:
  "owner (fold (net_step mem_service) [OpFromConfig (\<lambda>m. m) (pod_cfg ''u'')] (NewNetwork [])) ''10.0.0.16'' = Some ''u'' \<and>
   (\<exists>i < length [OpDeallocate mem_first]. case [OpDeallocate mem_first] ! i of
       OpDeallocate a \<Rightarrow> an_key a = ''10.0.0.16''
     | OpFromConfig ord cfg \<Rightarrow> from_file (psc_annotations cfg) \<and>
         map_option an_key (defaultNet (fold (net_step mem_service) (take (Suc i) [OpDeallocate mem_first])
           (fold (net_step mem_service) [OpFromConfig (\<lambda>m. m) (pod_cfg ''u'')] (NewNetwork [])))) = Some ''10.0.0.16''
     | _ \<Rightarrow> False)"
proof -
  have o: "owner (fold (net_step mem_service) [OpFromConfig (\<lambda>m. m) (pod_cfg ''u'')] (NewNetwork [])) ''10.0.0.16'' = Some ''u''"
    by code_simp
  have l: "owner (fold (net_step mem_service) [OpDeallocate mem_first]
      (fold (net_step mem_service) [OpFromConfig (\<lambda>m. m) (pod_cfg ''u'')] (NewNetwork []))) ''10.0.0.16'' \<noteq> Some ''u''"
    by code_simp
  show ?thesis using o sandbox_keeps_network [OF o l] by blast
qed

theorem FromConfig_grants_witness:
  "owner mem_given (an_key mem_first) = Some ''u'' \<and> owner mem_started (an_key mem_first) = None \<and> an_uid mem_first = None"
proof -
  have f: "FromConfig mem_service (\<lambda>m. m) (pod_cfg ''u'') mem_started = (Ret (Inr (Some mem_first)), mem_given)"
    by code_simp
  have o: "owner mem_started (an_key mem_first) = None" by code_simp
  show ?thesis
    using FromConfig_grants [OF ready_started pod_cfg_not_file f] o by (simp add: pod_cfg_def)
qed

definition mem_freed :: "mem network" where
  "mem_freed = snd (Deallocate mem_first mem_given)"

theorem FromConfig_reclaims_witness:
  "\<exists>r t. FromConfig mem_service (\<lambda>m. m) (pod_cfg ''v'') mem_freed = (Ret (Inr (Some r)), t) \<and> world t = world mem_freed"
proof -
  have "ready mem_default mem_freed" by code_simp
  moreover have "map_of (networks mem_freed) ''10.0.0.16'' = Some mem_first" by code_simp
  ultimately show ?thesis
    using FromConfig_reclaims [of mem_default mem_freed "pod_cfg ''v''" "''10.0.0.16''" mem_first mem_service "\<lambda>m. m"]
      pod_cfg_not_file [of "''v''"]
    by (auto simp: mem_first_def mem_default_def)
qed


theorem default_plan_witness:
  "\<exists>g. default_gateway [10, 0, 0, 32] (CIDRMask NetworkSubnetSize 4) = Some g \<and> ip_val g = ip_val [10, 0, 0, 32] + 14"
proof -
  have "ip_Mask [10, 0, 0, 32] (CIDRMask NetworkSubnetSize 4) = [10, 0, 0, 32]" by code_simp
  then have "\<exists>g. default_gateway [10, 0, 0, 32] (CIDRMask NetworkSubnetSize 4) = Some g \<and> length g = 4 \<and>
    ip_val g = ip_val [10, 0, 0, 32] + 14 \<and>
    ip_val (ip_advance (push_bit (32 - mask_Size (CIDRMask NetworkSubnetSize 4)) 1) [10, 0, 0, 32]) =
      (ip_val [10, 0, 0, 32] + 16) mod 2 ^ 32"
    by (intro default_plan) simp_all
  then show ?thesis by blast
qed

theorem Default_once_witness:
  "Default mem_service (NewNetwork []) = (Ret (Some mem_default), mem_started) \<and>
   Default mem_service mem_started = (Ret (Some mem_default), mem_started)"
proof -
  have "fst (Default mem_service (NewNetwork [])) = Ret (Some mem_default)" by code_simp
  then have t: "Default mem_service (NewNetwork []) = (Ret (Some mem_default), mem_started)"
    by (simp add: mem_started_def prod_eq_iff)
  with Default_once [of mem_service "NewNetwork []"] show ?thesis by simp
qed

end
