(* ===== verification/Frames.thy ===== *)
theory Frames
  imports Go_Strings Go_Prelude
begin

text \<open>
  Docker's multiplexed output, which the program reads in two places: the exec and attach proxy
  (\<^verbatim>\<open>src/pkg/nanokube/streams.go\<close>, \<^verbatim>\<open>ProxyStream\<close>) and the log source of the Docker driver
  (\<^verbatim>\<open>src/pkg/driver/docker/docker.go\<close>, \<^verbatim>\<open>LogStream\<close>). A frame is one byte for the stream, three
  zero bytes, the size as a big-endian 32-bit number, and the payload. A reader is the bytes it
  still has and the error it ends with.
\<close>

section \<open>Readers\<close>

record reader =
  rd_bytes :: string
  rd_end :: error

text \<open>\<^verbatim>\<open>io.ReadFull\<close>: all \<open>n\<close> bytes, or the reader's own error when nothing could be read, or
  \<open>ErrUnexpectedEOF\<close> when the reader ended with end-of-file inside the buffer.\<close>

definition ReadFull :: "nat \<Rightarrow> reader \<Rightarrow> (error + string) \<times> reader" where
  "ReadFull n r =
     (if n \<le> length (rd_bytes r) then (Inr (take n (rd_bytes r)), r\<lparr>rd_bytes := drop n (rd_bytes r)\<rparr>)
      else (Inl (if rd_bytes r \<noteq> [] \<and> IsEOF (rd_end r) then ErrUnexpectedEOF else rd_end r),
            r\<lparr>rd_bytes := []\<rparr>))"

lemma ReadFull_append [simp]:
  "ReadFull (length a) (r\<lparr>rd_bytes := a @ b\<rparr>) = (Inr a, r\<lparr>rd_bytes := b\<rparr>)"
  by (simp add: ReadFull_def)

lemma ReadFull_Inr_length:
  "ReadFull n r = (Inr a, r') \<Longrightarrow> length (rd_bytes r) = n + length (rd_bytes r') \<and> length a = n"
  by (auto simp: ReadFull_def split: if_splits)

lemma ReadFull_0 [simp]: "ReadFull 0 r = (Inr [], r)"
  by (simp add: ReadFull_def)

section \<open>Headers\<close>

definition BigEndian_Uint32 :: "string \<Rightarrow> nat" where
  "BigEndian_Uint32 bs = foldl (\<lambda>n c. n * 256 + of_char c) 0 bs"

definition put_Uint32 :: "nat \<Rightarrow> string" where
  "put_Uint32 n = map (\<lambda>i. char_of (n div 256 ^ i mod 256)) [3, 2, 1, 0]"

type_synonym frame = "nat \<times> string"

definition frame_bytes :: "frame \<Rightarrow> string" where
  "frame_bytes f = [char_of (fst f), CHR 0x00, CHR 0x00, CHR 0x00] @ put_Uint32 (length (snd f)) @ snd f"

definition frame_ok :: "frame \<Rightarrow> bool" where
  "frame_ok f \<longleftrightarrow> fst f < 256 \<and> length (snd f) < 2 ^ 32"

definition frames_bytes :: "frame list \<Rightarrow> string" where
  "frames_bytes fs = concat (map frame_bytes fs)"

text \<open>The payloads of one stream, in order.\<close>

definition payloads :: "(nat \<Rightarrow> bool) \<Rightarrow> frame list \<Rightarrow> string" where
  "payloads P fs = concat (map snd (filter (\<lambda>f. P (fst f)) fs))"

lemma payloads_simps [simp]:
  "payloads P [] = []"
  "payloads P (f # fs) = (if P (fst f) then snd f else []) @ payloads P fs"
  by (simp_all add: payloads_def)

lemma length_put_Uint32 [simp]: "length (put_Uint32 n) = 4"
  by (simp add: put_Uint32_def)

lemma of_char_of_256: "n < 256 \<Longrightarrow> (of_char (char_of n) :: nat) = n"
  by simp

lemma base256:
  fixes n :: nat
  assumes "n < 2 ^ 32"
  shows "((n div 256 ^ 3 mod 256 * 256 + n div 256 ^ 2 mod 256) * 256 + n div 256 ^ 1 mod 256) * 256 + n div 256 ^ 0 mod 256 = n"
proof -
  have "n div 256 ^ 3 < 256" using assms by (simp add: less_mult_imp_div_less)
  then have "n div 256 ^ 3 mod 256 = n div 256 ^ 3" by simp
  moreover have "n div 256 ^ 3 = n div 256 ^ 2 div 256" "n div 256 ^ 2 = n div 256 div 256"
    by (simp_all add: div_mult2_eq [symmetric])
  ultimately show ?thesis by simp
qed

lemma Uint32_put [simp]: "n < 2 ^ 32 \<Longrightarrow> BigEndian_Uint32 (put_Uint32 n) = n"
  using base256 [of n] by (simp add: BigEndian_Uint32_def put_Uint32_def)

text \<open>Reading back the header and the payload of a well-formed frame.\<close>

definition header_type :: "string \<Rightarrow> nat" where
  "header_type h = of_char (h ! 0)"

definition header_size :: "string \<Rightarrow> nat" where
  "header_size h = BigEndian_Uint32 (take 4 (drop 4 h))"

definition frame_header :: "frame \<Rightarrow> string" where
  "frame_header f = [char_of (fst f), CHR 0x00, CHR 0x00, CHR 0x00] @ put_Uint32 (length (snd f))"

lemma frame_bytes_header: "frame_bytes f = frame_header f @ snd f"
  by (simp add: frame_bytes_def frame_header_def)

lemma frame_header [simp]:
  "frame_ok f \<Longrightarrow> header_type (frame_header f) = fst f"
  "frame_ok f \<Longrightarrow> header_size (frame_header f) = length (snd f)"
  "length (frame_header f) = 8"
  by (simp_all add: frame_ok_def frame_header_def header_type_def header_size_def)

lemma frames_bytes_Cons [simp]: "frames_bytes (f # fs) = frame_header f @ snd f @ frames_bytes fs"
  by (simp add: frames_bytes_def frame_bytes_header)

lemma frames_bytes_Nil [simp]: "frames_bytes [] = []"
  by (simp add: frames_bytes_def)

lemma ReadFull_header:
  "ReadFull 8 \<lparr>rd_bytes = frame_header f @ b, rd_end = e\<rparr> = (Inr (frame_header f), \<lparr>rd_bytes = b, rd_end = e\<rparr>)"
  by (simp add: ReadFull_def)

lemma ReadFull_payload:
  "ReadFull (length a) \<lparr>rd_bytes = a @ b, rd_end = e\<rparr> = (Inr a, \<lparr>rd_bytes = b, rd_end = e\<rparr>)"
  by (simp add: ReadFull_def)

end
