(* ===== verification/Log_Stream.thy ===== *)
theory Log_Stream
  imports Frames
begin

text \<open>
  Container logs: the log pump of \<^verbatim>\<open>src/pkg/nanokube/log.go\<close> (taps, \<^verbatim>\<open>Start\<close>, \<^verbatim>\<open>pump\<close>, \<^verbatim>\<open>Stop\<close>,
  \<^verbatim>\<open>Destroy\<close>) and the source the Docker driver feeds it with (\<^verbatim>\<open>LogStream\<close> in
  \<^verbatim>\<open>src/pkg/driver/docker/docker.go\<close>). Operations of the stream are functions on its state; the
  goroutines that run the pumps appear as further operations, so an interleaving is a list of
  operations. Files, contexts and sources are named by the number of the \<^verbatim>\<open>Start\<close> that made them.
\<close>

section \<open>Taps\<close>

datatype tap = TapDiscard | TapPipe string bool | TapBroken

definition newTap :: tap where
  "newTap = TapDiscard"

text \<open>\<^verbatim>\<open>Write\<close> says whether it succeeded; \<^verbatim>\<open>Reader\<close> swaps the discarding writer for a pipe once, and
  \<open>pipe_ok\<close> is whether \<^verbatim>\<open>os.Pipe\<close> succeeds.\<close>

fun tap_Write :: "string \<Rightarrow> tap \<Rightarrow> bool \<times> tap" where
  "tap_Write b TapDiscard = (True, TapDiscard)"
| "tap_Write b (TapPipe c closed) = (if closed then (False, TapPipe c closed) else (True, TapPipe (c @ b) closed))"
| "tap_Write b TapBroken = (False, TapBroken)"

fun tap_Reader :: "bool \<Rightarrow> tap \<Rightarrow> tap" where
  "tap_Reader pipe_ok TapDiscard = (if pipe_ok then TapPipe [] False else TapBroken)"
| "tap_Reader pipe_ok t = t"

fun tap_Close :: "tap \<Rightarrow> tap" where
  "tap_Close (TapPipe c closed) = TapPipe c True"
| "tap_Close t = t"

section \<open>The stream\<close>

datatype channel = Stdout | Stderr

record log_stream =
  status_LogPath :: "string option"
  stdout :: tap
  stderr :: tap
  cancelFn :: "nat option"
  closeSource :: "nat option"
  logFile :: "nat option"
  started :: bool
  stopped :: bool
  destroyed :: bool
  starts :: nat
  cancelled :: "nat list"
  closedSources :: "nat list"
  closedFiles :: "nat list"
  file_content :: string
  pumps :: "(nat \<times> channel) list"

text \<open>The path is \<open>None\<close> when there is no status or its path is empty.\<close>

definition NewLogStream :: "string option \<Rightarrow> log_stream" where
  "NewLogStream path =
     \<lparr>status_LogPath = (case path of Some [] \<Rightarrow> None | p \<Rightarrow> p), stdout = newTap, stderr = newTap,
      cancelFn = None, closeSource = None, logFile = None, started = False, stopped = False,
      destroyed = False, starts = 0, cancelled = [], closedSources = [], closedFiles = [],
      file_content = [], pumps = []\<rparr>"

definition Stop :: "log_stream \<Rightarrow> log_stream" where
  "Stop s =
     (if \<not> started s then s
      else if stopped s then s
      else s\<lparr>stopped := True,
             cancelled := cancelled s @ (case cancelFn s of None \<Rightarrow> [] | Some n \<Rightarrow> [n]),
             closedSources := closedSources s @ (case closeSource s of None \<Rightarrow> [] | Some n \<Rightarrow> [n]),
             closedFiles := closedFiles s @ (case logFile s of None \<Rightarrow> [] | Some n \<Rightarrow> [n]),
             logFile := None\<rparr>)"

record start_env =
  mkdir_ok :: bool
  open_ok :: bool
  source_ok :: bool

definition Start :: "start_env \<Rightarrow> log_stream \<Rightarrow> log_stream" where
  "Start e s0 =
     (if destroyed s0 then s0
      else let n = starts s0; s = s0\<lparr>started := True, stopped := False, starts := Suc n\<rparr>
        in if status_LogPath s \<noteq> None \<and> \<not> mkdir_ok e then Stop s
           else if status_LogPath s \<noteq> None \<and> \<not> open_ok e then Stop s
           else let s1 = (if status_LogPath s \<noteq> None then s\<lparr>logFile := Some n\<rparr> else s)\<lparr>cancelFn := Some n\<rparr>
             in if \<not> source_ok e then Stop s1
                else s1\<lparr>closeSource := Some n, pumps := pumps s1 @ [(n, Stdout), (n, Stderr)]\<rparr>)"

definition Destroy :: "log_stream \<Rightarrow> log_stream" where
  "Destroy s =
     (if destroyed s then s
      else let t = (Stop s)\<lparr>destroyed := True\<rparr>
        in t\<lparr>stdout := tap_Close (stdout t), stderr := tap_Close (stderr t)\<rparr>)"

section \<open>The pump\<close>

definition maxLineBytes :: nat where
  "maxLineBytes = 65536"

fun IndexByte :: "string \<Rightarrow> char \<Rightarrow> nat option" where
  "IndexByte [] c = None"
| "IndexByte (x # xs) c = (if x = c then Some 0 else map_option Suc (IndexByte xs c))"

lemma IndexByte_None: "IndexByte s c = None \<longleftrightarrow> c \<notin> set s"
  by (induction s) auto

lemma IndexByte_Some: "IndexByte s c = Some i \<longleftrightarrow> (\<exists>a b. s = a @ c # b \<and> c \<notin> set a \<and> i = length a)"
proof (induction s arbitrary: i)
  case (Cons x xs)
  show ?case
  proof (cases "x = c")
    case True
    then show ?thesis by (auto simp: Cons_eq_append_conv)
  next
    case False
    then show ?thesis
      by (auto simp: Cons.IH Cons_eq_append_conv) (metis append_Cons length_Cons set_ConsD, blast)
  qed
qed simp

text \<open>The inner loop: the lines it takes off the front of the buffer, and the buffer it leaves.\<close>

definition next_line :: "string \<Rightarrow> (string \<times> string) option" where
  "next_line buf =
     (case IndexByte buf newline of
        Some i \<Rightarrow> Some (take (Suc i) buf, drop (Suc i) buf)
      | None \<Rightarrow> if length buf < maxLineBytes then None
                else let i = length buf - 1 in Some (take (Suc i) buf, drop (Suc i) buf))"

lemma next_line_shorter: "next_line buf = Some (l, r) \<Longrightarrow> buf = l @ r \<and> length r < length buf"
  by (auto simp: next_line_def maxLineBytes_def Let_def IndexByte_Some split: option.splits if_splits)

function drain :: "string \<Rightarrow> string list \<times> string" where
  "drain buf =
     (case next_line buf of
        None \<Rightarrow> ([], buf)
      | Some (line, rest) \<Rightarrow> (case drain rest of (ls, r) \<Rightarrow> (line # ls, r)))"
  by auto
termination
  by (relation "measure length") (auto dest: next_line_shorter)

declare drain.simps [simp del]

text \<open>The outer loop over what the source's \<^verbatim>\<open>Read\<close> calls return.\<close>

fun pump_lines :: "string \<Rightarrow> string list \<Rightarrow> string list \<times> string" where
  "pump_lines buf [] = ([], buf)"
| "pump_lines buf (chunk # chunks) =
     (if chunk = [] then pump_lines buf chunks
      else (case drain (buf @ chunk) of (ls, r) \<Rightarrow> (case pump_lines r chunks of (ls', r') \<Rightarrow> (ls @ ls', r'))))"

text \<open>What happens to one line: it is appended to the file when one is open, and written to the
  tap; a tap that fails ends the pump.\<close>

definition pump_write :: "channel \<Rightarrow> string \<Rightarrow> log_stream \<Rightarrow> bool \<times> log_stream" where
  "pump_write c line s =
     (let s1 = (if logFile s \<noteq> None then s\<lparr>file_content := file_content s @ line\<rparr> else s)
      in case c of
           Stdout \<Rightarrow> (let (ok, t) = tap_Write line (stdout s1) in (ok, s1\<lparr>stdout := t\<rparr>))
         | Stderr \<Rightarrow> (let (ok, t) = tap_Write line (stderr s1) in (ok, s1\<lparr>stderr := t\<rparr>)))"

fun pump_writes :: "channel \<Rightarrow> string list \<Rightarrow> log_stream \<Rightarrow> log_stream" where
  "pump_writes c [] s = s"
| "pump_writes c (l # ls) s = (let (ok, t) = pump_write c l s in if ok then pump_writes c ls t else t)"

text \<open>A pump that runs to its end alone; \<^verbatim>\<open>defer s.Stop()\<close> comes last.\<close>

definition pump :: "channel \<Rightarrow> string list \<Rightarrow> log_stream \<Rightarrow> log_stream" where
  "pump c chunks s = Stop (pump_writes c (fst (pump_lines [] chunks)) s)"

section \<open>Interleavings\<close>

datatype log_op =
    OpStart start_env
  | OpStop
  | OpDestroy
  | OpStdout bool
  | OpStderr bool
  | OpLine nat channel string
  | OpPumpExit nat channel

text \<open>A pump step happens only while that pump runs; its exit runs the deferred \<open>Stop\<close>.\<close>

fun log_step :: "log_op \<Rightarrow> log_stream \<Rightarrow> log_stream" where
  "log_step (OpStart e) s = Start e s"
| "log_step OpStop s = Stop s"
| "log_step OpDestroy s = Destroy s"
| "log_step (OpStdout ok) s = s\<lparr>stdout := tap_Reader ok (stdout s)\<rparr>"
| "log_step (OpStderr ok) s = s\<lparr>stderr := tap_Reader ok (stderr s)\<rparr>"
| "log_step (OpLine n c line) s =
     (if (n, c) \<in> set (pumps s)
      then let (ok, t) = pump_write c line s
           in if ok then t else Stop (t\<lparr>pumps := removeAll (n, c) (pumps t)\<rparr>)
      else s)"
| "log_step (OpPumpExit n c) s =
     (if (n, c) \<in> set (pumps s) then Stop (s\<lparr>pumps := removeAll (n, c) (pumps s)\<rparr>) else s)"


section \<open>What the pump makes of its input\<close>

text \<open>The reference: the text cut at its newlines.\<close>

definition whole_lines :: "string \<Rightarrow> string list" where
  "whole_lines s = map (\<lambda>p. p @ [newline]) (butlast (strings_Split newline s))"

definition partial_line :: "string \<Rightarrow> string" where
  "partial_line s = last (strings_Split newline s)"

lemma Split_append_split:
  "strings_Split c (x @ y) = butlast (strings_Split c x) @ strings_Split c (last (strings_Split c x) @ y)"
proof (induction x)
  case (Cons a x)
  show ?case
  proof (cases "strings_Split c x")
    case Nil
    then show ?thesis by simp
  next
    case (Cons p ps)
    with Cons.IH show ?thesis by (cases ps) (auto split: list.splits)
  qed
qed simp

lemma whole_lines_append: "whole_lines (x @ y) = whole_lines x @ whole_lines (partial_line x @ y)"
  and partial_line_append: "partial_line (x @ y) = partial_line (partial_line x @ y)"
  unfolding whole_lines_def partial_line_def
  by (subst Split_append_split; simp add: butlast_append)+

lemma partial_line_no_newline: "newline \<notin> set (partial_line s)"
  unfolding partial_line_def by (rule Split_no_sep [of _ newline s]) simp

lemma whole_lines_partial: "concat (whole_lines s) @ partial_line s = s"
proof (induction s)
  case (Cons a s)
  then show ?case
    by (cases "strings_Split newline s"; cases "tl (strings_Split newline s)")
       (auto simp: whole_lines_def partial_line_def split: list.splits)
qed (simp add: whole_lines_def partial_line_def)

lemma whole_lines_newline:
  "newline \<notin> set a \<Longrightarrow> whole_lines (a @ newline # b) = (a @ [newline]) # whole_lines b"
  "newline \<notin> set a \<Longrightarrow> partial_line (a @ newline # b) = partial_line b"
  by (simp_all add: whole_lines_def partial_line_def Split_append)

lemma whole_lines_none: "newline \<notin> set a \<Longrightarrow> whole_lines a = [] \<and> partial_line a = a"
  by (simp add: whole_lines_def partial_line_def Split_Nil_sep)

definition short_lines :: "string \<Rightarrow> bool" where
  "short_lines s \<longleftrightarrow> (\<forall>p \<in> set (strings_Split newline s). length p < maxLineBytes)"

lemma Split_prefix:
  "c \<notin> set p \<Longrightarrow> strings_Split c (p @ y) = (p @ hd (strings_Split c y)) # tl (strings_Split c y)"
  by (induction p) (auto split: list.splits)

lemma short_lines_append: "short_lines (x @ y) \<Longrightarrow> short_lines x \<and> short_lines (partial_line x @ y)"
proof -
  assume s: "short_lines (x @ y)"
  have sp: "strings_Split newline (x @ y) = butlast (strings_Split newline x) @ strings_Split newline (partial_line x @ y)"
    unfolding partial_line_def by (rule Split_append_split)
  with s have b: "\<forall>p \<in> set (butlast (strings_Split newline x)). length p < maxLineBytes"
    and r: "short_lines (partial_line x @ y)" by (auto simp: short_lines_def)
  from r have "length (partial_line x) < maxLineBytes"
    by (simp add: short_lines_def Split_prefix [OF partial_line_no_newline])
  moreover have "strings_Split newline x = butlast (strings_Split newline x) @ [partial_line x]"
    by (simp add: partial_line_def)
  ultimately have "short_lines x" using b unfolding short_lines_def by (metis Un_iff empty_iff insert_iff list.set set_append)
  with r show ?thesis by simp
qed

lemma drain_reference: "short_lines buf \<Longrightarrow> drain buf = (whole_lines buf, partial_line buf)"
proof (induction buf rule: drain.induct)
  case (1 buf)
  show ?case
  proof (cases "IndexByte buf newline")
    case None
    then have "newline \<notin> set buf" by (simp add: IndexByte_None)
    with 1(2) None show ?thesis
      by (subst drain.simps) (simp add: next_line_def whole_lines_none short_lines_def Split_Nil_sep)
  next
    case (Some i)
    then obtain a b where b: "buf = a @ newline # b" "newline \<notin> set a" "i = length a"
      by (auto simp: IndexByte_Some)
    with Some have n: "next_line buf = Some (a @ [newline], b)" by (simp add: next_line_def)
    have "short_lines b" using 1(2) b by (simp add: short_lines_def Split_append)
    with 1(1) [OF n refl] n b show ?thesis by (subst drain.simps) (simp add: whole_lines_newline)
  qed
qed

lemma pump_reference:
  "short_lines (buf @ concat chunks) \<Longrightarrow> newline \<notin> set buf \<Longrightarrow>
   pump_lines buf chunks = (whole_lines (buf @ concat chunks), partial_line (buf @ concat chunks))"
proof (induction chunks arbitrary: buf)
  case (Cons c cs)
  have s: "short_lines (buf @ c)" "short_lines (partial_line (buf @ c) @ concat cs)"
    using short_lines_append [of "buf @ c" "concat cs"] Cons.prems(1) by simp_all
  show ?case
    using Cons.IH [OF s(2) partial_line_no_newline] Cons.IH [of buf] Cons.prems whole_lines_none [of buf]
    by (cases "c = []") (simp_all add: drain_reference [OF s(1)] whole_lines_append [of "buf @ c" "concat cs", simplified]
          partial_line_append [of "buf @ c" "concat cs", simplified])
qed (simp add: whole_lines_none)


text \<open>Without a bound on the lines of the input.\<close>

definition line_ok :: "nat \<Rightarrow> string \<Rightarrow> bool" where
  "line_ok n l \<longleftrightarrow> (\<exists>p. l = p @ [newline] \<and> newline \<notin> set p) \<or> (newline \<notin> set l \<and> maxLineBytes \<le> length l \<and> length l < maxLineBytes + n)"

lemma drain_bounds:
  "newline \<notin> set b \<Longrightarrow> length b < maxLineBytes \<Longrightarrow> length c \<le> n \<Longrightarrow> buf = b @ c \<Longrightarrow>
   concat (fst (drain buf)) @ snd (drain buf) = buf \<and> (\<forall>l \<in> set (fst (drain buf)). line_ok n l) \<and>
   newline \<notin> set (snd (drain buf)) \<and> length (snd (drain buf)) < maxLineBytes"
proof (induction buf arbitrary: b c rule: drain.induct)
  case (1 buf)
  show ?case
  proof (cases "next_line buf")
    case None
    then show ?thesis
      by (subst (1 2 3 4 5) drain.simps) (auto simp: next_line_def IndexByte_None split: option.splits if_splits)
  next
    case (Some p)
    obtain l r where p: "p = (l, r)" by (cases p)
    have lr: "line_ok n l \<and> length r \<le> n"
    proof (cases "IndexByte buf newline")
      case None
      then have "\<not> length buf < maxLineBytes" "l = buf" "r = []" "newline \<notin> set buf"
        using Some by (auto simp: p next_line_def IndexByte_None [symmetric] Let_def maxLineBytes_def split: if_splits)
      then show ?thesis using 1(2-) by (simp add: line_ok_def)
    next
      case (Some i)
      then obtain x y where x: "buf = x @ newline # y" "newline \<notin> set x" "i = length x"
        by (auto simp: IndexByte_Some)
      then have "l = x @ [newline]" "r = y" using Some \<open>next_line buf = Some p\<close> by (auto simp: p next_line_def)
      moreover have "length y \<le> length c"
        using x 1(2,5) by (auto simp: append_eq_append_conv2 Cons_eq_append_conv append_eq_Cons_conv)
      ultimately show ?thesis using x 1(4) by (auto simp: line_ok_def)
    qed
    have "buf = l @ r" using next_line_shorter Some p by blast
    with 1(1) [OF Some [unfolded p] refl, of "[]" r] lr Some p show ?thesis
      by (subst (1 2 3 4 5) drain.simps) (auto simp: maxLineBytes_def split: prod.splits)
  qed
qed

lemma pump_bounds:
  "newline \<notin> set buf \<Longrightarrow> length buf < maxLineBytes \<Longrightarrow> \<forall>c \<in> set chunks. length c \<le> n \<Longrightarrow>
   concat (fst (pump_lines buf chunks)) @ snd (pump_lines buf chunks) = buf @ concat chunks \<and>
   (\<forall>l \<in> set (fst (pump_lines buf chunks)). line_ok n l) \<and>
   newline \<notin> set (snd (pump_lines buf chunks)) \<and> length (snd (pump_lines buf chunks)) < maxLineBytes"
proof (induction chunks arbitrary: buf)
  case (Cons c cs)
  show ?case
  proof (cases "c = []")
    case False
    obtain ls r where d: "drain (buf @ c) = (ls, r)" by (cases "drain (buf @ c)")
    have "concat ls @ r = buf @ c \<and> (\<forall>l \<in> set ls. line_ok n l) \<and> newline \<notin> set r \<and> length r < maxLineBytes"
      using drain_bounds [OF Cons.prems(1,2), of c n "buf @ c"] Cons.prems(3) d by simp
    with Cons.IH [of r] Cons.prems(3) False d show ?thesis
      by (auto split: prod.splits)
  qed (use Cons in simp)
qed simp

text \<open>
  The pump cuts its input into lines and loses nothing on the way. However the source splits
  the bytes into reads of at most 4096 bytes, the lines written, followed by what is left in the
  buffer at the end, are exactly the bytes read. Every line written either ends in its only
  newline, or is a forced flush of at least 65536 and fewer than 65536 + 4096 bytes without a
  newline; and what is left has no newline and is shorter than 65536 bytes, so the buffer is
  bounded.
\<close>

theorem pump_loses_nothing:
  assumes "\<forall>c \<in> set chunks. length c \<le> 4096"
  shows "concat (fst (pump_lines [] chunks)) @ snd (pump_lines [] chunks) = concat chunks \<and>
    (\<forall>l \<in> set (fst (pump_lines [] chunks)).
       (\<exists>p. l = p @ [newline] \<and> newline \<notin> set p) \<or>
       (newline \<notin> set l \<and> 65536 \<le> length l \<and> length l < 65536 + 4096)) \<and>
    newline \<notin> set (snd (pump_lines [] chunks)) \<and> length (snd (pump_lines [] chunks)) < 65536"
  using pump_bounds [of "[]" chunks 4096] assms by (simp add: maxLineBytes_def line_ok_def)

theorem pump_loses_nothing_witness:
  "concat (fst (pump_lines [] [''a'', [newline] @ ''b''])) @ snd (pump_lines [] [''a'', [newline] @ ''b'']) = ''a'' @ [newline] @ ''b''"
  using pump_loses_nothing [of "[''a'', [newline] @ ''b'']"] by simp

text \<open>
  C4. The lines do not depend on how the source chunks its bytes. When no line of the input reaches
  65536 bytes, the pump writes exactly the newline-terminated lines of the whole input, in order,
  and what remains is the unterminated tail.
\<close>

theorem pump_is_line_split:
  assumes "short_lines (concat chunks)"
  shows "pump_lines [] chunks = (whole_lines (concat chunks), partial_line (concat chunks))"
  using pump_reference [of "[]" chunks] assms by simp

theorem pump_is_line_split_witness:
  "pump_lines [] [''x'', ''y'' @ [newline] @ ''z''] = ([''xy'' @ [newline]], ''z'')"
  using pump_is_line_split [of "[''x'', ''y'' @ [newline] @ ''z'']"]
  by (simp add: short_lines_def maxLineBytes_def whole_lines_def partial_line_def)

section \<open>Life of a stream\<close>

definition log_inv :: "log_stream \<Rightarrow> bool" where
  "log_inv s \<longleftrightarrow> distinct (closedFiles s) \<and> list_all (\<lambda>n. n < starts s) (closedFiles s) \<and>
     (destroyed s \<longrightarrow> logFile s = None) \<and>
     (case logFile s of None \<Rightarrow> True
      | Some n \<Rightarrow> n < starts s \<and> n \<notin> set (closedFiles s) \<and> started s \<and> \<not> stopped s)"

lemma log_inv_New: "log_inv (NewLogStream p)"
  by (simp add: log_inv_def NewLogStream_def)

lemma log_inv_irrelevant [simp]:
  "log_inv (s\<lparr>stdout := t\<rparr>) = log_inv s" "log_inv (s\<lparr>stderr := t\<rparr>) = log_inv s"
  "log_inv (s\<lparr>pumps := ps\<rparr>) = log_inv s" "log_inv (s\<lparr>file_content := x\<rparr>) = log_inv s"
  "log_inv (s\<lparr>cancelFn := c\<rparr>) = log_inv s" "log_inv (s\<lparr>closeSource := c\<rparr>) = log_inv s"
  by (simp_all add: log_inv_def cong: option.case_cong)

lemma log_inv_Stop [simp]: "log_inv s \<Longrightarrow> log_inv (Stop s)"
  by (auto simp: log_inv_def Stop_def list_all_iff split: option.splits)

lemma Stop_closes: "log_inv s \<Longrightarrow> logFile (Stop s) = None"
  by (auto simp: log_inv_def Stop_def split: option.splits)

lemma log_inv_Start: "log_inv s \<Longrightarrow> log_inv (Start e s)"
proof -
  assume i: "log_inv s"
  let ?s = "s\<lparr>started := True, stopped := False, starts := Suc (starts s)\<rparr>"
  have 1: "log_inv ?s" if "\<not> destroyed s"
    using i that by (auto simp: log_inv_def list_all_iff split: option.splits)
  have 2: "log_inv (?s\<lparr>logFile := Some (starts s)\<rparr>)" if "\<not> destroyed s"
    using i that by (auto simp: log_inv_def list_all_iff)
  from i 1 2 show ?thesis by (simp add: Start_def Let_def)
qed

lemma log_inv_write: "log_inv s \<Longrightarrow> log_inv (snd (pump_write c l s))"
  by (cases c) (simp_all add: pump_write_def Let_def split: prod.splits)

lemma log_inv_Destroy: "log_inv s \<Longrightarrow> log_inv (Destroy s)"
proof -
  assume i: "log_inv s"
  have "log_inv ((Stop s)\<lparr>destroyed := True\<rparr>)"
    using log_inv_Stop [OF i] Stop_closes [OF i] by (simp add: log_inv_def)
  with i show ?thesis by (simp add: Destroy_def Let_def)
qed

lemma log_inv_step: "log_inv s \<Longrightarrow> log_inv (log_step op s)"
proof (cases op)
  case (OpLine n c l)
  moreover assume "log_inv s"
  ultimately show ?thesis
    using log_inv_write [of s c l] by (cases "pump_write c l s") simp
qed (simp_all add: log_inv_Start log_inv_Destroy)

interpretation logs: invariant_system "\<lambda>s t. \<exists>op. t = log_step op s" "NewLogStream p" log_inv for p
  by unfold_locales (auto simp: log_inv_New log_inv_step)

text \<open>What no operation can undo once the stream is destroyed.\<close>

lemma destroyed_step:
  assumes "destroyed s" "logFile s = None"
  shows "destroyed (log_step op s) \<and> logFile (log_step op s) = None \<and>
         file_content (log_step op s) = file_content s"
proof (cases op)
  case (OpLine n c l)
  with assms show ?thesis
    by (cases c) (auto simp: pump_write_def Let_def Stop_def split: prod.splits)
qed (use assms in \<open>simp_all add: Start_def Stop_def Destroy_def\<close>)

lemma destroyed_run:
  "destroyed s \<Longrightarrow> logFile s = None \<Longrightarrow>
   destroyed (fold log_step ops s) \<and> logFile (fold log_step ops s) = None \<and>
   file_content (fold log_step ops s) = file_content s"
proof (induction ops arbitrary: s)
  case (Cons op ops)
  with destroyed_step [of s op] show ?case by simp
qed simp

lemma reaches_fold: "reaches (\<lambda>s t. \<exists>op. t = log_step op s) s (fold log_step ops s)"
proof (induction ops rule: rev_induct)
  case (snoc op ops)
  then show ?case by (auto intro: reaches_step)
qed simp



section \<open>What reaches the log file\<close>

definition tap_of :: "channel \<Rightarrow> log_stream \<Rightarrow> tap" where
  "tap_of c s = (case c of Stdout \<Rightarrow> stdout s | Stderr \<Rightarrow> stderr s)"

fun tap_accepts :: "tap \<Rightarrow> bool" where
  "tap_accepts TapDiscard = True"
| "tap_accepts (TapPipe b closed) = (\<not> closed)"
| "tap_accepts TapBroken = False"

lemma tap_Write_accepts: "tap_accepts t \<Longrightarrow> \<exists>t'. tap_Write b t = (True, t') \<and> tap_accepts t'"
  by (cases t) auto

lemma pump_writes_file:
  "logFile s \<noteq> None \<Longrightarrow> tap_accepts (tap_of c s) \<Longrightarrow>
   file_content (pump_writes c ls s) = file_content s @ concat ls"
proof (induction ls arbitrary: s)
  case (Cons l ls)
  obtain t where "tap_Write l (tap_of c s) = (True, t)" "tap_accepts t"
    using tap_Write_accepts Cons.prems(2) by blast
  with Cons.prems Cons.IH [of "snd (pump_write c l s)"] show ?case
    by (cases c) (simp_all add: pump_write_def tap_of_def Let_def)
qed simp

text \<open>
  What a pump leaves in the log. While the file is open and the tap accepts writes, a pump
  that runs to the end of its source appends to the file exactly the newline-terminated lines
  of the source (when none reaches 65536 bytes). The unterminated rest of the source, the last
  output of a container that does not end in a newline, is not written.
\<close>

theorem pump_log_file:
  assumes "logFile s \<noteq> None" "tap_accepts (tap_of c s)" "short_lines (concat chunks)"
  shows "file_content (pump c chunks s) @ partial_line (concat chunks) = file_content s @ concat chunks"
proof -
  have stop: "file_content (Stop t) = file_content t" for t by (simp add: Stop_def)
  have "file_content (pump c chunks s) = file_content s @ concat (whole_lines (concat chunks))"
    using pump_reference [of "[]" chunks] assms(3)
    by (simp add: pump_def stop pump_writes_file [OF assms(1,2)])
  then show ?thesis using whole_lines_partial [of "concat chunks"] by simp
qed

theorem pump_log_file_witness:
  "file_content (pump Stdout [''x'' @ [newline] @ ''tail''] (Start \<lparr>mkdir_ok = True, open_ok = True, source_ok = True\<rparr> (NewLogStream (Some ''/l'')))) = ''x'' @ [newline]"
  using pump_log_file [of "Start \<lparr>mkdir_ok = True, open_ok = True, source_ok = True\<rparr> (NewLogStream (Some ''/l''))" Stdout "[''x'' @ [newline] @ ''tail'']"]
  by (simp add: NewLogStream_def Start_def tap_of_def newTap_def short_lines_def maxLineBytes_def partial_line_def Let_def)

section \<open>Reopening a log\<close>

text \<open>The driver's \<^verbatim>\<open>ReopenContainerLog\<close> on the container's stream.\<close>

definition ReopenContainerLog :: "start_env \<Rightarrow> (string \<times> log_stream) list \<Rightarrow> string \<Rightarrow> error option \<times> (string \<times> log_stream) list" where
  "ReopenContainerLog e streams cid =
     (case map_of streams cid of
        None \<Rightarrow> (Some (Errorf (''container log stream not found for container '' @ cid)), streams)
      | Some s \<Rightarrow> (None, AList.update cid (Start e (Stop s)) streams))"

text \<open>
  C38. A reopened log can be stopped by the pumps of its predecessor. After a successful start and
  a successful reopen the stream has a new open file, but the pumps of the first start have not
  necessarily ended; when one of them ends, its deferred \<open>Stop\<close> closes the new file, cancels the
  new context and marks the stream stopped, although nobody stopped it.
\<close>

theorem stale_pump_stops_reopened_log:
  assumes "\<not> destroyed s" "status_LogPath s \<noteq> None" "mkdir_ok e" "open_ok e" "source_ok e"
  shows "\<exists>t. ReopenContainerLog e [(cid, Start e s)] cid = (None, [(cid, t)]) \<and>
    logFile t = Some (Suc (starts s)) \<and> \<not> stopped t \<and>
    (let u = log_step (OpPumpExit (starts s) c) t
     in logFile u = None \<and> stopped u \<and> Suc (starts s) \<in> set (closedFiles u) \<and> Suc (starts s) \<in> set (cancelled u))"
  using assms by (cases c) (auto simp: ReopenContainerLog_def Start_def Stop_def Let_def)

theorem stale_pump_stops_reopened_log_witness:
  "\<exists>t. ReopenContainerLog \<lparr>mkdir_ok = True, open_ok = True, source_ok = True\<rparr>
      [(''c1'', Start \<lparr>mkdir_ok = True, open_ok = True, source_ok = True\<rparr> (NewLogStream (Some ''/l'')))] ''c1'' = (None, [(''c1'', t)]) \<and>
    logFile (log_step (OpPumpExit 0 Stdout) t) = None"
  using stale_pump_stops_reopened_log [of "NewLogStream (Some ''/l'')" "\<lparr>mkdir_ok = True, open_ok = True, source_ok = True\<rparr>" "''c1''" Stdout]
  by (auto simp: NewLogStream_def Let_def)

section \<open>The Docker log source\<close>

text \<open>
  \<^verbatim>\<open>time.Parse(time.RFC3339Nano, s)\<close> succeeding and the text of \<^verbatim>\<open>time.Now()\<close> are parameters, as
  is whether a write to a pipe succeeds; the latter two depend on when they happen, counted by
  the lines flushed so far.
\<close>

record log_env =
  rfc3339 :: "string \<Rightarrow> bool"
  now_text :: "nat \<Rightarrow> string"
  pipe_write_ok :: "nat \<Rightarrow> bool"

definition cri_line :: "log_env \<Rightarrow> nat \<Rightarrow> string \<Rightarrow> string \<Rightarrow> string" where
  "cri_line E t streamType line =
     (let (ts, msg) = (case strings_Cut space line of
            (before, after, True) \<Rightarrow> if rfc3339 E before then (before, after) else (now_text E t, line)
          | _ \<Rightarrow> (now_text E t, line));
          msg = (if strings_HasSuffix msg [newline] then msg else msg @ [newline])
      in ts @ [space] @ streamType @ '' F '' @ msg)"

function flush :: "log_env \<Rightarrow> string \<Rightarrow> nat \<Rightarrow> string \<Rightarrow> string \<Rightarrow> bool \<times> nat \<times> string \<times> string" where
  "flush E streamType t accum out =
     (case IndexByte accum newline of
        None \<Rightarrow> (True, t, accum, out)
      | Some i \<Rightarrow>
          let line = take (Suc i) accum; accum' = drop (Suc i) accum
          in if pipe_write_ok E t
             then flush E streamType (Suc t) accum' (out @ cri_line E t streamType line)
             else (False, t, accum', out))"
  by auto
termination
  by (relation "measure (\<lambda>(E, st, t, a, out). length a)") (auto simp: IndexByte_Some)

declare flush.simps [simp del]

record demux_state =
  ld_tick :: nat
  stdoutBuf :: string
  stderrBuf :: string
  stdoutW :: string
  stderrW :: string

definition demux_payload :: "log_env \<Rightarrow> nat \<Rightarrow> string \<Rightarrow> demux_state \<Rightarrow> bool \<times> demux_state" where
  "demux_payload E ty payload d =
     (if ty = 2
      then (case flush E ''stderr'' (ld_tick d) (stderrBuf d @ payload) (stderrW d) of
              (ok, t, b, w) \<Rightarrow> (ok, d\<lparr>ld_tick := t, stderrBuf := b, stderrW := w\<rparr>))
      else (case flush E ''stdout'' (ld_tick d) (stdoutBuf d @ payload) (stdoutW d) of
              (ok, t, b, w) \<Rightarrow> (ok, d\<lparr>ld_tick := t, stdoutBuf := b, stdoutW := w\<rparr>)))"

function log_demux :: "log_env \<Rightarrow> reader \<Rightarrow> demux_state \<Rightarrow> demux_state" where
  "log_demux E r d =
     (case ReadFull 8 r of
        (Inl _, _) \<Rightarrow> d
      | (Inr hdr, r1) \<Rightarrow>
          if header_size hdr = 0 then log_demux E r1 d
          else (case ReadFull (header_size hdr) r1 of
                  (Inl _, _) \<Rightarrow> d
                | (Inr payload, r2) \<Rightarrow>
                    (case demux_payload E (header_type hdr) payload d of
                       (True, d') \<Rightarrow> log_demux E r2 d'
                     | (False, d') \<Rightarrow> d')))"
  by auto
termination
  by (relation "measure (\<lambda>(E, r, d). length (rd_bytes r))")
     (auto dest!: ReadFull_Inr_length [OF sym] ReadFull_Inr_length)

declare log_demux.simps [simp del]

definition demux_start :: demux_state where
  "demux_start = \<lparr>ld_tick = 0, stdoutBuf = [], stderrBuf = [], stdoutW = [], stderrW = []\<rparr>"

text \<open>The reference: a line that carries its timestamp, in the format of the container runtime
  interface.\<close>

definition stamped :: "log_env \<Rightarrow> string \<Rightarrow> bool" where
  "stamped E line \<longleftrightarrow> (case strings_Cut space line of (b, a, ok) \<Rightarrow> ok \<and> rfc3339 E b)"

definition cri_format :: "string \<Rightarrow> string \<Rightarrow> string" where
  "cri_format streamType line =
     (case strings_Cut space line of (ts, msg, _) \<Rightarrow> ts @ [space] @ streamType @ '' F '' @ msg)"

lemma Cut_eq: "strings_Cut c s = (b, a, True) \<Longrightarrow> s = b @ c # a"
  by (induction s arbitrary: b) (auto split: if_splits prod.splits)

lemma cri_line_stamped:
  assumes "stamped E (p @ [newline])"
  shows "cri_line E t st (p @ [newline]) = cri_format st (p @ [newline])"
proof -
  obtain b a where c: "strings_Cut space (p @ [newline]) = (b, a, True)" and r: "rfc3339 E b"
    using assms by (auto simp: stamped_def split: prod.splits)
  from Cut_eq [OF c] have "\<exists>a'. a = a' @ [newline]"
    by (cases a rule: rev_cases) auto
  then have "strings_HasSuffix a [newline]" by (auto simp: HasSuffix_iff)
  with c r show ?thesis by (simp add: cri_line_def cri_format_def)
qed

lemma flush_reference:
  assumes "\<forall>l \<in> set (whole_lines accum). stamped E l" "\<forall>t. pipe_write_ok E t"
  shows "\<exists>t'. flush E st t accum out =
    (True, t', partial_line accum, out @ concat (map (cri_format st) (whole_lines accum)))"
  using assms
proof (induction E st t accum out rule: flush.induct)
  case (1 E st t accum out)
  show ?case
  proof (cases "IndexByte accum newline")
    case None
    then show ?thesis
      using whole_lines_none [of accum] IndexByte_None [of accum newline] by (subst flush.simps) simp
  next
    case (Some i)
    then obtain a b where b: "accum = a @ newline # b" "newline \<notin> set a" "i = length a"
      by (auto simp: IndexByte_Some)
    with 1(2,3) Some 1(1) [OF Some refl refl] show ?thesis
      by (subst flush.simps) (auto simp: whole_lines_newline cri_line_stamped)
  qed
qed

definition demux_done :: "string \<Rightarrow> string \<Rightarrow> demux_state \<Rightarrow> bool" where
  "demux_done o1 o2 d \<longleftrightarrow> stdoutBuf d = partial_line o1 \<and> stderrBuf d = partial_line o2 \<and>
     stdoutW d = concat (map (cri_format ''stdout'') (whole_lines o1)) \<and>
     stderrW d = concat (map (cri_format ''stderr'') (whole_lines o2))"

lemma demux_payload_reference:
  assumes "demux_done o1 o2 d" "\<forall>t. pipe_write_ok E t"
    and "\<forall>l \<in> set (whole_lines (if ty = 2 then o2 @ p else o1 @ p)). stamped E l"
  shows "\<exists>d'. demux_payload E ty p d = (True, d') \<and>
    demux_done (if ty = 2 then o1 else o1 @ p) (if ty = 2 then o2 @ p else o2) d'"
proof -
  let ?o = "if ty = 2 then o2 else o1" and ?st = "if ty = 2 then ''stderr'' else ''stdout''"
  have "\<forall>l \<in> set (whole_lines (?o @ p)). stamped E l" using assms(3) by (cases "ty = 2") auto
  then have "\<forall>l \<in> set (whole_lines (partial_line ?o @ p)). stamped E l"
    unfolding whole_lines_append [of ?o p] by simp
  from flush_reference [OF this assms(2)] obtain t' where
    "flush E ?st (ld_tick d) (partial_line ?o @ p) (if ty = 2 then stderrW d else stdoutW d) = (True, t', partial_line (partial_line ?o @ p),
        (if ty = 2 then stderrW d else stdoutW d) @ concat (map (cri_format ?st) (whole_lines (partial_line ?o @ p))))"
    by blast
  with assms(1) show ?thesis
    using partial_line_append [of o1 p] partial_line_append [of o2 p] whole_lines_append [of o1 p] whole_lines_append [of o2 p]
    by (cases "ty = 2") (simp_all add: demux_payload_def demux_done_def)
qed

lemma log_demux_reference:
  assumes "\<forall>f \<in> set fs. frame_ok f" "\<forall>t. pipe_write_ok E t"
    and "\<forall>l \<in> set (whole_lines (o1 @ payloads (\<lambda>t. t \<noteq> 2) fs)). stamped E l"
    and "\<forall>l \<in> set (whole_lines (o2 @ payloads (\<lambda>t. t = 2) fs)). stamped E l"
    and "demux_done o1 o2 d"
  shows "demux_done (o1 @ payloads (\<lambda>t. t \<noteq> 2) fs) (o2 @ payloads (\<lambda>t. t = 2) fs)
           (log_demux E \<lparr>rd_bytes = frames_bytes fs, rd_end = EOF\<rparr> d)"
  using assms
proof (induction fs arbitrary: o1 o2 d)
  case Nil
  then show ?case by (subst log_demux.simps) (simp add: ReadFull_def)
next
  case (Cons f fs)
  obtain ty p where f: "f = (ty, p)" by (cases f)
  let ?r = "\<lparr>rd_bytes = frames_bytes fs, rd_end = EOF\<rparr>"
  show ?case
  proof (cases "p = []")
    case True
    have "log_demux E \<lparr>rd_bytes = frames_bytes (f # fs), rd_end = EOF\<rparr> d = log_demux E ?r d"
      using Cons.prems(1) True f by (subst log_demux.simps) (simp add: ReadFull_header)
    with Cons.IH [of o1 o2 d] Cons.prems True f show ?thesis by simp
  next
    case False
    have "\<forall>l \<in> set (whole_lines (if ty = 2 then o2 @ p else o1 @ p)). stamped E l"
      using Cons.prems(3,4) f whole_lines_append [of "o1 @ p" "payloads (\<lambda>t. t \<noteq> 2) fs"]
        whole_lines_append [of "o2 @ p" "payloads (\<lambda>t. t = 2) fs"]
      by (cases "ty = 2") simp_all
    from demux_payload_reference [OF Cons.prems(5,2) this] obtain d' where
      d': "demux_payload E ty p d = (True, d')"
      "demux_done (if ty = 2 then o1 else o1 @ p) (if ty = 2 then o2 @ p else o2) d'" by blast
    have "log_demux E \<lparr>rd_bytes = frames_bytes (f # fs), rd_end = EOF\<rparr> d = log_demux E ?r d'"
      using Cons.prems(1) False f d'(1)
      by (subst log_demux.simps) (simp add: ReadFull_header ReadFull_payload)
    with Cons.IH [OF _ _ _ _ d'(2)] Cons.prems f show ?thesis by (cases "ty = 2") simp_all
  qed
qed

text \<open>
  C9. Docker's frames become the two log streams. For every sequence of frames whose lines carry
  a timestamp, and pipes that accept the writes, the demultiplexer writes to the error pipe
  exactly the whole lines of the payloads of type 2 and to the output pipe those of all other
  payloads, each in order and reformatted as timestamp, stream name, \<open>F\<close> and message, no matter
  where the frame boundaries fall; bytes of one stream never reach the other.
\<close>

theorem log_demux_correct:
  assumes "\<forall>f \<in> set fs. frame_ok f" "\<forall>t. pipe_write_ok E t"
    and "\<forall>l \<in> set (whole_lines (payloads (\<lambda>t. t \<noteq> 2) fs)). stamped E l"
    and "\<forall>l \<in> set (whole_lines (payloads (\<lambda>t. t = 2) fs)). stamped E l"
  shows "let d = log_demux E \<lparr>rd_bytes = frames_bytes fs, rd_end = EOF\<rparr> demux_start
     in stdoutW d = concat (map (cri_format ''stdout'') (whole_lines (payloads (\<lambda>t. t \<noteq> 2) fs))) \<and>
        stderrW d = concat (map (cri_format ''stderr'') (whole_lines (payloads (\<lambda>t. t = 2) fs)))"
proof -
  have "demux_done [] [] demux_start"
    by (simp add: demux_done_def demux_start_def whole_lines_def partial_line_def)
  from log_demux_reference [OF assms(1,2) _ _ this] assms(3,4) show ?thesis
    by (simp add: demux_done_def)
qed

theorem log_demux_correct_witness:
  "stdoutW (log_demux \<lparr>rfc3339 = (\<lambda>s. s = ''T''), now_text = (\<lambda>_. []), pipe_write_ok = (\<lambda>_. True)\<rparr>
     \<lparr>rd_bytes = frames_bytes [(1, ''T he''), (2, ''T x''), (1, ''y'' @ [newline])], rd_end = EOF\<rparr> demux_start) =
   ''T stdout F hey'' @ [newline]"
  using log_demux_correct [of "[(1, ''T he''), (2, ''T x''), (1, ''y'' @ [newline])]"
     "\<lparr>rfc3339 = (\<lambda>s. s = ''T''), now_text = (\<lambda>_. []), pipe_write_ok = (\<lambda>_. True)\<rparr>"]
  by (simp add: frame_ok_def whole_lines_def stamped_def cri_format_def Let_def)

end
