(* ===== verification/Support.thy ===== *)
theory Support
  imports Go_Strings Go_Prelude
begin

text \<open>
  The small parts every other component uses: the program's error value
  (\<^verbatim>\<open>src/pkg/nanokube/errors.go\<close>), waiting for several signals (\<^verbatim>\<open>sync.go\<close>) and the data
  directory (\<^verbatim>\<open>options.go\<close>).
\<close>

section \<open>Errors\<close>

record error_impl =
  ei_code :: int
  ei_err :: "error option"
  ei_command :: "string list"

definition NewError :: "error option \<Rightarrow> error_impl" where
  "NewError e = \<lparr>ei_code = -1, ei_err = e, ei_command = []\<rparr>"

definition WithCode :: "int \<Rightarrow> error_impl \<Rightarrow> error_impl" where
  "WithCode c e = e\<lparr>ei_code := c\<rparr>"

definition WithError :: "error option \<Rightarrow> error_impl \<Rightarrow> error_impl" where
  "WithError x e =
     (case x of
        None \<Rightarrow> e
      | Some x \<Rightarrow> (case ei_err e of None \<Rightarrow> e\<lparr>ei_err := Some x\<rparr> | Some y \<Rightarrow> e\<lparr>ei_err := Some (JoinE [y, x])\<rparr>))"

fun WithErrors :: "error option list \<Rightarrow> error_impl \<Rightarrow> error_impl" where
  "WithErrors [] e = e"
| "WithErrors (x # xs) e = WithErrors xs (WithError x e)"

definition WithCommand :: "string list \<Rightarrow> error_impl \<Rightarrow> error_impl" where
  "WithCommand c e = e\<lparr>ei_command := c\<rparr>"

definition ExitStatus :: "error_impl \<Rightarrow> int" where
  "ExitStatus e = ei_code e"

definition Exited :: "error_impl \<Rightarrow> bool" where
  "Exited e \<longleftrightarrow> ei_code e \<noteq> -1"

text \<open>The text of a wrapped error, for which \<^verbatim>\<open>%v\<close> is a parameter.\<close>

definition error_String :: "(error \<Rightarrow> string) \<Rightarrow> error_impl \<Rightarrow> string" where
  "error_String show e =
     (if ei_command e \<noteq> []
      then ''command '' @ strings_Join [space] (ei_command e) @ '' exited with code '' @ strconv_FormatInt (ei_code e) @
           (case ei_err e of None \<Rightarrow> [] | Some x \<Rightarrow> '': '' @ show x)
      else ''nanokube error: '' @ (case ei_err e of None \<Rightarrow> ''<nil>'' | Some x \<Rightarrow> show x) @
           '' (code: '' @ strconv_FormatInt (ei_code e) @ '')'')"

definition Unimplemented :: "string \<Rightarrow> ('s, 'a) go" where
  "Unimplemented name = go_panic (''unimplemented: '' @ name)"

text \<open>The errors an error value carries, in the order they were added.\<close>

fun error_parts :: "error \<Rightarrow> error list" where
  "error_parts (JoinE es) = concat (map error_parts es)"
| "error_parts e = [e]"

definition carried :: "error_impl \<Rightarrow> error list" where
  "carried e = (case ei_err e of None \<Rightarrow> [] | Some x \<Rightarrow> error_parts x)"

lemma carried_WithError: "carried (WithError x e) = carried e @ (case x of None \<Rightarrow> [] | Some x \<Rightarrow> error_parts x)"
  by (simp add: carried_def WithError_def split: option.splits)

lemma carried_WithErrors:
  "carried (WithErrors xs e) = carried e @ concat (map (\<lambda>x. case x of None \<Rightarrow> [] | Some x \<Rightarrow> error_parts x) xs)"
  by (induction xs arbitrary: e) (simp_all add: carried_WithError)

section \<open>Waiting for signals\<close>

text \<open>
  A signal is a channel that may be closed at some moment, and so is \<^verbatim>\<open>ctx.Done()\<close>: the moment it
  closes, or \<open>None\<close>. The goroutine of \<^verbatim>\<open>Await\<close> visits the signals in order; at each it waits for
  the signal or the context, whichever comes first, and on a tie the runtime picks one: the
  parameter \<open>pick\<close>, asked per signal. The result is the moment \<^verbatim>\<open>out\<close> is closed.
\<close>

type_synonym moment = "nat option"


fun Await_loop :: "(nat \<Rightarrow> bool) \<Rightarrow> moment \<Rightarrow> nat \<Rightarrow> moment list \<Rightarrow> moment" where
  "Await_loop pick done t [] = Some t"
| "Await_loop pick done t (sig # sigs) =
     (case (sig, done) of
        (None, None) \<Rightarrow> None
      | (None, Some d) \<Rightarrow> Some (max t d)
      | (Some s, None) \<Rightarrow> Await_loop pick done (max t s) sigs
      | (Some s, Some d) \<Rightarrow>
          if max t s < max t d \<or> (max t s = max t d \<and> pick (length sigs))
          then Await_loop pick done (max t s) sigs
          else Some (max t d))"

definition Await :: "(nat \<Rightarrow> bool) \<Rightarrow> moment \<Rightarrow> moment list \<Rightarrow> moment" where
  "Await pick done sigs = Await_loop pick done 0 sigs"

lemma Await_loop_done: "Await_loop pick (Some d) t sigs = Some u \<Longrightarrow> t \<le> u \<and> u \<le> max t d"
  by (induction sigs arbitrary: t) (fastforce simp: max_def split: option.splits if_splits)+

lemma Await_loop_returns: "\<exists>u. Await_loop pick (Some d) t sigs = Some u"
  by (induction sigs arbitrary: t) (auto split: option.splits)

lemma Await_loop_early:
  "Await_loop pick (Some d) t sigs = Some u \<Longrightarrow> u < d \<Longrightarrow> \<forall>s \<in> set sigs. \<exists>x \<le> u. s = Some x"
  by (induction sigs arbitrary: t)
     (force dest: Await_loop_done split: option.splits if_splits)+

lemma Await_loop_no_ctx:
  "Await_loop pick None t (map Some ts) = Some (fold max ts t)"
  by (induction ts arbitrary: t) (simp_all add: max.commute)

lemma Await_loop_stuck: "None \<in> set sigs \<Longrightarrow> Await_loop pick None t sigs = None"
  by (induction sigs arbitrary: t) (auto split: option.splits)

section \<open>The data directory\<close>

record options =
  opt_name :: string
  opt_verbosity :: int
  opt_dataDir :: string
  opt_dirs :: "(string \<times> string) list"
  opt_made :: "string list"

definition NewOptions :: "string \<Rightarrow> options" where
  "NewOptions home =
     (let dir = filepath_Join [home, ''.nanokube'']
      in \<lparr>opt_name = ''nanokube'', opt_verbosity = 0, opt_dataDir = dir, opt_dirs = [], opt_made = [dir]\<rparr>)"

text \<open>Flags of the command: a value is a list for slice flags.\<close>

datatype flag_value = SliceFlag "string list" | PlainFlag string

definition Args :: "(string \<times> flag_value) list \<Rightarrow> string list" where
  "Args flags = concat (map (\<lambda>(name, v).
     if name = ''help'' then []
     else (case v of
             SliceFlag vs \<Rightarrow> map (\<lambda>x. ''--'' @ name @ ''='' @ x) vs
           | PlainFlag x \<Rightarrow> [''--'' @ name @ ''='' @ x])) flags)"

definition DataDirAt :: "string \<Rightarrow> options \<Rightarrow> string \<times> options" where
  "DataDirAt name o1 =
     (case map_of (opt_dirs o1) name of
        Some dir \<Rightarrow> (dir, o1)
      | None \<Rightarrow>
          let dir = filepath_Join [opt_dataDir o1, name]
          in (dir, o1\<lparr>opt_made := opt_made o1 @ [dir], opt_dirs := AList.update name dir (opt_dirs o1)\<rparr>))"

definition FilePathAt :: "string \<Rightarrow> options \<Rightarrow> string \<times> options" where
  "FilePathAt file o1 =
     (let path = filepath_Join [opt_dataDir o1, file]
      in (path, o1\<lparr>opt_made := opt_made o1 @ [filepath_Dir path]\<rparr>))"

definition InDataDir :: "options \<Rightarrow> string \<Rightarrow> bool" where
  "InDataDir o1 path \<longleftrightarrow>
     (let clean = filepath_Clean path @ [slash]; dir = filepath_Clean (opt_dataDir o1) @ [slash]
      in strings_HasPrefix clean dir)"

text \<open>A memoised directory is the joined path.\<close>

definition dirs_ok :: "options \<Rightarrow> bool" where
  "dirs_ok o1 \<longleftrightarrow> (\<forall>n d. map_of (opt_dirs o1) n = Some d \<longrightarrow> d = filepath_Join [opt_dataDir o1, n])"

lemma DataDirAt_result:
  "dirs_ok o1 \<Longrightarrow> fst (DataDirAt n o1) = filepath_Join [opt_dataDir o1, n] \<and> dirs_ok (snd (DataDirAt n o1)) \<and>
     opt_dataDir (snd (DataDirAt n o1)) = opt_dataDir o1"
  by (auto simp: DataDirAt_def dirs_ok_def Let_def update_conv' split: option.splits)

text \<open>
  \<open>Await\<close> respects its context. When the context is done at some moment, the returned channel
  is closed, and no later than the context; if it closes before the context does, every signal
  has closed by then. Without the end of the context it closes exactly when the last signal
  closes, and never if one of them never does.
\<close>

theorem Await_correct:
  "(\<exists>u. Await pick (Some d) sigs = Some u \<and> u \<le> d \<and> (u < d \<longrightarrow> (\<forall>s \<in> set sigs. \<exists>x \<le> u. s = Some x))) \<and>
   Await pick None (map Some ts) = Some (fold max ts 0) \<and>
   (None \<in> set sigs \<longrightarrow> Await pick None sigs = None)"
proof -
  obtain u where u: "Await_loop pick (Some d) 0 sigs = Some u" using Await_loop_returns by blast
  with Await_loop_done [OF u] Await_loop_early [OF u] show ?thesis
    by (auto simp: Await_def Await_loop_no_ctx Await_loop_stuck)
qed

theorem Await_correct_witness:
  "Await (\<lambda>_. True) (Some 9) [Some 2, None] = Some 9 \<and> Await (\<lambda>_. True) None [Some 2, None] = None"
  using Await_correct [of "\<lambda>_. True" 9 "[Some 2, None]" "[]"] by (auto simp: Await_def)

section \<open>Paths inside the data directory\<close>

definition path_elems :: "string \<Rightarrow> string list" where
  "path_elems p = clean_elems (path_rooted p) [] (strings_Split slash p)"

lemma path_elems_ok: "e \<in> set (path_elems p) \<Longrightarrow> e \<noteq> [] \<and> slash \<notin> set e"
  using clean_elems_no_empty [of "[]" e "path_rooted p" "strings_Split slash p"]
    clean_elems_from [of "path_rooted p" "[]" "strings_Split slash p"] Split_no_sep [of e slash p]
  by (auto simp: path_elems_def)

lemma Split_Join_slash:
  "xs \<noteq> [] \<Longrightarrow> \<forall>x \<in> set xs. c \<notin> set x \<Longrightarrow> strings_Split c (strings_Join [c] xs @ c # r) = xs @ strings_Split c r"
  by (induction "[c]" xs rule: strings_Join.induct) (auto simp: Split_append)

lemma Join_prefix:
  assumes "ys \<noteq> []" "\<forall>y \<in> set ys. y \<noteq> [] \<and> c \<notin> set y" "\<forall>x \<in> set xs. x \<noteq> [] \<and> c \<notin> set x"
  shows "strings_HasPrefix (strings_Join [c] xs @ [c]) (strings_Join [c] ys @ [c]) \<longleftrightarrow> (\<exists>zs. xs = ys @ zs)"
proof
  assume "strings_HasPrefix (strings_Join [c] xs @ [c]) (strings_Join [c] ys @ [c])"
  then obtain r where r: "strings_Join [c] xs @ [c] = strings_Join [c] ys @ c # r" by (auto simp: HasPrefix_iff)
  have x: "strings_Split c (strings_Join [c] xs @ [c]) = (if xs = [] then [[]] else xs) @ [[]]"
    using Split_Join_slash [of xs c "[]"] assms(3) by simp
  have "strings_Split c (strings_Join [c] ys @ c # r) = ys @ strings_Split c r"
    using Split_Join_slash [OF assms(1)] assms(2) by blast
  then have e: "(if xs = [] then [[]] else xs) @ [[]] = ys @ strings_Split c r" using x r by simp
  have "xs \<noteq> []"
    using e assms(1,2) by (cases ys) auto
  then have "butlast (xs @ [[]]) = butlast (ys @ strings_Split c r)" using e by simp
  then have "xs = ys @ butlast (strings_Split c r)" by (simp add: butlast_append)
  then show "\<exists>zs. xs = ys @ zs" ..
next
  assume "\<exists>zs. xs = ys @ zs"
  then obtain zs where xs: "xs = ys @ zs" ..
  have "strings_Join [c] (ys @ z # zs) = strings_Join [c] ys @ c # strings_Join [c] (z # zs)" for z zs
    using assms(1) by (induction "[c]" ys rule: strings_Join.induct) auto
  then show "strings_HasPrefix (strings_Join [c] xs @ [c]) (strings_Join [c] ys @ [c])"
    by (cases zs) (auto simp: xs HasPrefix_iff)
qed

lemma Join_hd: "xs \<noteq> [] \<Longrightarrow> \<forall>x \<in> set xs. x \<noteq> [] \<Longrightarrow> strings_Join s xs \<noteq> [] \<and> hd (strings_Join s xs) = hd (hd xs)"
  by (induction s xs rule: strings_Join.induct) auto

lemma clean_rooted: "path_rooted p \<Longrightarrow> filepath_Clean p = slash # strings_Join [slash] (path_elems p)"
  by (simp add: filepath_Clean_def path_elems_def)

lemma clean_relative:
  assumes "\<not> path_rooted p"
  shows "filepath_Clean p \<noteq> [] \<and> hd (filepath_Clean p) \<noteq> slash"
proof (cases "path_elems p")
  case Nil
  then show ?thesis using assms by (simp add: filepath_Clean_def path_elems_def)
next
  case (Cons e es)
  have "\<forall>x \<in> set (path_elems p). x \<noteq> []" using path_elems_ok by blast
  with Join_hd [of "path_elems p" "[slash]"] Cons
  have "strings_Join [slash] (path_elems p) \<noteq> [] \<and> hd (strings_Join [slash] (path_elems p)) = hd e"
    by simp
  moreover have "hd e \<noteq> slash" using path_elems_ok [of e p] Cons by (cases e) auto
  ultimately show ?thesis using assms by (auto simp: filepath_Clean_def path_elems_def)
qed

text \<open>
  \<open>InDataDir\<close> is containment of paths. For an absolute data directory other than the root, a
  path is reported inside exactly when it is absolute and its elements, after resolving empty,
  \<open>.\<close> and \<open>..\<close> elements, begin with those of the data directory. So neither a sibling whose name
  starts with the directory's name nor a path that leaves it by \<open>..\<close> is reported inside.
\<close>

theorem InDataDir_correct:
  assumes "path_rooted (opt_dataDir o1)" "path_elems (opt_dataDir o1) \<noteq> []"
  shows "InDataDir o1 p \<longleftrightarrow> path_rooted p \<and> (\<exists>zs. path_elems p = path_elems (opt_dataDir o1) @ zs)"
proof (cases "path_rooted p")
  case True
  have "strings_HasPrefix (c # a) (c # b) = strings_HasPrefix a b" for c a b
    by (simp add: HasPrefix_iff)
  then show ?thesis
    using True assms path_elems_ok
      Join_prefix [of "path_elems (opt_dataDir o1)" slash "path_elems p"]
    by (simp add: InDataDir_def Let_def clean_rooted)
next
  case False
  with clean_relative [OF False] assms(1) show ?thesis
    by (cases "filepath_Clean p") (auto simp: InDataDir_def Let_def clean_rooted HasPrefix_iff)
qed

theorem InDataDir_correct_witness:
  "InDataDir (NewOptions ''/home/u'') ''/home/u/.nanokube/x/../logs'' \<and> \<not> InDataDir (NewOptions ''/home/u'') ''/home/u/.nanokube/../k''"
proof -
  have d: "path_rooted (opt_dataDir (NewOptions ''/home/u''))" "path_elems (opt_dataDir (NewOptions ''/home/u'')) = [''home'', ''u'', ''.nanokube'']"
    by (simp_all add: NewOptions_def filepath_Join_def filepath_Clean_def path_rooted_def path_elems_def Let_def)
  show ?thesis
    using InDataDir_correct [of "NewOptions ''/home/u''" "''/home/u/.nanokube/x/../logs''"]
      InDataDir_correct [of "NewOptions ''/home/u''" "''/home/u/.nanokube/../k''"] d
    by (simp add: path_elems_def path_rooted_def)
qed

end
