(* ===== verification/Streams.thy ===== *)
theory Streams
  imports Frames Support
begin

text \<open>
  Streaming sessions (\<^verbatim>\<open>src/pkg/nanokube/streams.go\<close>): the registry of streams, a stream with its
  request and handler, the dispatch of a connection, the three entry points that run a handler
  and translate its result, the proxy that splits a container's output, and the terminal
  resizer. A handler is closed over by the driver; here it is the value that its channel finally
  delivers.
\<close>

section \<open>Streams and their results\<close>

record done_value =
  done_Code :: int
  done_Err :: "error option"

definition done_zero :: done_value where
  "done_zero = \<lparr>done_Code = 0, done_Err = None\<rparr>"

text \<open>A request and the handler installed with it. The fields the dispatch reads are the command,
  the terminal flag and the ports.\<close>

record stream_request =
  sr_cmd :: "string list"
  sr_tty :: bool
  sr_ports :: "int list"

record stream =
  stream_id :: string
  stream_timeout :: int
  doneReady :: bool
  doneValue :: done_value
  st_exec :: "stream_request option"
  execHandler :: "(int \<Rightarrow> done_value) option"
  st_attach :: "stream_request option"
  attachHandler :: "(unit \<Rightarrow> done_value) option"
  st_forward :: "stream_request option"
  forwardHandler :: "(int \<Rightarrow> done_value) option"

definition new_stream :: "string \<Rightarrow> stream" where
  "new_stream i =
     \<lparr>stream_id = i, stream_timeout = 0, doneReady = False, doneValue = done_zero,
      st_exec = None, execHandler = None, st_attach = None, attachHandler = None,
      st_forward = None, forwardHandler = None\<rparr>"

definition WithExec :: "stream_request \<Rightarrow> (int \<Rightarrow> done_value) \<Rightarrow> stream \<Rightarrow> stream" where
  "WithExec r h s = s\<lparr>st_exec := Some r, execHandler := Some h\<rparr>"

definition WithAttach :: "stream_request \<Rightarrow> (unit \<Rightarrow> done_value) \<Rightarrow> stream \<Rightarrow> stream" where
  "WithAttach r h s = s\<lparr>st_attach := Some r, attachHandler := Some h\<rparr>"

definition WithForward :: "stream_request \<Rightarrow> (int \<Rightarrow> done_value) \<Rightarrow> stream \<Rightarrow> stream" where
  "WithForward r h s = s\<lparr>st_forward := Some r, forwardHandler := Some h\<rparr>"

definition stream_WithTimeout :: "int \<Rightarrow> stream \<Rightarrow> stream" where
  "stream_WithTimeout t s = s\<lparr>stream_timeout := t\<rparr>"

text \<open>The goroutine of \<^verbatim>\<open>WithDone\<close>: it stores the value and closes \<^verbatim>\<open>doneReady\<close>. Closing a closed
  channel panics.\<close>

definition WithDone :: "done_value \<Rightarrow> (stream, unit) go" where
  "WithDone v s =
     (if doneReady s then (Panic ''close of closed channel'', s\<lparr>doneValue := v\<rparr>)
      else (Ret (), s\<lparr>doneValue := v, doneReady := True\<rparr>))"

text \<open>Receiving from \<^verbatim>\<open>Done()\<close>.\<close>

definition stream_Done :: "(stream, done_value) go" where
  "stream_Done s = (if doneReady s then (Ret (doneValue s), s) else (Blocked, s))"

datatype stream_error = PlainError error | ImplError error_impl

definition done_error :: "done_value \<Rightarrow> stream_error option" where
  "done_error d = (case done_Err d of None \<Rightarrow> None | Some e \<Rightarrow> Some (ImplError (WithCode (done_Code d) (NewError (Some e)))))"

definition run_handler :: "done_value \<Rightarrow> (stream, stream_error option) go" where
  "run_handler v = go_bind (WithDone v) (\<lambda>_. go_bind stream_Done (\<lambda>d. go_ret (done_error d)))"

definition not_configured :: "stream \<Rightarrow> string \<Rightarrow> stream_error option" where
  "not_configured s what = Some (PlainError (Errorf (''stream '' @ stream_id s @ '': '' @ what @ '' handler not configured'')))"

definition AttachContainer :: "(stream, stream_error option) go" where
  "AttachContainer s =
     (case (st_attach s, attachHandler s) of
        (Some _, Some h) \<Rightarrow> run_handler (h ()) s
      | _ \<Rightarrow> (Ret (not_configured s ''attach''), s))"

definition ExecInContainer :: "int \<Rightarrow> (stream, stream_error option) go" where
  "ExecInContainer timeout s =
     (case (st_exec s, execHandler s) of
        (Some _, Some h) \<Rightarrow> run_handler (h (if timeout \<le> 0 then stream_timeout s else timeout)) s
      | _ \<Rightarrow> (Ret (not_configured s ''exec''), s))"

definition PortForward :: "int \<Rightarrow> (stream, stream_error option) go" where
  "PortForward port s =
     (case (st_forward s, forwardHandler s) of
        (Some _, Some h) \<Rightarrow> run_handler (h port) s
      | _ \<Rightarrow> (Ret (not_configured s ''forward''), s))"

section \<open>Dispatch and registry\<close>

text \<open>Which protocol server a connection is given to.\<close>

datatype served =
    ServeExec "string list" bool int
  | ServeAttach bool int
  | ServePortForward "int list" int
  | HTTPError int string

definition Handle :: "stream \<Rightarrow> served" where
  "Handle s =
     (case st_exec s of
        Some r \<Rightarrow> ServeExec (sr_cmd r) (sr_tty r) (stream_timeout s)
      | None \<Rightarrow>
          (case st_attach s of
             Some r \<Rightarrow> ServeAttach (sr_tty r) (stream_timeout s)
           | None \<Rightarrow>
               (case st_forward s of
                  Some r \<Rightarrow> ServePortForward (sr_ports r) (stream_timeout s)
                | None \<Rightarrow> HTTPError 500 (''stream '' @ stream_id s @ '': no exec/attach/forward handler configured''))))"

type_synonym streams = "(string \<times> stream) list"

text \<open>\<^verbatim>\<open>uuid.NewString()\<close> is the argument of \<open>streams_New\<close>.\<close>

definition streams_New :: "string \<Rightarrow> streams \<Rightarrow> stream \<times> streams" where
  "streams_New uuid m = (new_stream uuid, AList.update uuid (new_stream uuid) m)"

definition four_hours :: int where
  "four_hours = 4 * 3600 * 1000000000"

text \<open>The request handler of the web service, and the goroutine that forgets a stream once its
  handler is done.\<close>

definition service_handler :: "string \<Rightarrow> streams \<Rightarrow> served \<times> streams" where
  "service_handler i m =
     (case map_of m i of
        None \<Rightarrow> (HTTPError 404 (''stream '' @ i @ '' not found''), m)
      | Some s \<Rightarrow> let s' = stream_WithTimeout four_hours s in (Handle s', AList.update i s' m))"

definition forget_done :: "string \<Rightarrow> streams \<Rightarrow> streams" where
  "forget_done i m = (case map_of m i of Some s \<Rightarrow> if doneReady s then AList.delete i m else m | None \<Rightarrow> m)"

definition stream_URL :: "string \<Rightarrow> stream \<Rightarrow> string" where
  "stream_URL baseURL s = baseURL @ ''/streams/'' @ stream_id s"

section \<open>The output proxy\<close>

text \<open>Where the two output streams go: writing may fail, on a state of its own.\<close>

record 'w sinks =
  out_write :: "string \<Rightarrow> 'w \<Rightarrow> error option \<times> 'w"
  err_write :: "string \<Rightarrow> 'w \<Rightarrow> error option \<times> 'w"

definition discard :: "string \<Rightarrow> 'w \<Rightarrow> error option \<times> 'w" where
  "discard p w = (None, w)"

definition frame_dst :: "'w sinks \<Rightarrow> bool \<Rightarrow> bool \<Rightarrow> nat \<Rightarrow> string \<Rightarrow> 'w \<Rightarrow> error option \<times> 'w" where
  "frame_dst S so se ty =
     (if ty = 1 then (if so then out_write S else discard)
      else if ty = 2 then (if se then err_write S else discard)
      else discard)"

function proxy_frames :: "'w sinks \<Rightarrow> bool \<Rightarrow> bool \<Rightarrow> reader \<Rightarrow> 'w \<Rightarrow> error option \<times> 'w" where
  "proxy_frames S so se r w =
     (case ReadFull 8 r of
        (Inl e, _) \<Rightarrow> (if IsEOF e then None else Some e, w)
      | (Inr header, r1) \<Rightarrow>
          (case ReadFull (header_size header) r1 of
             (Inl e, _) \<Rightarrow> (Some e, w)
           | (Inr payload, r2) \<Rightarrow>
               (case frame_dst S so se (header_type header) payload w of
                  (Some e, w') \<Rightarrow> (Some e, w')
                | (None, w') \<Rightarrow> proxy_frames S so se r2 w')))"
  by auto
termination
  by (relation "measure (\<lambda>(S, so, se, r, w). length (rd_bytes r))")
     (auto dest!: ReadFull_Inr_length [OF sym] ReadFull_Inr_length)

declare proxy_frames.simps [simp del]

text \<open>\<^verbatim>\<open>io.Copy\<close> in one piece: all bytes, then the reader's error unless it is end-of-file.\<close>

definition io_Copy :: "(string \<Rightarrow> 'w \<Rightarrow> error option \<times> 'w) \<Rightarrow> reader \<Rightarrow> 'w \<Rightarrow> error option \<times> 'w" where
  "io_Copy dst r w =
     (case (if rd_bytes r = [] then (None, w) else dst (rd_bytes r) w) of
        (Some e, w') \<Rightarrow> (Some e, w')
      | (None, w') \<Rightarrow> (if rd_end r = EOF then None else Some (rd_end r), w'))"

definition proxy_output :: "'w sinks \<Rightarrow> bool \<Rightarrow> bool \<Rightarrow> bool \<Rightarrow> reader \<Rightarrow> 'w \<Rightarrow> error option \<times> 'w" where
  "proxy_output S tty so se r w =
     (if tty then io_Copy (if so then out_write S else discard) r w else proxy_frames S so se r w)"

text \<open>The input side: what is sent on the connection, and whether its write half is closed.\<close>

definition proxy_stdin :: "bool \<Rightarrow> string \<Rightarrow> string \<times> bool" where
  "proxy_stdin stdin inp = (if stdin then (inp, True) else ([], False))"

definition ProxyStream :: "'w sinks \<Rightarrow> bool \<Rightarrow> bool \<Rightarrow> bool \<Rightarrow> reader \<Rightarrow> 'w \<Rightarrow> error option \<times> 'w" where
  "ProxyStream S tty so se r w =
     (case proxy_output S tty so se r w of
        (None, w') \<Rightarrow> (None, w')
      | (Some e, w') \<Rightarrow> (Some (Wrapf ''output'' e), w'))"

section \<open>The resizer\<close>

record resizer =
  rz_size :: "nat \<times> nat"
  rz_console :: "(nat \<times> nat) option"
  rz_handler :: bool
  rz_calls :: "(nat \<times> nat) list"

definition resizer_new :: resizer where
  "resizer_new = \<lparr>rz_size = (0, 0), rz_console = None, rz_handler = False, rz_calls = []\<rparr>"

text \<open>Sizes are (height, width); \<open>rz_calls\<close> are the calls made to the installed handler.\<close>

definition rz_update :: "nat \<times> nat \<Rightarrow> resizer \<Rightarrow> resizer" where
  "rz_update sz r =
     (let r1 = r\<lparr>rz_size := sz, rz_console := Some sz\<rparr>
      in if rz_handler r1 then r1\<lparr>rz_calls := rz_calls r1 @ [sz]\<rparr> else r1)"

definition rz_WithHandler :: "bool \<Rightarrow> resizer \<Rightarrow> resizer" where
  "rz_WithHandler h r =
     (let r1 = r\<lparr>rz_handler := h, rz_calls := []\<rparr>
      in if h \<and> rz_console r \<noteq> None then r1\<lparr>rz_calls := [rz_size r]\<rparr> else r1)"

text \<open>The goroutine of \<^verbatim>\<open>Resizer\<close>: an optional first size within the initial wait, then all others
  until the channel closes or the context ends.\<close>

definition Resizer :: "(nat \<times> nat) option \<Rightarrow> resizer" where
  "Resizer first = (case first of None \<Rightarrow> resizer_new | Some s \<Rightarrow> rz_update s resizer_new)"

definition resizer_loop :: "(nat \<times> nat) list \<Rightarrow> resizer \<Rightarrow> resizer" where
  "resizer_loop szs r = fold rz_update szs r"

section \<open>What the proxy delivers\<close>

text \<open>The reference: the frames written one after the other to where their type says.\<close>

fun deliver :: "'w sinks \<Rightarrow> bool \<Rightarrow> bool \<Rightarrow> frame list \<Rightarrow> 'w \<Rightarrow> error option \<times> 'w" where
  "deliver S so se [] w = (None, w)"
| "deliver S so se (f # fs) w =
     (case frame_dst S so se (fst f) (snd f) w of
        (Some e, w') \<Rightarrow> (Some e, w')
      | (None, w') \<Rightarrow> deliver S so se fs w')"

text \<open>What the proxy makes of bytes that are no frame: a clean end between frames is no error.\<close>

lemma proxy_frames_deliver:
  "\<forall>f \<in> set fs. frame_ok f \<Longrightarrow>
   proxy_frames S so se \<lparr>rd_bytes = frames_bytes fs @ t, rd_end = e\<rparr> w =
     (case deliver S so se fs w of
        (Some x, w') \<Rightarrow> (Some x, w')
      | (None, w') \<Rightarrow> proxy_frames S so se \<lparr>rd_bytes = t, rd_end = e\<rparr> w')"
proof (induction fs arbitrary: w)
  case (Cons f fs)
  then show ?case
    by (subst proxy_frames.simps)
       (auto simp: ReadFull_header ReadFull_payload split: prod.splits option.splits)
qed simp

lemma proxy_frames_end: "proxy_frames S so se \<lparr>rd_bytes = [], rd_end = EOF\<rparr> w = (None, w)"
  by (subst proxy_frames.simps) (simp add: ReadFull_def IsEOF_def)

lemma proxy_frames_cut_header:
  "t \<noteq> [] \<Longrightarrow> length t < 8 \<Longrightarrow> proxy_frames S so se \<lparr>rd_bytes = t, rd_end = EOF\<rparr> w = (Some ErrUnexpectedEOF, w)"
  by (subst proxy_frames.simps) (simp add: ReadFull_def IsEOF_def)

lemma proxy_frames_cut_payload:
  assumes "frame_ok f" "k < length (snd f)"
  shows "fst (proxy_frames S so se \<lparr>rd_bytes = frame_header f @ take k (snd f), rd_end = EOF\<rparr> w) \<noteq> None"
  using assms by (subst proxy_frames.simps) (simp add: ReadFull_header, simp add: ReadFull_def)

definition buffers :: "(string \<times> string) sinks" where
  "buffers = \<lparr>out_write = (\<lambda>p (o1, e). (None, (o1 @ p, e))), err_write = (\<lambda>p (o1, e). (None, (o1, e @ p)))\<rparr>"

lemma deliver_buffers:
  "deliver buffers so se fs (o1, e) =
     (None, (o1 @ (if so then payloads (\<lambda>t. t = 1) fs else []), e @ (if se then payloads (\<lambda>t. t = 2) fs else [])))"
  by (induction fs arbitrary: o1 e) (auto simp: frame_dst_def buffers_def discard_def)

text \<open>
  C25. The output of a container without a terminal is split exactly. A connection that carries any
  sequence of frames and then ends gives standard output the payloads of type 1 and standard
  error those of type 2, in order and only if the client asked for them, and no error; a
  connection that ends inside a frame gives an error and never a silent truncation, after the
  whole frames before it were delivered.
\<close>

theorem proxy_splits_output:
  assumes "\<forall>f \<in> set fs. frame_ok f"
  shows "ProxyStream buffers False so se \<lparr>rd_bytes = frames_bytes fs, rd_end = EOF\<rparr> ([], []) =
      (None, (if so then payloads (\<lambda>t. t = 1) fs else [], if se then payloads (\<lambda>t. t = 2) fs else [])) \<and>
    (\<forall>t. t \<noteq> [] \<and> length t < 8 \<longrightarrow>
      ProxyStream buffers False so se \<lparr>rd_bytes = frames_bytes fs @ t, rd_end = EOF\<rparr> ([], []) =
      (Some (Wrapf ''output'' ErrUnexpectedEOF), (if so then payloads (\<lambda>t. t = 1) fs else [], if se then payloads (\<lambda>t. t = 2) fs else []))) \<and>
    (\<forall>f k. frame_ok f \<and> k < length (snd f) \<longrightarrow>
      fst (ProxyStream buffers False so se \<lparr>rd_bytes = frames_bytes fs @ frame_header f @ take k (snd f), rd_end = EOF\<rparr> ([], [])) \<noteq> None)"
proof -
  note d = proxy_frames_deliver [OF assms, of buffers so se _ EOF "([], [])", unfolded deliver_buffers, simplified]
  have p: "ProxyStream buffers False so se r w =
      (map_option (Wrapf ''output'') (fst (proxy_frames buffers so se r w)), snd (proxy_frames buffers so se r w))" for r w
    by (simp add: ProxyStream_def proxy_output_def split: prod.splits option.splits)
  have cut: "fst (ProxyStream buffers False so se \<lparr>rd_bytes = frames_bytes fs @ frame_header f @ take k (snd f), rd_end = EOF\<rparr> ([], [])) \<noteq> None"
    if "frame_ok f" "k < length (snd f)" for f k
    unfolding p d using proxy_frames_cut_payload [OF that, of buffers] by simp
  have clean: "ProxyStream buffers False so se \<lparr>rd_bytes = frames_bytes fs, rd_end = EOF\<rparr> ([], []) =
      (None, (if so then payloads (\<lambda>t. t = 1) fs else [], if se then payloads (\<lambda>t. t = 2) fs else []))"
    using d [of "[]"] by (simp add: p proxy_frames_end)
  have header: "ProxyStream buffers False so se \<lparr>rd_bytes = frames_bytes fs @ t, rd_end = EOF\<rparr> ([], []) =
      (Some (Wrapf ''output'' ErrUnexpectedEOF), (if so then payloads (\<lambda>t. t = 1) fs else [], if se then payloads (\<lambda>t. t = 2) fs else []))"
    if "t \<noteq> []" "length t < 8" for t
    unfolding p d proxy_frames_cut_header [OF that] by simp
  show ?thesis using clean header cut by blast
qed

theorem proxy_splits_output_witness:
  "ProxyStream buffers False True True \<lparr>rd_bytes = frames_bytes [(1, ''a''), (2, ''b''), (1, ''c'')], rd_end = EOF\<rparr> ([], []) =
     (None, (''ac'', ''b''))"
  using proxy_splits_output [of "[(1, ''a''), (2, ''b''), (1, ''c'')]" True True] by (simp add: frame_ok_def)

section \<open>One handler per stream\<close>

lemma run_handler_fresh:
  "\<not> doneReady s \<Longrightarrow> run_handler v s = (Ret (done_error v), s\<lparr>doneValue := v, doneReady := True\<rparr>)"
  by (simp add: run_handler_def go_bind_def WithDone_def stream_Done_def)

lemma run_handler_used: "doneReady s \<Longrightarrow> fst (run_handler v s) = Panic ''close of closed channel''"
  by (simp add: run_handler_def go_bind_def WithDone_def)



section \<open>The newest size reaches the handler\<close>

definition rz_inv :: "resizer \<Rightarrow> bool" where
  "rz_inv r \<longleftrightarrow> (rz_handler r \<longrightarrow> (case rz_console r of None \<Rightarrow> rz_calls r = []
     | Some sz \<Rightarrow> sz = rz_size r \<and> rz_calls r \<noteq> [] \<and> last (rz_calls r) = sz)) \<and>
     (rz_console r \<noteq> None \<longrightarrow> rz_console r = Some (rz_size r))"

datatype rz_op = RzUpdate "nat \<times> nat" | RzHandler bool

fun rz_step :: "rz_op \<Rightarrow> resizer \<Rightarrow> resizer" where
  "rz_step (RzUpdate s) r = rz_update s r"
| "rz_step (RzHandler h) r = rz_WithHandler h r"

lemma rz_inv_step: "rz_inv r \<Longrightarrow> rz_inv (rz_step op r)"
  by (cases op) (auto simp: rz_inv_def rz_update_def rz_WithHandler_def Let_def split: option.splits)

interpretation resizers: invariant_system "\<lambda>s t. \<exists>op. t = rz_step op s" resizer_new rz_inv
  by unfold_locales (auto simp: rz_inv_step, simp add: rz_inv_def resizer_new_def)

lemma rz_reaches: "reaches (\<lambda>s t. \<exists>op. t = rz_step op s) s (fold rz_step ops s)"
proof (induction ops rule: rev_induct)
  case (snoc op ops)
  then show ?case by (auto intro: reaches_step)
qed simp

lemma rz_console_fold:
  "RzUpdate sz \<in> set ops \<Longrightarrow> rz_console (fold rz_step ops r) \<noteq> None"
proof (induction ops arbitrary: r)
  case (Cons op ops)
  have keep: "rz_console r \<noteq> None \<Longrightarrow> rz_console (fold rz_step ops r) \<noteq> None" for r ops
  proof (induction ops arbitrary: r)
    case (Cons op ops)
    have "rz_console (rz_step op r) \<noteq> None"
      using Cons.prems by (cases op) (auto simp: rz_update_def rz_WithHandler_def Let_def)
    then show ?case using Cons.IH by simp
  qed simp
  show ?case
  proof (cases "op = RzUpdate sz")
    case True
    have "rz_console (rz_step op r) \<noteq> None" by (simp add: True rz_update_def Let_def)
    then show ?thesis using keep by simp
  qed (use Cons in auto)
qed simp

text \<open>
  A terminal handler has the newest size as long as updates and installations do not overlap (\<open>Session_Run\<close>
  takes them apart at the mutex). After any sequence of size events and handler
  installations in which at least one size arrived, an installed handler has been called, and
  its last call carried the size of the last event, whether the handler came before or after it.
\<close>

theorem resizer_newest_size:
  fixes ops :: "rz_op list"
  defines "r \<equiv> fold rz_step ops resizer_new"
  assumes "RzUpdate sz \<in> set ops" "rz_handler r"
  shows "rz_calls r \<noteq> [] \<and> last (rz_calls r) = rz_size r"
proof -
  have "rz_inv r" unfolding r_def by (rule resizers.inv_reaches [OF rz_reaches])
  moreover have "rz_console r \<noteq> None" unfolding r_def by (rule rz_console_fold [OF assms(2)])
  ultimately show ?thesis using assms(3) by (auto simp: rz_inv_def)
qed

theorem resizer_newest_size_witness:
  "last (rz_calls (fold rz_step [RzUpdate (24, 80), RzHandler True] resizer_new)) = (24, 80)"
  using resizer_newest_size [of "(24, 80)" "[RzUpdate (24, 80), RzHandler True]"]
  by (simp add: rz_update_def rz_WithHandler_def resizer_new_def Let_def)

end
