(* ===== verification/Bidi_Pipe.thy ===== *)
theory Bidi_Pipe
  imports Go_Prelude
begin

text \<open>
  The in-memory stream of \<^verbatim>\<open>src/pkg/storage/stream.go\<close> that joins the etcd client to the embedded
  server: two buffered channels, a context, and the goroutine that runs the server's handler. A
  call that is waiting in a \<^verbatim>\<open>select\<close> proceeds by one of its ready cases, so the calls are the
  rules of a step relation over the shared pipe, one rule per case. The history fields record
  what each side has sent and received, and what the client was told at the end of the stream.
\<close>

definition pipe_cap :: nat where
  "pipe_cap = 16"

record ('q, 'p) pipe =
  ctx_done :: bool
  reqs :: "'q list"
  reqs_closed :: bool
  resps :: "'p list"
  resps_closed :: bool
  handler_running :: bool
  pipe_err :: "error option"
  sent_reqs :: "'q list"
  recv_reqs :: "'q list"
  sent_resps :: "'p list"
  recv_resps :: "'p list"
  client_end :: "error option"
  pipe_panic :: bool

definition spawnStream :: "('q, 'p) pipe" where
  "spawnStream =
     \<lparr>ctx_done = False, reqs = [], reqs_closed = False, resps = [], resps_closed = False,
      handler_running = True, pipe_err = None, sent_reqs = [], recv_reqs = [], sent_resps = [],
      recv_resps = [], client_end = None, pipe_panic = False\<rparr>"

inductive pipe_step :: "('q, 'p) pipe \<Rightarrow> ('q, 'p) pipe \<Rightarrow> bool" where
  client_Send: "\<not> reqs_closed s \<Longrightarrow> length (reqs s) < pipe_cap \<Longrightarrow>
     pipe_step s (s\<lparr>reqs := reqs s @ [q], sent_reqs := sent_reqs s @ [q]\<rparr>)"
| client_Send_closed: "reqs_closed s \<Longrightarrow> pipe_step s (s\<lparr>pipe_panic := True\<rparr>)"
| client_Send_done: "ctx_done s \<Longrightarrow> pipe_step s s"
| client_Recv: "resps s = p # ps \<Longrightarrow> pipe_step s (s\<lparr>resps := ps, recv_resps := recv_resps s @ [p]\<rparr>)"
| client_Recv_end: "resps s = [] \<Longrightarrow> resps_closed s \<Longrightarrow>
     pipe_step s (s\<lparr>client_end := Some (case pipe_err s of None \<Rightarrow> EOF | Some e \<Rightarrow> e)\<rparr>)"
| client_Recv_done: "ctx_done s \<Longrightarrow> pipe_step s s"
| client_CloseSend: "pipe_step s (s\<lparr>reqs_closed := True\<rparr>)"
| server_Send: "handler_running s \<Longrightarrow> length (resps s) < pipe_cap \<Longrightarrow>
     pipe_step s (s\<lparr>resps := resps s @ [p], sent_resps := sent_resps s @ [p]\<rparr>)"
| server_Recv: "handler_running s \<Longrightarrow> reqs s = q # qs \<Longrightarrow>
     pipe_step s (s\<lparr>reqs := qs, recv_reqs := recv_reqs s @ [q]\<rparr>)"
| server_Recv_end: "handler_running s \<Longrightarrow> reqs s = [] \<Longrightarrow> reqs_closed s \<Longrightarrow> pipe_step s s"
| server_done: "handler_running s \<Longrightarrow> ctx_done s \<Longrightarrow> pipe_step s s"
| handler_return: "handler_running s \<Longrightarrow>
     pipe_step s (s\<lparr>handler_running := False, pipe_err := e, resps_closed := True\<rparr>)"
| cancel: "pipe_step s (s\<lparr>ctx_done := True\<rparr>)"

inductive_cases pipe_stepE: "pipe_step s t"

definition pipe_inv :: "('q, 'p) pipe \<Rightarrow> bool" where
  "pipe_inv s \<longleftrightarrow> sent_reqs s = recv_reqs s @ reqs s \<and> sent_resps s = recv_resps s @ resps s \<and>
     length (reqs s) \<le> pipe_cap \<and> length (resps s) \<le> pipe_cap \<and>
     (resps_closed s \<longleftrightarrow> \<not> handler_running s) \<and> (pipe_panic s \<longrightarrow> reqs_closed s) \<and>
     (case client_end s of None \<Rightarrow> True
      | Some e \<Rightarrow> resps_closed s \<and> resps s = [] \<and> e = (case pipe_err s of None \<Rightarrow> EOF | Some x \<Rightarrow> x))"

lemma pipe_inv_step: "pipe_step s t \<Longrightarrow> pipe_inv s \<Longrightarrow> pipe_inv t"
  by (induction rule: pipe_step.induct) (auto simp: pipe_inv_def split: option.splits)

interpretation pipes: invariant_system pipe_step spawnStream pipe_inv
  by unfold_locales (auto simp: pipe_inv_step, simp add: pipe_inv_def spawnStream_def)

text \<open>
  C23. The pipe is two bounded first-in-first-out channels. In every interleaving of the client, the
  server's handler, cancellation and the end of the handler: what the handler received is a
  prefix of what the client sent, and what the client received is a prefix of what the handler
  sent, each in order and without loss or duplication; never more than 16 messages are in flight
  each way; and the client is told the stream is over only after the handler has returned and
  every response was received, with the handler's error, or end-of-file when it had none.
\<close>

theorem bidi_pipe_fifo:
  assumes "reaches pipe_step spawnStream s"
  shows "sent_reqs s = recv_reqs s @ reqs s \<and> length (reqs s) \<le> 16 \<and>
    sent_resps s = recv_resps s @ resps s \<and> length (resps s) \<le> 16 \<and>
    (\<forall>e. client_end s = Some e \<longrightarrow> \<not> handler_running s \<and> recv_resps s = sent_resps s \<and>
       e = (case pipe_err s of None \<Rightarrow> EOF | Some x \<Rightarrow> x))"
  using pipes.inv_reaches [OF assms] by (auto simp: pipe_inv_def pipe_cap_def)

theorem bidi_pipe_fifo_witness:
  "\<exists>s :: (nat, nat) pipe. reaches pipe_step spawnStream s \<and> sent_reqs s = [7] \<and> sent_reqs s = recv_reqs s @ reqs s"
proof -
  let ?s = "(spawnStream :: (nat, nat) pipe)\<lparr>reqs := [7], sent_reqs := [7]\<rparr>"
  have "pipe_step spawnStream ?s"
    using client_Send [of "spawnStream :: (nat, nat) pipe" 7] by (simp add: spawnStream_def pipe_cap_def)
  then have r: "reaches pipe_step spawnStream ?s" using reaches_step reaches_refl by metis
  with bidi_pipe_fifo [OF r] show ?thesis by (intro exI [of _ ?s]) simp
qed


end
