(* ===== verification/Etcd_Client.thy ===== *)
theory Etcd_Client
  imports Bidi_Pipe
begin

text \<open>
  The in-process etcd client of \<^verbatim>\<open>src/pkg/storage/client.go\<close>. Each of the six server interfaces is
  behind a gate: a channel that is closed when the server is provided. A call waits for the gate
  or for the end of its context and then calls the server, which is library code and a
  parameter: a function of the method, the request and a world. \<open>None\<close> inside a gate is a nil
  server.
\<close>

type_synonym ('m, 'w) rpc_server = "'m \<Rightarrow> string \<Rightarrow> 'w \<Rightarrow> (error + string) \<times> 'w"

text \<open>A gate is \<open>None\<close> while its channel is open.\<close>

type_synonym ('m, 'w) gate = "('m, 'w) rpc_server option option"

datatype kv_method = Range | Put | DeleteRange | Txn | Compact
datatype watch_method = Watch
datatype lease_method = LeaseGrant | LeaseRevoke | LeaseTimeToLive | LeaseLeases | LeaseKeepAlive
datatype maintenance_method = Alarm | Status | Defragment | Hash | HashKV | MoveLeader | Downgrade
datatype cluster_method = MemberAdd | MemberRemove | MemberUpdate | MemberList | MemberPromote
datatype auth_method =
    AuthEnable | AuthDisable | AuthStatus | Authenticate | UserAdd | UserGet | UserList
  | UserDelete | UserChangePassword | UserGrantRole | UserRevokeRole | RoleAdd | RoleGet
  | RoleList | RoleDelete | RoleGrantPermission | RoleRevokePermission

record 'w etcd_client =
  ec_kv :: "(kv_method, 'w) gate"
  ec_watch :: "(watch_method, 'w) gate"
  ec_lease :: "(lease_method, 'w) gate"
  ec_maintenance :: "(maintenance_method, 'w) gate"
  ec_cluster :: "(cluster_method, 'w) gate"
  ec_auth :: "(auth_method, 'w) gate"

definition NewEtcdClient :: "'w etcd_client" where
  "NewEtcdClient = \<lparr>ec_kv = None, ec_watch = None, ec_lease = None, ec_maintenance = None, ec_cluster = None, ec_auth = None\<rparr>"

text \<open>Setting the field comes first; closing the gate a second time panics.\<close>

definition open_gate :: "('m, 'w) gate \<Rightarrow> ('s \<Rightarrow> 's) \<Rightarrow> ('s, unit) go" where
  "open_gate old upd c = (if old = None then (Ret (), upd c) else (Panic ''close of closed channel'', upd c))"

definition WithKV :: "(kv_method, 'w) rpc_server option \<Rightarrow> ('w etcd_client, unit) go" where
  "WithKV s c = open_gate (ec_kv c) (\<lambda>c. c\<lparr>ec_kv := Some s\<rparr>) c"

definition WithWatch :: "(watch_method, 'w) rpc_server option \<Rightarrow> ('w etcd_client, unit) go" where
  "WithWatch s c = open_gate (ec_watch c) (\<lambda>c. c\<lparr>ec_watch := Some s\<rparr>) c"

definition WithLease :: "(lease_method, 'w) rpc_server option \<Rightarrow> ('w etcd_client, unit) go" where
  "WithLease s c = open_gate (ec_lease c) (\<lambda>c. c\<lparr>ec_lease := Some s\<rparr>) c"

definition WithMaintenance :: "(maintenance_method, 'w) rpc_server option \<Rightarrow> ('w etcd_client, unit) go" where
  "WithMaintenance s c = open_gate (ec_maintenance c) (\<lambda>c. c\<lparr>ec_maintenance := Some s\<rparr>) c"

definition WithCluster :: "(cluster_method, 'w) rpc_server option \<Rightarrow> ('w etcd_client, unit) go" where
  "WithCluster s c = open_gate (ec_cluster c) (\<lambda>c. c\<lparr>ec_cluster := Some s\<rparr>) c"

definition WithAuth :: "(auth_method, 'w) rpc_server option \<Rightarrow> ('w etcd_client, unit) go" where
  "WithAuth s c = open_gate (ec_auth c) (\<lambda>c. c\<lparr>ec_auth := Some s\<rparr>) c"

text \<open>The servers made from one etcd server, or from one SQLite bridge.\<close>

record 'w etcd_servers =
  sv_kv :: "(kv_method, 'w) rpc_server"
  sv_watch :: "(watch_method, 'w) rpc_server"
  sv_lease :: "(lease_method, 'w) rpc_server"
  sv_maintenance :: "(maintenance_method, 'w) rpc_server"
  sv_cluster :: "(cluster_method, 'w) rpc_server"
  sv_auth :: "(auth_method, 'w) rpc_server"

definition WithServer :: "'w etcd_servers \<Rightarrow> ('w etcd_client, unit) go" where
  "WithServer s =
     go_bind (WithKV (Some (sv_kv s))) (\<lambda>_.
     go_bind (WithWatch (Some (sv_watch s))) (\<lambda>_.
     go_bind (WithLease (Some (sv_lease s))) (\<lambda>_.
     go_bind (WithMaintenance (Some (sv_maintenance s))) (\<lambda>_.
     go_bind (WithCluster (Some (sv_cluster s))) (\<lambda>_.
     WithAuth (Some (sv_auth s)))))))"

definition WithBridge :: "'w etcd_servers option \<Rightarrow> ('w etcd_client, unit) go" where
  "WithBridge b =
     go_bind (WithKV (map_option sv_kv b)) (\<lambda>_.
     go_bind (WithWatch (map_option sv_watch b)) (\<lambda>_.
     go_bind (WithLease (map_option sv_lease b)) (\<lambda>_.
     go_bind (WithMaintenance (map_option sv_maintenance b)) (\<lambda>_.
     go_bind (WithCluster (map_option sv_cluster b)) (\<lambda>_.
     WithAuth None)))))"

section \<open>Calls\<close>

text \<open>\<^verbatim>\<open>await\<close> returns when the gate is open or the context is done, and does not tell which;
  \<open>done\<close> is whether the context is done while the call waits. The call then reaches the server
  field, nil or not.\<close>

definition gate_wait :: "bool \<Rightarrow> ('m, 'w) gate \<Rightarrow> bool" where
  "gate_wait done g \<longleftrightarrow> g \<noteq> None \<or> done"

definition gated_call :: "bool \<Rightarrow> ('m, 'w) gate \<Rightarrow> 'm \<Rightarrow> string \<Rightarrow> ('w, error + string) go" where
  "gated_call done g m req w =
     (if gate_wait done g
      then (case g of
              Some (Some server) \<Rightarrow> (let (r, w') = server m req w in (Ret r, w'))
            | _ \<Rightarrow> (Panic ''nil pointer dereference'', w))
      else (Blocked, w))"

definition kv_call :: "bool \<Rightarrow> 'w etcd_client \<Rightarrow> kv_method \<Rightarrow> string \<Rightarrow> ('w, error + string) go" where
  "kv_call done c = gated_call done (ec_kv c)"

definition lease_call :: "bool \<Rightarrow> 'w etcd_client \<Rightarrow> lease_method \<Rightarrow> string \<Rightarrow> ('w, error + string) go" where
  "lease_call done c = gated_call done (ec_lease c)"

definition maintenance_call :: "bool \<Rightarrow> 'w etcd_client \<Rightarrow> maintenance_method \<Rightarrow> string \<Rightarrow> ('w, error + string) go" where
  "maintenance_call done c = gated_call done (ec_maintenance c)"

definition maintenance_Snapshot :: "error + string" where
  "maintenance_Snapshot = Inl (Errorf ''nanokube: in-process etcd snapshot streaming not supported'')"

definition cluster_call :: "bool \<Rightarrow> 'w etcd_client \<Rightarrow> cluster_method \<Rightarrow> string \<Rightarrow> ('w, error + string) go" where
  "cluster_call done c = gated_call done (ec_cluster c)"

definition auth_call :: "bool \<Rightarrow> 'w etcd_client \<Rightarrow> auth_method \<Rightarrow> string \<Rightarrow> ('w, error + string) go" where
  "auth_call done c = gated_call done (ec_auth c)"

text \<open>The two streaming calls return a client end at once; the wait and the server's handler run in
  the stream's goroutine.\<close>

definition watch_call :: "'w etcd_client \<Rightarrow> ('q, 'p) pipe" where
  "watch_call c = spawnStream"

definition watch_handler :: "bool \<Rightarrow> 'w etcd_client \<Rightarrow> string \<Rightarrow> ('w, error + string) go" where
  "watch_handler done c = gated_call done (ec_watch c) Watch"

definition keepalive_handler :: "bool \<Rightarrow> 'w etcd_client \<Rightarrow> string \<Rightarrow> ('w, error + string) go" where
  "keepalive_handler done c = gated_call done (ec_lease c) LeaseKeepAlive"

section \<open>What a call does\<close>

text \<open>The contract a caller of a gated server has: a call before the server is there waits, and
  one after it is the server's own call.\<close>

locale gated =
  fixes call :: "bool \<Rightarrow> 'c \<Rightarrow> 'm \<Rightarrow> string \<Rightarrow> ('w, error + string) go"
    and provide :: "('m, 'w) rpc_server option \<Rightarrow> ('c, unit) go"
    and gate_of :: "'c \<Rightarrow> ('m, 'w) gate"
  assumes call_gate: "call done c m req w = gated_call done (gate_of c) m req w"
    and provide_gate: "gate_of c = None \<Longrightarrow> \<exists>c'. provide s c = (Ret (), c') \<and> gate_of c' = Some s"
    and provide_twice: "gate_of c \<noteq> None \<Longrightarrow> fst (provide s c) = Panic ''close of closed channel''"
begin

lemma waits: "gate_of c = None \<Longrightarrow> call False c m req w = (Blocked, w)"
  by (simp add: call_gate gated_call_def gate_wait_def)

lemma cancelled_panics: "gate_of c = None \<Longrightarrow> fst (call True c m req w) = Panic ''nil pointer dereference''"
  by (simp add: call_gate gated_call_def gate_wait_def)

lemma served:
  assumes "gate_of c = None" "provide (Some s) c = (r, c')"
  shows "r = Ret () \<and> call done c' m req w = (case s m req w of (x, w') \<Rightarrow> (Ret x, w'))"
  using provide_gate [OF assms(1), of "Some s"] assms(2)
  by (auto simp: call_gate gated_call_def gate_wait_def)

lemma nil_server:
  assumes "gate_of c = None" "provide None c = (r, c')"
  shows "fst (call done c' m req w) = Panic ''nil pointer dereference''"
  using provide_gate [OF assms(1), of None] assms(2) by (auto simp: call_gate gated_call_def gate_wait_def)

end

interpretation kv: gated kv_call WithKV ec_kv
  by unfold_locales (auto simp: kv_call_def WithKV_def open_gate_def)

interpretation lease: gated lease_call WithLease ec_lease
  by unfold_locales (auto simp: lease_call_def WithLease_def open_gate_def)

interpretation maintenance: gated maintenance_call WithMaintenance ec_maintenance
  by unfold_locales (auto simp: maintenance_call_def WithMaintenance_def open_gate_def)

interpretation cluster: gated cluster_call WithCluster ec_cluster
  by unfold_locales (auto simp: cluster_call_def WithCluster_def open_gate_def)

interpretation auth: gated auth_call WithAuth ec_auth
  by unfold_locales (auto simp: auth_call_def WithAuth_def open_gate_def)

text \<open>
  Calls of the in-process client go to the server, once there is one. On a fresh client, a
  key-value call waits and changes nothing until the server is provided; after \<open>WithServer\<close> every
  key-value call is exactly the server's own call; a second \<open>WithServer\<close> panics; and a call whose
  context ends before the server is provided does not return the context's error but calls a nil
  server and panics.
\<close>

theorem etcd_client_gates:
  "kv_call False NewEtcdClient m req w = (Blocked, w) \<and>
   fst (kv_call True NewEtcdClient m req w) = Panic ''nil pointer dereference'' \<and>
   (\<exists>c. WithServer s NewEtcdClient = (Ret (), c) \<and>
      kv_call done c m req w = (case sv_kv s m req w of (x, w') \<Rightarrow> (Ret x, w')) \<and>
      fst (WithServer s c) = Panic ''close of closed channel'')"
proof -
  have n: "ec_kv NewEtcdClient = None" by (simp add: NewEtcdClient_def)
  show ?thesis
    using kv.waits [OF n] kv.cancelled_panics [OF n]
    by (simp add: WithServer_def go_bind_def WithKV_def WithWatch_def WithLease_def WithMaintenance_def
          WithCluster_def WithAuth_def open_gate_def NewEtcdClient_def kv_call_def gated_call_def gate_wait_def Let_def)
qed

text \<open>
  With the SQLite bridge there is no authentication server: once the bridge is installed, every
  authentication call panics on a nil server, while the other calls reach the bridge.
\<close>

theorem bridge_auth_panics:
  "\<exists>c. WithBridge (Some b) NewEtcdClient = (Ret (), c) \<and>
     fst (auth_call done c am req w) = Panic ''nil pointer dereference'' \<and>
     kv_call done c m req w = (case sv_kv b m req w of (x, w') \<Rightarrow> (Ret x, w'))"
  by (simp add: WithBridge_def go_bind_def WithKV_def WithWatch_def WithLease_def WithMaintenance_def
        WithCluster_def WithAuth_def open_gate_def NewEtcdClient_def kv_call_def auth_call_def gated_call_def gate_wait_def Let_def)

end
