(* ===== verification/Client.thy ===== *)
theory Client
  imports Support
begin

text \<open>
  The Kubernetes client wrapper of \<^verbatim>\<open>src/pkg/nanokube/client.go\<close>: variants of a client that differ
  in one setting, and the kubeconfig it describes and merges into the user's file. Building a
  client from a configuration is library code: the parameter \<open>mk\<close> says whether it succeeds, and
  the source panics when it does not. Rates are numbers of the library's \<^verbatim>\<open>float32\<close>, of which only
  the whole ones occur here.
\<close>

record rest_config =
  rc_Host :: string
  rc_CAData :: "string option"
  rc_Insecure :: bool
  rc_CertData :: string
  rc_KeyData :: string
  rc_BearerToken :: string
  rc_QPS :: int
  rc_Burst :: int
  rc_Timeout :: int

record client =
  cl_ctx :: bool
  cl_config :: "rest_config option"

definition NewClient :: "(rest_config \<Rightarrow> bool) \<Rightarrow> rest_config \<Rightarrow> client outcome" where
  "NewClient mk cfg = (if mk cfg then Ret \<lparr>cl_ctx = True, cl_config = Some cfg\<rparr> else Panic ''new client'')"

text \<open>What every \<^verbatim>\<open>With\<close> method does with its changed copy of the configuration: the new client
  has no context.\<close>

definition derive :: "(rest_config \<Rightarrow> bool) \<Rightarrow> (rest_config \<Rightarrow> rest_config) \<Rightarrow> client \<Rightarrow> client outcome" where
  "derive mk f c =
     (case cl_config c of
        None \<Rightarrow> Ret c
      | Some cfg \<Rightarrow> if mk (f cfg) then Ret \<lparr>cl_ctx = False, cl_config = Some (f cfg)\<rparr> else Panic ''new client'')"

definition client_WithQps :: "(rest_config \<Rightarrow> bool) \<Rightarrow> int \<Rightarrow> client \<Rightarrow> client outcome" where
  "client_WithQps mk q = derive mk (\<lambda>cfg. cfg\<lparr>rc_QPS := q, rc_Burst := q * 2\<rparr>)"

definition client_WithTimeout :: "(rest_config \<Rightarrow> bool) \<Rightarrow> int \<Rightarrow> client \<Rightarrow> client outcome" where
  "client_WithTimeout mk t = derive mk (\<lambda>cfg. cfg\<lparr>rc_Timeout := t\<rparr>)"

definition client_WithHeartbeat :: "(rest_config \<Rightarrow> bool) \<Rightarrow> int \<Rightarrow> client \<Rightarrow> client outcome" where
  "client_WithHeartbeat mk t c =
     (case cl_config c of
        None \<Rightarrow> Ret c
      | Some _ \<Rightarrow> (case client_WithQps mk (- 1) c of Ret c' \<Rightarrow> client_WithTimeout mk t c' | r \<Rightarrow> r))"

definition client_WithToken :: "(rest_config \<Rightarrow> bool) \<Rightarrow> string \<Rightarrow> client \<Rightarrow> client outcome" where
  "client_WithToken mk t = derive mk (\<lambda>cfg. cfg\<lparr>rc_BearerToken := t\<rparr>)"

text \<open>A tunnel's host name, local address and port, and public port.\<close>

record tunnel =
  tn_Hostname :: string
  tn_LocalIP :: string
  tn_LocalPort :: int
  tn_Port :: int

definition client_WithTunnel :: "(rest_config \<Rightarrow> bool) \<Rightarrow> tunnel \<Rightarrow> bool \<Rightarrow> client \<Rightarrow> client outcome" where
  "client_WithTunnel mk tn loc = derive mk (\<lambda>cfg. cfg
     \<lparr>rc_Host := (if \<not> loc then ''https://'' @ tn_Hostname tn
                  else ''https://'' @ tn_LocalIP tn @ '':'' @ strconv_FormatInt (tn_LocalPort tn)),
      rc_CAData := None, rc_Insecure := loc\<rparr>)"

section \<open>Kubeconfig\<close>

record cluster =
  ku_Server :: string
  ku_CAData :: "string option"
  ku_Insecure :: bool

record auth_info =
  ku_CertData :: string
  ku_KeyData :: string
  ku_Token :: string

record kube_context =
  ku_Cluster :: string
  ku_AuthInfo :: string

record kubeconfig =
  Clusters :: "(string \<times> cluster) list"
  AuthInfos :: "(string \<times> auth_info) list"
  Contexts :: "(string \<times> kube_context) list"
  CurrentContext :: string

definition Kubeconfig :: "string \<Rightarrow> client \<Rightarrow> kubeconfig" where
  "Kubeconfig name c =
     (case cl_config c of
        None \<Rightarrow> \<lparr>Clusters = [], AuthInfos = [], Contexts = [], CurrentContext = []\<rparr>
      | Some cfg \<Rightarrow>
          \<lparr>Clusters = [(name, \<lparr>ku_Server = rc_Host cfg,
              ku_CAData = (if rc_Insecure cfg then None else rc_CAData cfg), ku_Insecure = rc_Insecure cfg\<rparr>)],
           AuthInfos = [(name, \<lparr>ku_CertData = rc_CertData cfg, ku_KeyData = rc_KeyData cfg, ku_Token = rc_BearerToken cfg\<rparr>)],
           Contexts = [(name, \<lparr>ku_Cluster = name, ku_AuthInfo = name\<rparr>)],
           CurrentContext = name\<rparr>)"

text \<open>\<^verbatim>\<open>WriteKubeconfig\<close>: what was loaded (or the error), and what is handed to
  \<^verbatim>\<open>clientcmd.ModifyConfig\<close>.\<close>

definition WriteKubeconfig :: "string \<Rightarrow> client \<Rightarrow> error + kubeconfig \<Rightarrow> error + kubeconfig" where
  "WriteKubeconfig name c loaded =
     (case loaded of
        Inl e \<Rightarrow> Inl (Wrapf ''load kubeconfig'' e)
      | Inr merged \<Rightarrow>
          let cfg = Kubeconfig name c;
              m = merged\<lparr>Clusters := maps_Copy (Clusters merged) (Clusters cfg),
                         AuthInfos := maps_Copy (AuthInfos merged) (AuthInfos cfg),
                         Contexts := maps_Copy (Contexts merged) (Contexts cfg)\<rparr>
          in Inr (if CurrentContext cfg \<noteq> [] then m\<lparr>CurrentContext := CurrentContext cfg\<rparr> else m))"

text \<open>
  Writing a kubeconfig merges into the user's file. When the file was loaded, every cluster,
  user and context under another name is kept, the entry under the given name describes the
  client's server and credentials, and the current context becomes that name; a client without
  configuration leaves the file as it is; a load error is reported and nothing is written.
\<close>

theorem WriteKubeconfig_merges:
  assumes "name \<noteq> []"
  shows "(\<exists>m. WriteKubeconfig name c (Inr k) = Inr m \<and>
      (\<forall>n. n \<noteq> name \<longrightarrow> map_of (Clusters m) n = map_of (Clusters k) n \<and>
         map_of (AuthInfos m) n = map_of (AuthInfos k) n \<and> map_of (Contexts m) n = map_of (Contexts k) n) \<and>
      (case cl_config c of
         None \<Rightarrow> m = k
       | Some cfg \<Rightarrow> CurrentContext m = name \<and>
           map_option ku_Server (map_of (Clusters m) name) = Some (rc_Host cfg) \<and>
           map_option ku_Token (map_of (AuthInfos m) name) = Some (rc_BearerToken cfg) \<and>
           map_of (Contexts m) name = Some \<lparr>ku_Cluster = name, ku_AuthInfo = name\<rparr>)) \<and>
    WriteKubeconfig name c (Inl e) = Inl (Wrapf ''load kubeconfig'' e)"
  using assms by (cases "cl_config c") (auto simp: WriteKubeconfig_def Kubeconfig_def Let_def)

theorem WriteKubeconfig_merges_witness:
  "WriteKubeconfig ''nk'' \<lparr>cl_ctx = True, cl_config = None\<rparr> (Inl EOF) = Inl (Wrapf ''load kubeconfig'' EOF)"
  using WriteKubeconfig_merges [of "''nk''" "\<lparr>cl_ctx = True, cl_config = None\<rparr>" _ EOF] by simp

text \<open>A derived client differs only in what the method names.\<close>

lemma WithTunnel_config:
  assumes "client_WithTunnel mk tn loc c = Ret c'" "cl_config c = Some cfg"
  shows "\<exists>cfg'. cl_config c' = Some cfg' \<and> rc_BearerToken cfg' = rc_BearerToken cfg \<and> rc_CAData cfg' = None \<and>
    rc_Insecure cfg' = loc"
  using assms by (auto simp: client_WithTunnel_def derive_def split: if_splits)

end
