(* ===== verification/Discovery.thy ===== *)
theory Discovery
  imports Client
begin

text \<open>
  Peer discovery through the key-value service kvdb.io (\<^verbatim>\<open>src/pkg/discovery/discovery.go\<close>): the
  retry loop \<^verbatim>\<open>do\<close>, the seed that names the cluster, the registration of the node's tunnel and
  the list of peers. The outside world is a parameter: a world state with the HTTP client's
  answer to one attempt, the cause of the context's end when it has ended, and a sleep that
  says whether the timer or the end of the context was seen first. Environment variable and seed
  file are part of the component's state.
\<close>

section \<open>Host and port\<close>

definition has_byte :: "char \<Rightarrow> string \<Rightarrow> bool" where
  "has_byte c s \<longleftrightarrow> c \<in> set s"

definition JoinHostPort :: "string \<Rightarrow> string \<Rightarrow> string" where
  "JoinHostPort host port =
     (if has_byte colon host then CHR 0x5B # host @ CHR 0x5D # colon # port else host @ colon # port)"

fun index_of :: "char \<Rightarrow> string \<Rightarrow> nat option" where
  "index_of c [] = None"
| "index_of c (x # xs) = (if x = c then Some 0 else map_option Suc (index_of c xs))"

definition last_index_of :: "char \<Rightarrow> string \<Rightarrow> nat option" where
  "last_index_of c s = map_option (\<lambda>i. length s - 1 - i) (index_of c (rev s))"

definition SplitHostPort :: "string \<Rightarrow> (string \<times> string) option" where
  "SplitHostPort hp =
     (case last_index_of colon hp of
        None \<Rightarrow> None
      | Some i \<Rightarrow>
          (if hp ! 0 = CHR 0x5B
           then (case index_of (CHR 0x5D) hp of
                   None \<Rightarrow> None
                 | Some e \<Rightarrow>
                     if Suc e = i \<and> \<not> has_byte (CHR 0x5B) (drop 1 hp) \<and> \<not> has_byte (CHR 0x5D) (drop (Suc e) hp)
                     then Some (take (e - 1) (drop 1 hp), drop (Suc i) hp) else None)
           else if has_byte colon (take i hp) \<or> has_byte (CHR 0x5B) hp \<or> has_byte (CHR 0x5D) hp then None
           else Some (take i hp, drop (Suc i) hp)))"

section \<open>The world and the state\<close>

record http_req =
  rq_method :: string
  rq_url :: string
  rq_body :: string

record http_resp =
  rs_status :: int
  rs_location :: string
  rs_retry_after :: string
  rs_body :: "error + string"

record 'w net_world =
  client_Do :: "http_req \<Rightarrow> 'w \<Rightarrow> (error + http_resp) \<times> 'w"
  ctx_cause :: "'w \<Rightarrow> error option"
  timer_first :: "int \<Rightarrow> 'w \<Rightarrow> bool \<times> 'w"
  req_ok :: "http_req \<Rightarrow> bool"
  http_until :: "string \<Rightarrow> int option"
  json_strings :: "string \<Rightarrow> string list option"
  json_config :: "string \<Rightarrow> kubeconfig option"
  config_json :: "kubeconfig \<Rightarrow> string option"
  file_remove :: "'w \<Rightarrow> error option"
  file_write :: "'w \<Rightarrow> error option"

record 'w discovery =
  dv_seed :: string
  seedOnce :: bool
  seedFile :: "string option"
  NANOKUBE_SEED :: string
  dv_tunnel :: "tunnel once"
  shutdownOnce :: bool
  dv_cancels :: "error list"
  dv_world :: 'w

definition NewDiscovery :: "string option \<Rightarrow> string \<Rightarrow> 'w \<Rightarrow> 'w discovery" where
  "NewDiscovery file env w =
     \<lparr>dv_seed = [], seedOnce = False, seedFile = file, NANOKUBE_SEED = env, dv_tunnel = None,
      shutdownOnce = False, dv_cancels = [], dv_world = w\<rparr>"

definition dv_call :: "('w \<Rightarrow> 'a \<times> 'w) \<Rightarrow> ('w discovery, 'a) go" where
  "dv_call f d = (case f (dv_world d) of (a, w) \<Rightarrow> (Ret a, d\<lparr>dv_world := w\<rparr>))"

definition dv_cancel :: "error \<Rightarrow> 'w discovery \<Rightarrow> 'w discovery" where
  "dv_cancel e d = d\<lparr>dv_cancels := dv_cancels d @ [e]\<rparr>"

section \<open>The retry loop\<close>

text \<open>A \<^verbatim>\<open>time.Duration\<close> is a signed 64-bit number of nanoseconds.\<close>

definition duration :: "int \<Rightarrow> int" where
  "duration n = (n + 2 ^ 63) mod 2 ^ 64 - 2 ^ 63"

definition second :: int where
  "second = 1000000000"

definition retryAfter :: "'w net_world \<Rightarrow> string \<Rightarrow> int" where
  "retryAfter N v =
     (if v = [] then 0
      else (case strconv_ParseInt64 (strings_TrimSpace v) of
              (secs, None) \<Rightarrow> duration (secs * second)
            | _ \<Rightarrow> (case http_until N v of Some t \<Rightarrow> if 0 < t then t else 0 | None \<Rightarrow> 0)))"

text \<open>The receive from \<^verbatim>\<open>await\<close>: its channel is closed only when the awaited channel was seen
  first. When the end of the context is seen first, nothing ever closes it.\<close>

definition await_timer :: "'w net_world \<Rightarrow> int \<Rightarrow> ('w discovery, unit) go" where
  "await_timer N sleep d =
     (case timer_first N sleep (dv_world d) of
        (True, w) \<Rightarrow> (Ret (), d\<lparr>dv_world := w\<rparr>)
      | (False, w) \<Rightarrow> (Blocked, d\<lparr>dv_world := w\<rparr>))"

text \<open>\<open>do_loop\<close> with its current sleep. The loop may retry for ever; the first argument bounds the
  number of attempts, and running out of it is the value \<open>Blocked\<close>. The body is a byte reader,
  so rewinding it does not fail.\<close>

fun do_loop :: "nat \<Rightarrow> 'w net_world \<Rightarrow> http_req \<Rightarrow> int \<Rightarrow> ('w discovery, error + http_resp) go" where
  "do_loop 0 N req sleep d = (Blocked, d)"
| "do_loop (Suc n) N req sleep d =
     go_bind (dv_call (client_Do N req)) (\<lambda>r d.
       if (case r of Inr resp \<Rightarrow> rs_status resp \<noteq> 429 | Inl _ \<Rightarrow> False) then (Ret r, d)
       else (case ctx_cause N (dv_world d) of
               Some c \<Rightarrow> (Ret (Inl c), d)
             | None \<Rightarrow>
                 let sleep1 = (case r of
                         Inr resp \<Rightarrow> (let ra = retryAfter N (rs_retry_after resp) in if sleep < ra then ra else sleep)
                       | Inl _ \<Rightarrow> sleep);
                     sleep2 = duration (sleep1 + second)
                 in go_bind (await_timer N sleep2) (\<lambda>_. do_loop n N req sleep2) d)) d"

definition do_req :: "nat \<Rightarrow> 'w net_world \<Rightarrow> http_req \<Rightarrow> ('w discovery, error + http_resp) go" where
  "do_req n N req = do_loop n N req 0"

definition new_req :: "'w net_world \<Rightarrow> string \<Rightarrow> string \<Rightarrow> string \<Rightarrow> error + http_req" where
  "new_req N m u b =
     (let r = \<lparr>rq_method = m, rq_url = u, rq_body = b\<rparr> in if req_ok N r then Inr r else Inl (Errorf ''invalid request''))"

definition discoveryService :: string where
  "discoveryService = ''kvdb.io''"

definition service_url :: "string \<Rightarrow> string" where
  "service_url p = ''https://'' @ discoveryService @ p"

section \<open>The seed\<close>

definition unexpected_status :: "int \<Rightarrow> error" where
  "unexpected_status c = Errorf (''unexpected status code: '' @ strconv_FormatInt c)"

definition strings_Trim_slash :: "string \<Rightarrow> string" where
  "strings_Trim_slash = strings_TrimFunc (\<lambda>c. c = slash)"

definition seed_create :: "nat \<Rightarrow> 'w net_world \<Rightarrow> ('w discovery, error + string) go" where
  "seed_create n N d0 =
     (let d1 = d0\<lparr>NANOKUBE_SEED := []\<rparr>
      in case (if seedFile d1 = None then None else file_remove N (dv_world d1)) of
           Some e \<Rightarrow> (Ret (Inl (Wrapf ''failed to remove seed file'' e)), d1)
         | None \<Rightarrow>
             (case new_req N ''POST'' (service_url []) (''email='' @ discoveryService @ ''@nanokube.xyz'') of
                Inl e \<Rightarrow> (Ret (Inl (Wrapf ''failed to create request'' e)), d1\<lparr>seedFile := None\<rparr>)
              | Inr req \<Rightarrow>
                  go_try_with (Wrapf ''failed to do request'') (do_req n N req) (\<lambda>resp.
                    go_ret (if rs_status resp \<noteq> 201 then Inl (unexpected_status (rs_status resp))
                            else if rs_location resp = [] then Inl (Errorf ''missing Location header'')
                            else Inr (strings_Trim_slash (filepath_Base (rs_location resp)))))
                  (d1\<lparr>seedFile := None\<rparr>)))"

definition seed_getOrCreate :: "nat \<Rightarrow> 'w net_world \<Rightarrow> ('w discovery, error + string) go" where
  "seed_getOrCreate n N d =
     (let seed = (case seedFile d of Some v \<Rightarrow> v | None \<Rightarrow> NANOKUBE_SEED d)
      in if seed = [] then seed_create n N d
         else (case new_req N ''GET'' (service_url (''/'' @ seed @ ''/'')) [] of
                 Inl e \<Rightarrow> (Ret (Inl (Wrapf ''failed to create request'' e)), d)
               | Inr req \<Rightarrow>
                   go_try_with (Wrapf ''failed to do request'') (do_req n N req) (\<lambda>resp.
                     if rs_status resp = 200 then go_ret (Inr seed)
                     else if rs_status resp \<noteq> 404 then go_ret (Inl (unexpected_status (rs_status resp)))
                     else seed_create n N) d))"

definition seed_body :: "nat \<Rightarrow> 'w net_world \<Rightarrow> ('w discovery, unit) go" where
  "seed_body n N =
     go_bind (seed_getOrCreate n N) (\<lambda>r d. case r of
        Inl e \<Rightarrow> (Ret (), dv_cancel e d)
      | Inr seed \<Rightarrow>
          (case file_write N (dv_world d) of
             Some e \<Rightarrow> (Ret (), dv_cancel (Wrapf ''failed to write seed file'' e) d)
           | None \<Rightarrow> (Ret (), d\<lparr>seedFile := Some seed, NANOKUBE_SEED := seed, dv_seed := seed\<rparr>)))"

definition Seed :: "nat \<Rightarrow> 'w net_world \<Rightarrow> ('w discovery, string) go" where
  "Seed n N =
     go_bind (\<lambda>d. if seedOnce d then (Ret (), d)
                  else case seed_body n N d of (r, d') \<Rightarrow> (r, d'\<lparr>seedOnce := True\<rparr>))
       (\<lambda>_ d. (Ret (dv_seed d), d))"

section \<open>The tunnel of this node\<close>

text \<open>Setting the tunnel starts a goroutine, \<open>register_tunnel\<close>, that posts the peer entry; the host
  name comes from the tunnel's URL once it is up.\<close>

definition tunnel_host :: "tunnel \<Rightarrow> string" where
  "tunnel_host t = JoinHostPort (tn_Hostname t) (strconv_FormatInt (tn_Port t))"

definition peer_url :: "string \<Rightarrow> tunnel \<Rightarrow> string" where
  "peer_url seed t = service_url (''/'' @ seed @ ''/peer:'' @ tunnel_host t)"

definition WithTunnel :: "tunnel \<Rightarrow> 'w discovery \<Rightarrow> 'w discovery" where
  "WithTunnel t d = d\<lparr>dv_tunnel := once_provide t (dv_tunnel d)\<rparr>"

definition register_tunnel :: "nat \<Rightarrow> 'w net_world \<Rightarrow> tunnel \<Rightarrow> ('w discovery, unit) go" where
  "register_tunnel n N t =
     go_bind (Seed n N) (\<lambda>seed.
       (case new_req N ''POST'' (peer_url seed t) [] of
          Inl e \<Rightarrow> (\<lambda>d. (Ret (), dv_cancel (Wrapf ''failed to create request'' e) d))
        | Inr req \<Rightarrow>
            go_bind (do_req n N req) (\<lambda>r d. (Ret (), case r of
               Inl e \<Rightarrow> dv_cancel (Wrapf ''failed to do request'' e) d
             | Inr resp \<Rightarrow> if rs_status resp \<noteq> 200 then dv_cancel (unexpected_status (rs_status resp)) d else d))))"

text \<open>\<^verbatim>\<open>WithoutTunnel\<close> uses a context of its own: \<open>D\<close> is the world as that context sees it.\<close>

definition WithoutTunnel :: "nat \<Rightarrow> 'w net_world \<Rightarrow> 'w net_world \<Rightarrow> tunnel option \<Rightarrow> ('w discovery, unit) go" where
  "WithoutTunnel n N D t d =
     (case t of
        None \<Rightarrow> (Ret (), d)
      | Some t \<Rightarrow>
          if dv_tunnel d = None then (Ret (), d)
          else go_bind (Seed n N) (\<lambda>seed.
                 case new_req D ''DELETE'' (peer_url seed t) [] of
                   Inl e \<Rightarrow> go_ret ()
                 | Inr req \<Rightarrow> go_bind (do_req n D req) (\<lambda>_. go_ret ())) d)"

definition Shutdown :: "nat \<Rightarrow> 'w net_world \<Rightarrow> 'w net_world \<Rightarrow> ('w discovery, unit) go" where
  "Shutdown n N D d =
     (if shutdownOnce d then (Ret (), d)
      else case WithoutTunnel n N D (dv_tunnel d) d of (r, d') \<Rightarrow> (r, d'\<lparr>shutdownOnce := True\<rparr>))"

text \<open>The receive in \<^verbatim>\<open>Tunnel()\<close> completes only when the tunnel is provided, also after the end of
  the context.\<close>

definition Tunnel :: "('w discovery, tunnel) go" where
  "Tunnel d = (case dv_tunnel d of None \<Rightarrow> (Blocked, d) | Some t \<Rightarrow> (Ret t, d))"

section \<open>Peers and kubeconfig\<close>

type_synonym urls_map = "(string \<times> string) list"

definition add_peer :: "string \<Rightarrow> urls_map \<Rightarrow> urls_map" where
  "add_peer value peers =
     (let peer = strings_TrimPrefix value ''peer:''
      in case SplitHostPort peer of None \<Rightarrow> peers | Some (host, _) \<Rightarrow> AList.update host peer peers)"

definition peers_of_response :: "'w net_world \<Rightarrow> urls_map \<Rightarrow> error + http_resp \<Rightarrow> urls_map" where
  "peers_of_response N self r =
     (case r of
        Inl _ \<Rightarrow> self
      | Inr resp \<Rightarrow>
          if rs_status resp \<noteq> 200 then self
          else (case rs_body resp of
                  Inl _ \<Rightarrow> self
                | Inr body \<Rightarrow>
                    (case json_strings N body of
                       None \<Rightarrow> self
                     | Some values \<Rightarrow> fold add_peer values self)))"

definition Peers :: "nat \<Rightarrow> 'w net_world \<Rightarrow> ('w discovery, urls_map) go" where
  "Peers n N =
     go_bind Tunnel (\<lambda>t.
     let self = [(tn_Hostname t, tunnel_host t)]
     in go_bind (Seed n N) (\<lambda>seed.
          case new_req N ''GET'' (service_url (''/'' @ seed @ ''/?format=json&prefix=peer%3A&values=false'')) [] of
            Inl e \<Rightarrow> go_ret self
          | Inr req \<Rightarrow> go_bind (do_req n N req) (\<lambda>r. go_ret (peers_of_response N self r))))"

definition disc_WithKubeconfig :: "nat \<Rightarrow> 'w net_world \<Rightarrow> kubeconfig \<Rightarrow> ('w discovery, unit) go" where
  "disc_WithKubeconfig n N cfg =
     go_bind (Seed n N) (\<lambda>seed.
       case config_json N cfg of
         None \<Rightarrow> go_ret ()
       | Some payload \<Rightarrow>
           (case new_req N ''POST'' (service_url (''/'' @ seed @ ''/kubeconfig'')) payload of
              Inl e \<Rightarrow> go_ret ()
            | Inr req \<Rightarrow> go_bind (do_req n N req) (\<lambda>_. go_ret ())))"

definition disc_Kubeconfig :: "nat \<Rightarrow> 'w net_world \<Rightarrow> string \<Rightarrow> ('w discovery, error + kubeconfig) go" where
  "disc_Kubeconfig n N seed =
     (case new_req N ''GET'' (service_url (''/'' @ seed @ ''/kubeconfig'')) [] of
        Inl e \<Rightarrow> go_ret (Inl (Wrapf ''discovery: failed to create request'' e))
      | Inr req \<Rightarrow>
          go_try_with (Wrapf ''discovery: failed to do request'') (do_req n N req) (\<lambda>resp.
            go_ret (if rs_status resp \<noteq> 200
                    then Inl (Errorf (''discovery: unexpected status code: '' @ strconv_FormatInt (rs_status resp)))
                    else (case rs_body resp of
                            Inl e \<Rightarrow> Inl (Wrapf ''discovery: failed to read response body'' e)
                          | Inr body \<Rightarrow>
                              (case json_config N body of
                                 None \<Rightarrow> Inl (Errorf ''discovery: failed to unmarshal kubeconfig'')
                               | Some c \<Rightarrow> Inr c)))))"

interpretation disc_tunnel: provided_once WithTunnel dv_tunnel
  by unfold_locales (simp add: WithTunnel_def)

section \<open>Retrying\<close>

text \<open>A failed attempt is one that the loop does not return: a network error or a 429.\<close>

definition failed_attempt :: "error + http_resp \<Rightarrow> bool" where
  "failed_attempt r \<longleftrightarrow> (case r of Inl _ \<Rightarrow> True | Inr resp \<Rightarrow> rs_status resp = 429)"

definition next_sleep :: "'w net_world \<Rightarrow> error + http_resp \<Rightarrow> int \<Rightarrow> int" where
  "next_sleep N r sleep =
     duration ((case r of Inr resp \<Rightarrow> max sleep (retryAfter N (rs_retry_after resp)) | Inl _ \<Rightarrow> sleep) + second)"

text \<open>\<open>patient N req sleep k w\<close>: from world \<open>w\<close>, attempts fail \<open>k\<close> times with the context alive and the
  timer firing, and then the attempt succeeds.\<close>

fun patient :: "'w net_world \<Rightarrow> http_req \<Rightarrow> int \<Rightarrow> nat \<Rightarrow> 'w \<Rightarrow> http_resp option" where
  "patient N req sleep 0 w =
     (case client_Do N req w of (Inr resp, _) \<Rightarrow> if rs_status resp = 429 then None else Some resp | _ \<Rightarrow> None)"
| "patient N req sleep (Suc k) w =
     (case client_Do N req w of (r, w1) \<Rightarrow>
        if failed_attempt r \<and> ctx_cause N w1 = None
        then (case timer_first N (next_sleep N r sleep) w1 of
                (True, w2) \<Rightarrow> patient N req (next_sleep N r sleep) k w2
              | (False, _) \<Rightarrow> None)
        else None)"

lemma do_loop_Suc:
  "do_loop (Suc n) N req sleep d =
     (case client_Do N req (dv_world d) of (r, w) \<Rightarrow>
        if \<not> failed_attempt r then (Ret r, d\<lparr>dv_world := w\<rparr>)
        else (case ctx_cause N w of
                Some c \<Rightarrow> (Ret (Inl c), d\<lparr>dv_world := w\<rparr>)
              | None \<Rightarrow> go_bind (await_timer N (next_sleep N r sleep)) (\<lambda>_. do_loop n N req (next_sleep N r sleep)) (d\<lparr>dv_world := w\<rparr>)))"
  by (auto simp: dv_call_def go_bind_def failed_attempt_def next_sleep_def Let_def max_def
        split: prod.splits sum.splits option.splits)

declare do_loop.simps(2) [simp del]

lemma do_loop_patient:
  "patient N req sleep k (dv_world d) = Some resp \<Longrightarrow> k < n \<Longrightarrow>
   \<exists>d'. do_loop n N req sleep d = (Ret (Inr resp), d')"
proof (induction k arbitrary: n sleep d)
  case 0
  then obtain m where n: "n = Suc m" by (cases n) auto
  show ?case using 0 unfolding n do_loop_Suc
    by (auto simp: failed_attempt_def split: prod.splits sum.splits if_splits)
next
  case (Suc k)
  then obtain m where n: "n = Suc m" "k < m" by (cases n) auto
  obtain r w1 where c: "client_Do N req (dv_world d) = (r, w1)" by (cases "client_Do N req (dv_world d)")
  with Suc.prems(1) obtain w2 where f: "failed_attempt r" "ctx_cause N w1 = None"
    and t: "timer_first N (next_sleep N r sleep) w1 = (True, w2)"
    and p: "patient N req (next_sleep N r sleep) k w2 = Some resp"
    by (auto split: if_splits prod.splits bool.splits)
  from Suc.IH [of "next_sleep N r sleep" "d\<lparr>dv_world := w2\<rparr>" m] p n(2)
  obtain d' where "do_loop m N req (next_sleep N r sleep) (d\<lparr>dv_world := w2\<rparr>) = (Ret (Inr resp), d')" by auto
  with c f t show ?case unfolding n(1) do_loop_Suc by (simp add: go_bind_def await_timer_def)
qed

text \<open>
  The retry loop returns the first answer that is not a rate limit. If, after \<open>k\<close> failed
  attempts with the context alive, an attempt is answered with another status than 429, the
  request returns that answer, and \<open>k + 1\<close> attempts are enough.
\<close>

theorem do_returns_first_answer:
  assumes "patient N req 0 k (dv_world d) = Some resp" "k < n"
  shows "\<exists>d'. do_req n N req d = (Ret (Inr resp), d')"
  unfolding do_req_def by (rule do_loop_patient [OF assms])

text \<open>
  The retry loop does not survive the end of its context while it waits. If the first attempt
  fails with the context still alive and the context ends before the timer fires, the call never
  returns, however many attempts it is given, although it should return the cancel cause.
\<close>

theorem do_hangs_when_cancelled_in_backoff:
  assumes "client_Do N req (dv_world d) = (r, w)" "failed_attempt r" "ctx_cause N w = None"
    and "timer_first N (next_sleep N r 0) w = (False, w')"
  shows "fst (do_req n N req d) = Blocked"
  using assms by (cases n) (simp_all add: do_req_def do_loop_Suc go_bind_def await_timer_def)

text \<open>A world that counts its attempts: the first two are answered with 429, then with 200.\<close>

definition counting_world :: "bool \<Rightarrow> nat net_world" where
  "counting_world fires =
     \<lparr>client_Do = (\<lambda>req w. (Inr \<lparr>rs_status = (if w < 2 then 429 else 200), rs_location = [], rs_retry_after = [],
                                  rs_body = Inr ''[]''\<rparr>, Suc w)),
      ctx_cause = (\<lambda>w. None), timer_first = (\<lambda>t w. (fires, w)), req_ok = (\<lambda>r. True),
      http_until = (\<lambda>v. None), json_strings = (\<lambda>b. Some []), json_config = (\<lambda>b. None), config_json = (\<lambda>c. None),
      file_remove = (\<lambda>w. None), file_write = (\<lambda>w. None)\<rparr>"

definition get_req :: http_req where
  "get_req = \<lparr>rq_method = ''GET'', rq_url = ''https://kvdb.io'', rq_body = []\<rparr>"

theorem do_returns_first_answer_witness:
  "\<exists>resp d'. do_req 3 (counting_world True) get_req (NewDiscovery None [] 0) = (Ret (Inr resp), d') \<and> rs_status resp = 200"
proof -
  have "\<exists>resp. patient (counting_world True) get_req 0 2 (dv_world (NewDiscovery None [] 0)) = Some resp \<and> rs_status resp = 200"
    by (simp add: counting_world_def NewDiscovery_def numeral_2_eq_2 failed_attempt_def)
  then obtain resp where p: "patient (counting_world True) get_req 0 2 (dv_world (NewDiscovery None [] 0)) = Some resp"
    and "rs_status resp = 200" by blast
  with do_returns_first_answer [OF p, of 3] show ?thesis by auto
qed

theorem do_hangs_when_cancelled_in_backoff_witness:
  "fst (do_req 5 (counting_world False) get_req (NewDiscovery None [] 0)) = Blocked"
  by (rule do_hangs_when_cancelled_in_backoff
        [of _ _ _ "Inr \<lparr>rs_status = 429, rs_location = [], rs_retry_after = [], rs_body = Inr ''[]''\<rparr>" "Suc 0" "Suc 0"])
     (simp_all add: counting_world_def NewDiscovery_def failed_attempt_def)

section \<open>What peers read is what nodes registered\<close>

lemma index_of_append: "c \<notin> set a \<Longrightarrow> index_of c (a @ c # b) = Some (length a)"
  by (induction a) auto

lemma index_of_absent: "index_of c s = None \<longleftrightarrow> c \<notin> set s"
  by (induction s) auto

lemma last_index_of_append: "c \<notin> set b \<Longrightarrow> last_index_of c (a @ c # b) = Some (length a)"
  using index_of_append [of c "rev b" "rev a"] by (simp add: last_index_of_def)

definition host_ok :: "string \<Rightarrow> bool" where
  "host_ok h \<longleftrightarrow> CHR 0x5B \<notin> set h \<and> CHR 0x5D \<notin> set h"

lemma SplitHostPort_Join:
  assumes "host_ok h" "host_ok p" "colon \<notin> set p"
  shows "SplitHostPort (JoinHostPort h p) = Some (h, p)"
proof (cases "colon \<in> set h")
  case True
  let ?hp = "CHR 0x5B # h @ CHR 0x5D # colon # p"
  have i: "last_index_of colon ?hp = Some (length h + 2)"
    using last_index_of_append [OF assms(3), of "CHR 0x5B # h @ [CHR 0x5D]"] by simp
  have e: "index_of (CHR 0x5D) ?hp = Some (Suc (length h))"
    using index_of_append [of "CHR 0x5D" h "colon # p"] assms(1) by (simp add: host_ok_def)
  show ?thesis
    using True assms i e by (simp add: JoinHostPort_def SplitHostPort_def has_byte_def host_ok_def)
next
  case False
  have i: "last_index_of colon (h @ colon # p) = Some (length h)" by (rule last_index_of_append [OF assms(3)])
  have "(h @ colon # p) ! 0 \<noteq> CHR 0x5B"
    using assms(1) by (cases h) (auto simp: host_ok_def)
  with False assms i show ?thesis by (simp add: JoinHostPort_def SplitHostPort_def has_byte_def host_ok_def)
qed

lemma FormatInt_chars: "c \<in> set (strconv_FormatInt i) \<Longrightarrow> is_digit c \<or> c = dash"
  using nat_dec_digits by (auto simp: strconv_FormatInt_def split: if_splits)

lemma FormatInt_port: "host_ok (strconv_FormatInt i) \<and> colon \<notin> set (strconv_FormatInt i)"
proof -
  have "\<not> is_digit (CHR 0x5B)" "\<not> is_digit (CHR 0x5D)" "\<not> is_digit colon" by (simp_all add: is_digit_def)
  then show ?thesis using FormatInt_chars [of _ i] by (fastforce simp: host_ok_def)
qed

lemma add_peer_tunnel:
  "host_ok (tn_Hostname t) \<Longrightarrow> add_peer (''peer:'' @ tunnel_host t) ps = AList.update (tn_Hostname t) (tunnel_host t) ps"
  using FormatInt_port [of "tn_Port t"] SplitHostPort_Join [of "tn_Hostname t" "strconv_FormatInt (tn_Port t)"]
  by (simp add: add_peer_def tunnel_host_def strings_TrimPrefix_def strings_HasPrefix_def Let_def)

text \<open>
  C33. The peers a node reads are the nodes that registered. If the service lists the entries that
  \<open>WithTunnel\<close> of the given nodes posts (host names without brackets, no two alike), the peer map
  has exactly one entry per registered node, keyed by its host name and pointing to its host and
  port, besides the reading node itself; any answer that is not a list leaves the node alone.
\<close>

theorem peers_are_registrations:
  assumes "\<forall>t \<in> set ts. host_ok (tn_Hostname t)" "distinct (map tn_Hostname ts)"
    and "json_strings N body = Some (map (\<lambda>t. ''peer:'' @ tunnel_host t) ts)"
    and "rs_status resp = 200" "rs_body resp = Inr body"
  shows "map_of (peers_of_response N [(tn_Hostname me, tunnel_host me)] (Inr resp)) =
      [tn_Hostname me \<mapsto> tunnel_host me] ++ map_of (map (\<lambda>t. (tn_Hostname t, tunnel_host t)) ts) \<and>
    peers_of_response N [(tn_Hostname me, tunnel_host me)] (Inl e) = [(tn_Hostname me, tunnel_host me)]"
proof -
  have "fold add_peer (map (\<lambda>t. ''peer:'' @ tunnel_host t) ts) ps =
      maps_Copy ps (map (\<lambda>t. (tn_Hostname t, tunnel_host t)) ts)" for ps
    using assms(1)
  proof (induction ts arbitrary: ps)
    case (Cons t ts)
    then show ?case using add_peer_tunnel [of t ps] by simp
  qed simp
  moreover have "map_of (maps_Copy [(tn_Hostname me, tunnel_host me)] (map (\<lambda>t. (tn_Hostname t, tunnel_host t)) ts)) =
      map_of [(tn_Hostname me, tunnel_host me)] ++ map_of (map (\<lambda>t. (tn_Hostname t, tunnel_host t)) ts)"
    using assms(2) by (intro map_of_maps_Copy_distinct) (simp add: comp_def)
  ultimately show ?thesis using assms(3-5) by (simp add: peers_of_response_def)
qed

theorem peers_are_registrations_witness:
  "map_of (peers_of_response ((counting_world True)\<lparr>json_strings := (\<lambda>b. Some [''peer:b.example:443''])\<rparr>)
     [(''a.example'', ''a.example:443'')] (Inr \<lparr>rs_status = 200, rs_location = [], rs_retry_after = [], rs_body = Inr []\<rparr>)) ''b.example'' =
   Some ''b.example:443''"
proof -
  let ?t = "\<lambda>h. \<lparr>tn_Hostname = h, tn_LocalIP = [], tn_LocalPort = 0, tn_Port = 443\<rparr>"
  have h: "tunnel_host (?t h) = h @ '':443''" if "colon \<notin> set h" for h
    using that by (simp add: tunnel_host_def JoinHostPort_def has_byte_def strconv_FormatInt_def dec_eval)
  show ?thesis
    using peers_are_registrations [of "[?t ''b.example'']" "(counting_world True)\<lparr>json_strings := (\<lambda>b. Some [''peer:b.example:443''])\<rparr>"
        "[]" "\<lparr>rs_status = 200, rs_location = [], rs_retry_after = [], rs_body = Inr []\<rparr>" "?t ''a.example''" EOF]
    by (simp add: h host_ok_def)
qed

section \<open>The seed is kept\<close>

text \<open>Requests change nothing but the world, and looking for a seed neither the stored seed nor the
  recorded cancellations.\<close>

definition same_book :: "string \<Rightarrow> error list \<Rightarrow> 'w discovery \<Rightarrow> bool" where
  "same_book s c d \<longleftrightarrow> dv_seed d = s \<and> dv_cancels d = c"

lemma same_book_update [simp]:
  "same_book s c (d\<lparr>dv_world := w\<rparr>) = same_book s c d"
  "same_book s c (d\<lparr>seedFile := f\<rparr>) = same_book s c d"
  "same_book s c (d\<lparr>NANOKUBE_SEED := e\<rparr>) = same_book s c d"
  by (simp_all add: same_book_def)

lemma do_loop_book: "same_book s c d \<Longrightarrow> same_book s c (snd (do_loop n N req sleep d))"
  by (induction n arbitrary: sleep d)
     (simp_all add: do_loop_Suc go_bind_def await_timer_def split: prod.splits option.splits outcome.splits bool.splits)

lemma do_req_book [go_triples]: "triple (same_book s c) (do_req n N req) (\<lambda>_. same_book s c) (same_book s c)"
  unfolding do_req_def by (rule triple_keepI) (rule do_loop_book)

lemma seed_create_book: "triple (same_book s c) (seed_create n N) (\<lambda>_. same_book s c) (same_book s c)"
proof (rule triple_pointwise)
  fix d :: "'a discovery" assume d: "same_book s c d"
  have t: "triple (same_book s c) (go_try_with (Wrapf ''failed to do request'') (do_req n N req) (\<lambda>resp. go_ret (f resp)))
      (\<lambda>_. same_book s c) (same_book s c)" for req and f :: "http_resp \<Rightarrow> error + string"
    by (rule triple_try_with [where R = "\<lambda>_. same_book s c"])
       (auto intro: triple_ret triple_conseq [OF do_req_book] split: sum.splits)
  show "triple (\<lambda>t. t = d) (seed_create n N) (\<lambda>_. same_book s c) (same_book s c)"
    using d t by (auto simp: triple_def seed_create_def Let_def split: option.splits sum.splits)
qed

lemma seed_getOrCreate_book: "triple (same_book s c) (seed_getOrCreate n N) (\<lambda>_. same_book s c) (same_book s c)"
proof (rule triple_pointwise)
  fix d :: "'a discovery" assume d: "same_book s c d"
  have t: "triple (same_book s c) (go_try_with (Wrapf ''failed to do request'') (do_req n N req) (\<lambda>resp.
             if rs_status resp = 200 then go_ret (Inr seed)
             else if rs_status resp \<noteq> 404 then go_ret (Inl (unexpected_status (rs_status resp)))
             else seed_create n N)) (\<lambda>_. same_book s c) (same_book s c)" for req seed
    by (rule triple_try_with [where R = "\<lambda>_. same_book s c"])
       (auto intro: triple_ret seed_create_book triple_conseq [OF do_req_book] split: sum.splits)
  show "triple (\<lambda>t. t = d) (seed_getOrCreate n N) (\<lambda>_. same_book s c) (same_book s c)"
    using d t seed_create_book [of s c n N] by (auto simp: triple_def seed_getOrCreate_def Let_def split: option.splits sum.splits)
qed

text \<open>
  A seed, once obtained, is the same everywhere. The first call of \<open>Seed\<close> that returns either
  recorded exactly one cancellation and left the seed as it was, or left the returned seed in the
  seed file and in the environment and recorded no cancellation; every later call returns the
  same value without any request.
\<close>

theorem seed_is_kept:
  assumes "\<not> seedOnce d" "Seed n N d = (Ret s, d')"
  shows "((s = dv_seed d \<and> (\<exists>e. dv_cancels d' = dv_cancels d @ [e])) \<or>
          (seedFile d' = Some s \<and> NANOKUBE_SEED d' = s \<and> dv_cancels d' = dv_cancels d)) \<and>
         Seed m N d' = (Ret s, d')"
proof -
  obtain d1 where b: "seed_body n N d = (Ret (), d1)" and d': "d' = d1\<lparr>seedOnce := True\<rparr>" and s: "s = dv_seed d1"
    using assms by (auto simp: Seed_def go_bind_def split: prod.splits outcome.splits)
  obtain r d2 where g: "seed_getOrCreate n N d = (Ret r, d2)"
    and r: "(case r of Inl e \<Rightarrow> (Ret (), dv_cancel e d2)
      | Inr seed \<Rightarrow> (case file_write N (dv_world d2) of
             Some e \<Rightarrow> (Ret (), dv_cancel (Wrapf ''failed to write seed file'' e) d2)
           | None \<Rightarrow> (Ret (), d2\<lparr>seedFile := Some seed, NANOKUBE_SEED := seed, dv_seed := seed\<rparr>))) = (Ret (), d1)"
    using b by (auto simp: seed_body_def)
  have k: "same_book (dv_seed d) (dv_cancels d) d2"
    using triple_Ret [OF seed_getOrCreate_book _ g, of "dv_seed d" "dv_cancels d"] by (simp add: same_book_def)
  have "Seed m N d' = (Ret s, d')" by (simp add: Seed_def go_bind_def d' s)
  moreover have "(s = dv_seed d \<and> (\<exists>e. dv_cancels d' = dv_cancels d @ [e])) \<or>
          (seedFile d' = Some s \<and> NANOKUBE_SEED d' = s \<and> dv_cancels d' = dv_cancels d)"
    using r k by (auto simp: d' s same_book_def dv_cancel_def split: sum.splits option.splits)
  ultimately show ?thesis by blast
qed

theorem seed_is_kept_witness:
  "\<exists>d'. Seed 3 (counting_world True) (NewDiscovery (Some ''abc'') [] 2) = (Ret ''abc'', d') \<and> seedFile d' = Some ''abc''"
proof -
  have e: "\<exists>d'. Seed 3 (counting_world True) (NewDiscovery (Some ''abc'') [] 2) = (Ret ''abc'', d') \<and> dv_cancels d' = []"
    by (simp add: Seed_def seed_body_def seed_getOrCreate_def new_req_def do_req_def numeral_3_eq_3 do_loop_Suc go_bind_def go_try_with_def
          failed_attempt_def counting_world_def NewDiscovery_def Let_def)
  then obtain d' where d: "Seed 3 (counting_world True) (NewDiscovery (Some ''abc'') [] 2) = (Ret ''abc'', d')" "dv_cancels d' = []" by blast
  with seed_is_kept [OF _ d(1)] show ?thesis by (auto simp: NewDiscovery_def)
qed

end
