(* ===== verification/Storage.thy ===== *)
theory Storage
  imports Etcd_Client Discovery
begin

text \<open>
  The storage reference of \<^verbatim>\<open>src/pkg/storage/storage.go\<close>: values other components provide once
  (discovery, transport, server configuration), the client made from the transport on first use
  (an embedded etcd server or a SQLite bridge), the port, and the paths the peer handler serves.
  The servers themselves are library code: what starting them gives is a parameter. Waiting for a
  value ends when it is provided or when the storage context is done, and does not tell which.
\<close>

section \<open>Schemes\<close>

text \<open>The scheme part of \<^verbatim>\<open>url.Parse\<close>: letters, then letters, digits and \<open>+-.\<close>, up to a colon. Whether
  the rest of the text is a valid URL is the parameter \<open>url_ok\<close>.\<close>

definition is_alpha :: "char \<Rightarrow> bool" where
  "is_alpha c \<longleftrightarrow> (let n = (of_char c :: nat) in (65 \<le> n \<and> n \<le> 90) \<or> (97 \<le> n \<and> n \<le> 122))"

fun getScheme :: "string \<Rightarrow> string \<Rightarrow> string option" where
  "getScheme acc [] = Some []"
| "getScheme acc (c # cs) =
     (if is_alpha c then getScheme (acc @ [c]) cs
      else if is_digit c \<or> c = CHR ''+'' \<or> c = dash \<or> c = dot
        then (if acc = [] then Some [] else getScheme (acc @ [c]) cs)
      else if c = colon then (if acc = [] then None else Some acc)
      else Some [])"

definition url_scheme :: "(string \<Rightarrow> bool) \<Rightarrow> string \<Rightarrow> error + string" where
  "url_scheme url_ok u =
     (case getScheme [] u of
        None \<Rightarrow> Inl (Errorf ''missing protocol scheme'')
      | Some s \<Rightarrow> if url_ok u then Inr (strings_ToLower s) else Inl (Errorf ''parse url''))"

section \<open>State\<close>

datatype cluster_state = ClusterNew | ClusterExisting

record etcd_config =
  ecf_Name :: string
  ecf_Dir :: string
  ecf_Peers :: urls_map
  ecf_Token :: string
  ecf_ClusterState :: cluster_state
  ecf_ClientURL :: string
  ecf_TickMs :: int
  ecf_ElectionMs :: int

text \<open>\<open>etcd_nil\<close> is what the constructors of the server interfaces do with a nil server, and
  \<open>etcd_nil_method\<close> what a method of a nil server does.\<close>

record 'w storage_env =
  url_ok :: "string \<Rightarrow> bool"
  sqlite_mkdir :: "string \<Rightarrow> error option"
  sqlite_new :: "string \<Rightarrow> error option"
  sqlite_start :: "string \<Rightarrow> error option"
  sqlite_servers :: "string \<Rightarrow> 'w etcd_servers"
  etcd_validate :: "etcd_config \<Rightarrow> error option"
  etcd_new :: "etcd_config \<Rightarrow> error option"
  etcd_servers_of :: "etcd_config \<Rightarrow> 'w etcd_servers"
  etcd_nil :: "'w etcd_servers outcome"
  etcd_nil_method :: "unit outcome"
  wal_exists :: "string \<Rightarrow> bool"
  listen :: "error + int"

record 'w storage =
  sg_cancelled :: "error option"
  sg_transport :: "string list once"
  sg_serverConfig :: "string once"
  sg_rest :: "string option"
  sg_discovery :: "bool once"
  clientOnce :: bool
  sg_client :: "'w etcd_client option"
  sqliteOnce :: bool
  sqliteBridge :: "'w etcd_servers option"
  embeddedOnce :: bool
  embedded :: "'w etcd_servers option"
  etcd_configs :: "etcd_config list"
  portOnce :: bool
  port :: int
  sg_paths :: "string list"

definition StorageRef :: "'w storage" where
  "StorageRef =
     \<lparr>sg_cancelled = None, sg_transport = None, sg_serverConfig = None, sg_rest = None, sg_discovery = None,
      clientOnce = False, sg_client = None, sqliteOnce = False, sqliteBridge = None,
      embeddedOnce = False, embedded = None, etcd_configs = [], portOnce = False, port = 0, sg_paths = []\<rparr>"

text \<open>The first cause given to \<^verbatim>\<open>context.WithCancelCause\<close> stays.\<close>

definition storage_Cancel :: "error \<Rightarrow> 'w storage \<Rightarrow> 'w storage" where
  "storage_Cancel e s = s\<lparr>sg_cancelled := once_provide e (sg_cancelled s)\<rparr>"

definition WithDiscovery :: "bool \<Rightarrow> 'w storage \<Rightarrow> 'w storage" where
  "WithDiscovery d s = s\<lparr>sg_discovery := once_provide d (sg_discovery s)\<rparr>"

definition WithTransport :: "string list \<Rightarrow> 'w storage \<Rightarrow> 'w storage" where
  "WithTransport t s = s\<lparr>sg_transport := once_provide t (sg_transport s)\<rparr>"

text \<open>The server configuration's REST options getter is kept aside and replaced by the storage.\<close>

definition WithServerConfig :: "string \<Rightarrow> 'w storage \<Rightarrow> 'w storage" where
  "WithServerConfig rest s =
     (case sg_serverConfig s of
        None \<Rightarrow> s\<lparr>sg_serverConfig := Some rest, sg_rest := Some rest\<rparr>
      | Some _ \<Rightarrow> s)"

definition storage_await :: "'a once \<Rightarrow> ('w storage, unit) go" where
  "storage_await cell s = (if cell \<noteq> None \<or> sg_cancelled s \<noteq> None then (Ret (), s) else (Blocked, s))"

definition Transport :: "('w storage, string list) go" where
  "Transport s =
     go_bind (storage_await (sg_transport s)) (\<lambda>_. go_ret (case sg_transport s of Some t \<Rightarrow> t | None \<Rightarrow> [])) s"

text \<open>\<^verbatim>\<open>GetRESTOptions\<close>: the original getter (nil before the configuration is there), with the
  decorator replaced. \<open>get\<close> is the library's getter.\<close>

definition GetRESTOptions :: "(string \<Rightarrow> error + string) \<Rightarrow> ('w storage, error + string) go" where
  "GetRESTOptions get s =
     go_bind (storage_await (sg_serverConfig s)) (\<lambda>_.
       case sg_rest s of
         None \<Rightarrow> go_panic ''nil pointer dereference''
       | Some rest \<Rightarrow> go_ret (case get rest of Inl e \<Rightarrow> Inl e | Inr o1 \<Rightarrow> Inr (''decorated:'' @ o1))) s"

text \<open>The decorator hands the transport to the storage and then calls the original.\<close>

definition StorageDecorator :: "(string list \<Rightarrow> error + unit) \<Rightarrow> string list \<Rightarrow> ('w storage, error + unit) go" where
  "StorageDecorator inner transport s = (Ret (inner transport), WithTransport transport s)"

section \<open>Backends\<close>

definition sqlite_dsn :: "string \<Rightarrow> string" where
  "sqlite_dsn dir = filepath_Join [dir, ''state.db''] @ ''?_journal=WAL&cache=shared&_busy_timeout=30000&_txlock=immediate''"

definition sqliteEtcd :: "'w storage_env \<Rightarrow> string \<Rightarrow> 'w storage \<Rightarrow> 'w etcd_servers option \<times> 'w storage" where
  "sqliteEtcd E dir s0 =
     (let s = (if sqliteOnce s0 then s0
               else (case sqlite_mkdir E dir of
                       Some e \<Rightarrow> storage_Cancel (Wrapf ''sqlite: create data dir'' e) s0
                     | None \<Rightarrow>
                         (case sqlite_new E (sqlite_dsn dir) of
                            Some e \<Rightarrow> storage_Cancel (Wrapf ''sqlite: create backend'' e) s0
                          | None \<Rightarrow>
                              (case sqlite_start E (sqlite_dsn dir) of
                                 Some e \<Rightarrow> storage_Cancel (Wrapf ''sqlite: start backend'' e) s0
                               | None \<Rightarrow> s0\<lparr>sqliteBridge := Some (sqlite_servers E dir)\<rparr>)))\<lparr>sqliteOnce := True\<rparr>)
      in (sqliteBridge s, s))"

definition storage_Port :: "'w storage_env \<Rightarrow> 'w storage \<Rightarrow> int \<times> 'w storage" where
  "storage_Port E s0 =
     (let s = (if portOnce s0 then s0
               else (case listen E of
                       Inl e \<Rightarrow> storage_Cancel e s0
                     | Inr p \<Rightarrow> s0\<lparr>port := p\<rparr>)\<lparr>portOnce := True\<rparr>)
      in (port s, s))"

definition Endpoints :: "'w storage_env \<Rightarrow> 'w storage \<Rightarrow> string list \<times> 'w storage" where
  "Endpoints E s = (case storage_Port E s of (p, s') \<Rightarrow> ([''http://127.0.0.1:'' @ strconv_FormatInt p], s'))"

text \<open>Whether a node bootstraps a cluster: only alone, and only without a log of its own.\<close>

definition cluster_state_of :: "'w storage_env \<Rightarrow> urls_map \<Rightarrow> string \<Rightarrow> cluster_state" where
  "cluster_state_of E peers dir =
     (if length peers \<le> 1
      then (if wal_exists E (filepath_Join [dir, ''member'', ''wal'']) then ClusterExisting else ClusterNew)
      else ClusterExisting)"

text \<open>\<^verbatim>\<open>embeddedEtcd\<close>, given what discovery answers: the peers, this node's name and the seed.\<close>

definition embeddedEtcd :: "'w storage_env \<Rightarrow> urls_map \<Rightarrow> string \<Rightarrow> string \<Rightarrow> string \<Rightarrow> 'w storage \<Rightarrow> 'w etcd_servers option \<times> 'w storage" where
  "embeddedEtcd E peers name seed dir s0 =
     (let s = (if embeddedOnce s0 then s0
               else (case Endpoints E s0 of (eps, s1) \<Rightarrow>
                 let cfg = \<lparr>ecf_Name = name, ecf_Dir = dir, ecf_Peers = peers, ecf_Token = seed,
                            ecf_ClusterState = cluster_state_of E peers dir, ecf_ClientURL = hd eps,
                            ecf_TickMs = 1000, ecf_ElectionMs = 10000\<rparr>
                 in (case etcd_validate E cfg of
                       Some e \<Rightarrow> storage_Cancel (Wrapf ''embed: validate config'' e) s1
                     | None \<Rightarrow>
                         (case etcd_new E cfg of
                            Some e \<Rightarrow> storage_Cancel (Wrapf ''embed: new server'' e) (s1\<lparr>etcd_configs := etcd_configs s1 @ [cfg]\<rparr>)
                          | None \<Rightarrow> s1\<lparr>embedded := Some (etcd_servers_of E cfg), etcd_configs := etcd_configs s1 @ [cfg]\<rparr>)))\<lparr>embeddedOnce := True\<rparr>)
      in (embedded s, s))"

section \<open>The client\<close>

text \<open>A client made in the storage's once, when making it does not panic.\<close>

fun outcome_then :: "'a outcome \<Rightarrow> ('a \<Rightarrow> 'b outcome) \<Rightarrow> 'b outcome" where
  "outcome_then (Ret a) f = f a"
| "outcome_then (Panic p) f = Panic p"
| "outcome_then Goexit f = Goexit"
| "outcome_then Blocked f = Blocked"

definition client_of :: "('w etcd_client, unit) go \<Rightarrow> 'w etcd_client outcome" where
  "client_of f = (case f NewEtcdClient of
     (Ret _, c) \<Rightarrow> Ret c | (Panic p, _) \<Rightarrow> Panic p | (Goexit, _) \<Rightarrow> Goexit | (Blocked, _) \<Rightarrow> Blocked)"

definition set_client :: "'w etcd_client outcome \<Rightarrow> ('w storage, unit) go" where
  "set_client r s = (case r of Ret c \<Rightarrow> (Ret (), s\<lparr>sg_client := Some c\<rparr>) | _ \<Rightarrow> (outcome_then r (\<lambda>_. Ret ()), s))"

definition client_body :: "'w storage_env \<Rightarrow> urls_map \<Rightarrow> string \<Rightarrow> string \<Rightarrow> ('w storage, unit) go" where
  "client_body E peers name seed s0 =
     go_bind (storage_await (sg_transport s0)) (\<lambda>_ s.
       case (case sg_transport s of Some t \<Rightarrow> t | None \<Rightarrow> []) of
         [] \<Rightarrow> (Panic ''index out of range'', s)
       | u # _ \<Rightarrow>
           (case url_scheme (url_ok E) u of
              Inl e \<Rightarrow> (Ret (), storage_Cancel (Wrapf ''invalid transport server list URL'' e) s)
            | Inr scheme \<Rightarrow>
                if scheme = ''embed'' then
                  (case embeddedEtcd E peers name seed (strings_TrimPrefix u ''embed://'') s of
                     (srv, s') \<Rightarrow>
                       set_client (case srv of Some v \<Rightarrow> client_of (WithServer v)
                                     | None \<Rightarrow> outcome_then (etcd_nil E) (\<lambda>v. client_of (WithServer v))) s')
                else if scheme = ''sqlite'' then
                  (case sqliteEtcd E (strings_TrimPrefix u ''sqlite://'') s of
                     (b, s') \<Rightarrow> set_client (client_of (WithBridge b)) s')
                else (Ret (), storage_Cancel (Errorf (''unsupported transport scheme: '' @ scheme)) s))) s0"

definition storage_Client :: "'w storage_env \<Rightarrow> urls_map \<Rightarrow> string \<Rightarrow> string \<Rightarrow> ('w storage, 'w etcd_client option) go" where
  "storage_Client E peers name seed =
     go_bind (\<lambda>s. if clientOnce s then (Ret (), s)
                  else case client_body E peers name seed s of (r, s') \<Rightarrow> (r, s'\<lparr>clientOnce := True\<rparr>))
       (\<lambda>_ s. (Ret (sg_client s), s))"

text \<open>The factory installed for the API server.\<close>

definition newETCD3Client :: "'w storage_env \<Rightarrow> urls_map \<Rightarrow> string \<Rightarrow> string \<Rightarrow> string list \<Rightarrow> ('w storage, error + 'w etcd_client) go" where
  "newETCD3Client E peers name seed cfg s0 =
     go_bind (storage_Client E peers name seed) (\<lambda>c s.
       case c of
         None \<Rightarrow> (Ret (Inl (Wrapf ''embedded etcd client unavailable'' (case sg_cancelled s of Some e \<Rightarrow> e | None \<Rightarrow> Errorf []))), s)
       | Some c \<Rightarrow> (Ret (Inr c), s)) (WithTransport cfg s0)"

section \<open>HTTP\<close>

datatype raft_answer = RaftServed | RaftError int string

definition RaftHandler :: "'w storage_env \<Rightarrow> urls_map \<Rightarrow> string \<Rightarrow> string \<Rightarrow> ('w storage, raft_answer) go" where
  "RaftHandler E peers name seed s0 =
     go_bind (storage_await (sg_transport s0)) (\<lambda>_ s.
       case (case sg_transport s of Some t \<Rightarrow> t | None \<Rightarrow> []) of
         [] \<Rightarrow> (Panic ''index out of range'', s)
       | u # _ \<Rightarrow>
           (case url_scheme (url_ok E) u of
              Inl e \<Rightarrow> (Ret (RaftError 500 ''invalid transport server list URL''), s)
            | Inr scheme \<Rightarrow>
                if scheme = ''embed'' then
                  (case embeddedEtcd E peers name seed (strings_TrimPrefix u ''embed://'') s of
                     (None, s') \<Rightarrow> (outcome_then (etcd_nil_method E) (\<lambda>_. Ret RaftServed), s')
                   | (Some _, s') \<Rightarrow> (Ret RaftServed, s'))
                else (Ret (RaftError 501 (''raft handler not configured for '' @ scheme)), s))) s0"

definition WithMux :: "'w storage_env \<Rightarrow> urls_map \<Rightarrow> string \<Rightarrow> string \<Rightarrow> ('w storage, unit) go" where
  "WithMux E peers name seed s0 =
     go_bind (storage_await (sg_transport s0)) (\<lambda>_ s.
       case (case sg_transport s of Some t \<Rightarrow> t | None \<Rightarrow> []) of
         [] \<Rightarrow> (Panic ''index out of range'', s)
       | u # _ \<Rightarrow>
           (case url_scheme (url_ok E) u of
              Inl e \<Rightarrow> (Ret (), storage_Cancel (Wrapf ''invalid transport server list URL'' e) s)
            | Inr scheme \<Rightarrow>
                if scheme = ''embed'' then
                  (case embeddedEtcd E peers name seed (strings_TrimPrefix u ''embed://'') s of
                     (srv, s') \<Rightarrow>
                       (case outcome_then (if srv = None then etcd_nil_method E else Ret ()) Ret of
                          Ret _ \<Rightarrow> (Ret (), s'\<lparr>sg_paths := sg_paths s' @ [''/raft'', ''/raft/'', ''/members'']\<rparr>)
                        | r \<Rightarrow> (r, s')))
                else (Ret (), s))) s0"

interpretation storage_discovery: provided_once WithDiscovery sg_discovery
  by unfold_locales (simp add: WithDiscovery_def)

interpretation storage_transport: provided_once WithTransport sg_transport
  by unfold_locales (simp add: WithTransport_def)

interpretation storage_config: provided_once WithServerConfig sg_serverConfig
  by unfold_locales (auto simp: WithServerConfig_def once_provide_def split: option.splits)

interpretation storage_cause: provided_once storage_Cancel sg_cancelled
  by unfold_locales (simp add: storage_Cancel_def)

section \<open>One backend\<close>

datatype storage_op =
    OpWithTransport "string list"
  | OpClient
  | OpNewETCD3Client "string list"
  | OpRaftHandler
  | OpWithMux

fun storage_step :: "'w storage_env \<Rightarrow> urls_map \<Rightarrow> string \<Rightarrow> string \<Rightarrow> storage_op \<Rightarrow> 'w storage \<Rightarrow> 'w storage" where
  "storage_step E ps nm sd (OpWithTransport t) s = WithTransport t s"
| "storage_step E ps nm sd OpClient s = snd (storage_Client E ps nm sd s)"
| "storage_step E ps nm sd (OpNewETCD3Client t) s = snd (newETCD3Client E ps nm sd t s)"
| "storage_step E ps nm sd OpRaftHandler s = snd (RaftHandler E ps nm sd s)"
| "storage_step E ps nm sd OpWithMux s = snd (WithMux E ps nm sd s)"

definition storage_inv :: "urls_map \<Rightarrow> 'w storage_env \<Rightarrow> 'w storage \<Rightarrow> bool" where
  "storage_inv ps E s \<longleftrightarrow> length (etcd_configs s) \<le> 1 \<and> (\<not> embeddedOnce s \<longrightarrow> etcd_configs s = []) \<and>
     (\<forall>c \<in> set (etcd_configs s). ecf_Peers c = ps \<and> ecf_ClusterState c = cluster_state_of E ps (ecf_Dir c)) \<and>
     (sg_client s \<noteq> None \<longrightarrow> clientOnce s)"

lemma storage_inv_simps [simp]:
  "storage_inv ps E (s\<lparr>sg_cancelled := x\<rparr>) = storage_inv ps E s" "storage_inv ps E (s\<lparr>sg_transport := y\<rparr>) = storage_inv ps E s"
  "storage_inv ps E (s\<lparr>sqliteOnce := b\<rparr>) = storage_inv ps E s" "storage_inv ps E (s\<lparr>sqliteBridge := z\<rparr>) = storage_inv ps E s"
  "storage_inv ps E (s\<lparr>port := p\<rparr>) = storage_inv ps E s" "storage_inv ps E (s\<lparr>portOnce := b\<rparr>) = storage_inv ps E s"
  "storage_inv ps E (s\<lparr>sg_paths := l\<rparr>) = storage_inv ps E s"
  by (simp_all add: storage_inv_def)

lemma Cancel_inv [simp]: "storage_inv ps E (storage_Cancel e s) = storage_inv ps E s"
  by (simp add: storage_Cancel_def)

lemma sqliteEtcd_inv: "storage_inv ps E s \<Longrightarrow> storage_inv ps E (snd (sqliteEtcd E d s))"
  by (simp add: sqliteEtcd_def Let_def split: option.splits)

lemma Endpoints_frame:
  "storage_inv ps E s \<Longrightarrow> storage_inv ps E (snd (Endpoints E s))"
  "embeddedOnce (snd (Endpoints E s)) = embeddedOnce s" "clientOnce (snd (Endpoints E s)) = clientOnce s"
  "sg_client (snd (Endpoints E s)) = sg_client s"
  by (simp_all add: Endpoints_def storage_Port_def Let_def storage_Cancel_def split: sum.splits)

lemma embeddedEtcd_inv:
  assumes "storage_inv ps E s"
  shows "storage_inv ps E (snd (embeddedEtcd E ps nm sd d s)) \<and>
    sg_client (snd (embeddedEtcd E ps nm sd d s)) = sg_client s \<and> clientOnce (snd (embeddedEtcd E ps nm sd d s)) = clientOnce s"
proof (cases "embeddedOnce s")
  case False
  obtain eps s1 where e: "Endpoints E s = (eps, s1)" by (cases "Endpoints E s")
  then have "storage_inv ps E s1" "\<not> embeddedOnce s1" "sg_client s1 = sg_client s" "clientOnce s1 = clientOnce s"
    using Endpoints_frame(1) [of ps E s] Endpoints_frame(2-) [of E s] assms False by auto
  then show ?thesis
    using False e by (auto simp: embeddedEtcd_def Let_def storage_inv_def storage_Cancel_def split: option.splits)
qed (use assms in \<open>simp add: embeddedEtcd_def\<close>)

text \<open>While the client's once runs no client is set; so the body is seen as keeping the invariant
  with the once counted as done.\<close>

lemma storage_inv_once: "storage_inv ps E s \<Longrightarrow> storage_inv ps E (s\<lparr>clientOnce := True\<rparr>)"
  by (simp add: storage_inv_def)

lemma set_client_inv: "storage_inv ps E s \<Longrightarrow> storage_inv ps E ((snd (set_client r s))\<lparr>clientOnce := True\<rparr>)"
  by (cases r) (simp_all add: set_client_def storage_inv_def)

lemma client_body_inv:
  assumes "storage_inv ps E s"
  shows "storage_inv ps E ((snd (client_body E ps nm sd s))\<lparr>clientOnce := True\<rparr>)"
proof (cases "sg_transport s = None \<and> sg_cancelled s = None")
  case True
  then show ?thesis
    using assms by (simp add: client_body_def go_bind_def storage_await_def storage_inv_once)
next
  case False
  then have a: "storage_await (sg_transport s) s = (Ret (), s)" by (simp add: storage_await_def)
  show ?thesis
  proof (cases "case sg_transport s of Some t \<Rightarrow> t | None \<Rightarrow> []")
    case Nil
    with a assms show ?thesis by (simp add: client_body_def storage_inv_once)
  next
    case (Cons u us)
    show ?thesis
    proof (cases "url_scheme (url_ok E) u")
      case (Inl e)
      with a Cons assms show ?thesis by (simp add: client_body_def storage_inv_once)
    next
      case (Inr sch)
      have em: "storage_inv ps E ((snd (set_client r (snd (embeddedEtcd E ps nm sd d s))))\<lparr>clientOnce := True\<rparr>)" for r d
        using embeddedEtcd_inv [OF assms] by (simp add: set_client_inv)
      have sq: "storage_inv ps E ((snd (set_client r (snd (sqliteEtcd E d s))))\<lparr>clientOnce := True\<rparr>)" for r d
        using sqliteEtcd_inv [OF assms] by (simp add: set_client_inv)
      from a Cons Inr em sq assms show ?thesis
        by (simp add: client_body_def storage_inv_once case_prod_beta)
    qed
  qed
qed

lemma storage_Client_inv:
  assumes "storage_inv ps E s"
  shows "storage_inv ps E (snd (storage_Client E ps nm sd s)) \<and>
    (\<forall>c. sg_client s = Some c \<longrightarrow> sg_client (snd (storage_Client E ps nm sd s)) = Some c)"
proof (cases "clientOnce s")
  case False
  then have "sg_client s = None" using assms by (auto simp: storage_inv_def)
  with False client_body_inv [OF assms, of nm sd] show ?thesis
    by (cases "client_body E ps nm sd s"; cases "fst (client_body E ps nm sd s)")
       (simp_all add: storage_Client_def go_bind_def)
qed (use assms in \<open>simp add: storage_Client_def go_bind_def\<close>)

lemma mux_inv:
  assumes "storage_inv ps E s"
  shows "storage_inv ps E (snd (WithMux E ps nm sd s)) \<and> sg_client (snd (WithMux E ps nm sd s)) = sg_client s"
    and "storage_inv ps E (snd (RaftHandler E ps nm sd s)) \<and> sg_client (snd (RaftHandler E ps nm sd s)) = sg_client s"
  using assms embeddedEtcd_inv [OF assms]
  by (auto simp: WithMux_def RaftHandler_def go_bind_def storage_await_def storage_Cancel_def case_prod_beta
        split: option.splits list.splits sum.splits outcome.splits)

lemma storage_step_inv:
  assumes "storage_inv ps E s"
  shows "storage_inv ps E (storage_step E ps nm sd op s) \<and>
    (\<forall>c. sg_client s = Some c \<longrightarrow> sg_client (storage_step E ps nm sd op s) = Some c)"
proof (cases op)
  case (OpNewETCD3Client t)
  have "snd (newETCD3Client E ps nm sd t s) = snd (storage_Client E ps nm sd (WithTransport t s))"
    by (auto simp: newETCD3Client_def storage_Client_def go_bind_def split: prod.splits outcome.splits option.splits)
  with storage_Client_inv [of ps E "WithTransport t s" nm sd] assms OpNewETCD3Client show ?thesis
    by (simp add: WithTransport_def)
qed (use assms storage_Client_inv [OF assms] mux_inv [OF assms] in \<open>simp_all add: WithTransport_def\<close>)

text \<open>
  C19. The storage has one backend. Over any sequence of client requests, transports, raft requests
  and route installations from a fresh storage, at most one embedded etcd server is created; it
  bootstraps a new cluster only if it has at most one known peer and no log on disk; and a client
  that was handed out once is the client for ever.
\<close>

theorem storage_one_backend:
  fixes ops later :: "storage_op list" and E :: "'w storage_env" and ps :: urls_map and nm sd :: string
  defines "s \<equiv> fold (storage_step E ps nm sd) ops StorageRef"
  shows "length (etcd_configs s) \<le> 1 \<and>
    (\<forall>c \<in> set (etcd_configs s). ecf_ClusterState c = ClusterNew \<longrightarrow>
       length ps \<le> 1 \<and> \<not> wal_exists E (filepath_Join [ecf_Dir c, ''member'', ''wal''])) \<and>
    (\<forall>c. sg_client s = Some c \<longrightarrow> sg_client (fold (storage_step E ps nm sd) later s) = Some c)"
proof -
  have run: "storage_inv ps E s \<Longrightarrow> storage_inv ps E (fold (storage_step E ps nm sd) ops s) \<and>
      (\<forall>c. sg_client s = Some c \<longrightarrow> sg_client (fold (storage_step E ps nm sd) ops s) = Some c)" for ops and s :: "'w storage"
  proof (induction ops arbitrary: s)
    case (Cons op ops)
    then show ?case using storage_step_inv [OF Cons.prems, of nm sd op] by simp
  qed simp
  have "storage_inv ps E (StorageRef :: 'w storage)" by (simp add: storage_inv_def StorageRef_def)
  then have i: "storage_inv ps E s" unfolding s_def using run by blast
  with run [OF i, of later] show ?thesis
    by (auto simp: storage_inv_def cluster_state_of_def split: if_splits)
qed

text \<open>
  A failed SQLite backend is handed out as a working client. When preparing the database
  directory fails, the factory records the failure as the cause of cancellation and still
  returns a client and no error, because the client is set although the bridge is nil.
\<close>

theorem sqlite_failure_unreported:
  fixes E :: "'w storage_env"
  assumes "sqlite_mkdir E ''/d'' = Some e" "url_ok E ''sqlite:///d''"
  shows "\<exists>c s. newETCD3Client E ps nm sd [''sqlite:///d''] (StorageRef :: 'w storage) = (Ret (Inr c), s) \<and>
    sg_cancelled s = Some (Wrapf ''sqlite: create data dir'' e) \<and> ec_kv c = Some None"
proof -
  have "url_scheme (url_ok E) ''sqlite:///d'' = Inr ''sqlite''"
    using assms(2) by (simp add: url_scheme_def is_alpha_def strings_ToLower_def char_ToLower_def is_digit_def)
  then show ?thesis
    using assms(1)
    by (simp add: newETCD3Client_def storage_Client_def client_body_def go_bind_def storage_await_def WithTransport_def StorageRef_def
        once_provide_def sqliteEtcd_def strings_TrimPrefix_def strings_HasPrefix_def storage_Cancel_def set_client_def client_of_def
        WithBridge_def WithKV_def WithWatch_def WithLease_def WithMaintenance_def WithCluster_def WithAuth_def open_gate_def NewEtcdClient_def Let_def)
qed

definition demo_servers :: "unit etcd_servers" where
  "demo_servers = \<lparr>sv_kv = (\<lambda>m q w. (Inr q, w)), sv_watch = (\<lambda>m q w. (Inr q, w)), sv_lease = (\<lambda>m q w. (Inr q, w)),
     sv_maintenance = (\<lambda>m q w. (Inr q, w)), sv_cluster = (\<lambda>m q w. (Inr q, w)), sv_auth = (\<lambda>m q w. (Inr q, w))\<rparr>"

definition demo_env :: "unit storage_env" where
  "demo_env = \<lparr>url_ok = (\<lambda>_. True), sqlite_mkdir = (\<lambda>_. Some (Errorf ''full'')), sqlite_new = (\<lambda>_. None), sqlite_start = (\<lambda>_. None),
     sqlite_servers = (\<lambda>_. demo_servers), etcd_validate = (\<lambda>_. None), etcd_new = (\<lambda>_. None), etcd_servers_of = (\<lambda>_. demo_servers),
     etcd_nil = Panic ''nil pointer dereference'', etcd_nil_method = Panic ''nil pointer dereference'', wal_exists = (\<lambda>_. False), listen = Inr 4001\<rparr>"

lemma demo_env_simps:
  "sqlite_mkdir demo_env x = Some (Errorf ''full'')" "etcd_validate demo_env c = None" "etcd_new demo_env c = None"
  "etcd_servers_of demo_env c = demo_servers" "wal_exists demo_env x = False" "listen demo_env = Inr 4001"
  by (simp_all add: demo_env_def)

theorem storage_one_backend_witness:
  "map ecf_ClusterState (etcd_configs (fold (storage_step demo_env [(''a'', ''a:1'')] ''a'' ''seed'') [OpNewETCD3Client [''embed:///d''], OpWithMux] StorageRef)) = [ClusterNew] \<and>
   sg_client (fold (storage_step demo_env [(''a'', ''a:1'')] ''a'' ''seed'') [OpRaftHandler]
     (fold (storage_step demo_env [(''a'', ''a:1'')] ''a'' ''seed'') [OpNewETCD3Client [''embed:///d''], OpWithMux] StorageRef)) \<noteq> None"
proof -
  let ?s = "fold (storage_step demo_env [(''a'', ''a:1'')] ''a'' ''seed'') [OpNewETCD3Client [''embed:///d''], OpWithMux] StorageRef"
  have u: "url_scheme (url_ok demo_env) ''embed:///d'' = Inr ''embed''"
    by (simp add: demo_env_def url_scheme_def is_alpha_def strings_ToLower_def char_ToLower_def is_digit_def)
  have "map ecf_ClusterState (etcd_configs ?s) = [ClusterNew] \<and> sg_client ?s \<noteq> None"
    using u
    by (simp add: newETCD3Client_def storage_Client_def client_body_def go_bind_def storage_await_def WithTransport_def StorageRef_def
        once_provide_def strings_TrimPrefix_def strings_HasPrefix_def set_client_def client_of_def embeddedEtcd_def Endpoints_def
        storage_Port_def cluster_state_of_def WithMux_def
        WithServer_def WithKV_def WithWatch_def WithLease_def WithMaintenance_def WithCluster_def WithAuth_def open_gate_def NewEtcdClient_def Let_def
        demo_env_simps)
  with storage_one_backend [of demo_env "[(''a'', ''a:1'')]" "''a''" "''seed''" "[OpNewETCD3Client [''embed:///d''], OpWithMux]" "[OpRaftHandler]"]
  show ?thesis by auto
qed

theorem sqlite_failure_unreported_witness:
  "\<exists>c s. newETCD3Client demo_env [] [] [] [''sqlite:///d''] StorageRef = (Ret (Inr c), s) \<and> sg_cancelled s \<noteq> None"
  using sqlite_failure_unreported [of demo_env "Errorf ''full''" "[]" "[]" "[]"] by (auto simp: demo_env_def)

end
