(* ===== verification/Backend.thy ===== *)
theory Backend
  imports Network Tags Log_Stream Support
begin

text \<open>
  The backend between the kubelet and a driver (\<^verbatim>\<open>src/pkg/backend.go\<close>): file-system figures with
  their cache, and the container manager: admission of pods,
  probe rewriting, log streams of containers and the network of a pod. The driver's calls, the
  clock, the process environment and the home-directory library are parameters.
\<close>

section \<open>File-system figures\<close>

record fs_info =
  fs_Capacity :: "64 word"
  fs_Available :: "64 word"
  fs_Usage :: "64 word"
  fs_Inodes :: "64 word"
  fs_InodesFree :: "64 word"

definition fs_info_zero :: fs_info where
  "fs_info_zero = \<lparr>fs_Capacity = 0, fs_Available = 0, fs_Usage = 0, fs_Inodes = 0, fs_InodesFree = 0\<rparr>"

text \<open>\<open>host_exec\<close> is the driver's \<^verbatim>\<open>ExecOnHost\<close>: an image, a command and the paths to mount.\<close>

type_synonym host_exec = "string \<Rightarrow> string list \<Rightarrow> string list \<Rightarrow> error + string"

type_synonym fs_cache = "(string \<times> fs_info \<times> int) list"

definition stat_cmd :: "string \<Rightarrow> string list" where
  "stat_cmd path = [''stat'', ''-f'', ''-c'', ''%S %b %a %c %d'', ''/host'' @ path]"

definition parse_u64 :: "string \<Rightarrow> string \<Rightarrow> error + 64 word" where
  "parse_u64 what s =
     (case strconv_ParseUint 64 s of
        (n, None) \<Rightarrow> Inr (word_of_nat n)
      | (_, Some _) \<Rightarrow> Inl (Wrapf (''GetDirFsInfo: '' @ what) (Errorf ''parse'')))"

definition sum_then :: "'e + 'a \<Rightarrow> ('a \<Rightarrow> 'e + 'b) \<Rightarrow> 'e + 'b" where
  "sum_then r f = (case r of Inl e \<Rightarrow> Inl e | Inr a \<Rightarrow> f a)"

definition parse_stat :: "string \<Rightarrow> error + fs_info" where
  "parse_stat out =
     (let fields = strings_Fields out
      in if length fields \<noteq> 5
         then Inl (Errorf (''GetDirFsInfo: expected 5 fields, got '' @ nat_dec (length fields) @ '': '' @ strconv_Quote out))
         else sum_then (parse_u64 ''block size'' (fields ! 0)) (\<lambda>blockSize.
              sum_then (parse_u64 ''total blocks'' (fields ! 1)) (\<lambda>totalBlocks.
              sum_then (parse_u64 ''avail blocks'' (fields ! 2)) (\<lambda>availBlocks.
              sum_then (parse_u64 ''total inodes'' (fields ! 3)) (\<lambda>totalInodes.
              sum_then (parse_u64 ''free inodes'' (fields ! 4)) (\<lambda>freeInodes.
                let capacity = blockSize * totalBlocks; available = blockSize * availBlocks
                in Inr \<lparr>fs_Capacity = capacity, fs_Available = available, fs_Usage = capacity - available,
                        fs_Inodes = totalInodes, fs_InodesFree = freeInodes\<rparr>))))))"

text \<open>\<open>now\<close> is the clock at the look-up and \<open>at_store\<close> at the store. The result
  also says whether the host was asked.\<close>

definition fs_ttl :: int where
  "fs_ttl = 60 * 1000000000"

definition fs_probe :: "host_exec \<Rightarrow> int \<Rightarrow> string \<Rightarrow> fs_cache \<Rightarrow> (error + fs_info) \<times> bool \<times> fs_cache" where
  "fs_probe exec at_store path c =
     (case exec ''busybox'' (stat_cmd path) [path] of
        Inl e \<Rightarrow> (Inl e, True, c)
      | Inr out \<Rightarrow>
          (case parse_stat out of
             Inl e \<Rightarrow> (Inl e, True, c)
           | Inr info \<Rightarrow> (Inr info, True, AList.update path (info, at_store + fs_ttl) c)))"

definition GetDirFsInfo :: "host_exec \<Rightarrow> int \<Rightarrow> int \<Rightarrow> string \<Rightarrow> fs_cache \<Rightarrow> (error + fs_info) \<times> bool \<times> fs_cache" where
  "GetDirFsInfo exec now at_store path c =
     (case map_of c path of
        Some (info, expiry) \<Rightarrow> if now < expiry then (Inr info, False, c) else fs_probe exec at_store path c
      | None \<Rightarrow> fs_probe exec at_store path c)"

definition RootFsInfo :: "host_exec \<Rightarrow> int \<Rightarrow> int \<Rightarrow> fs_cache \<Rightarrow> (error + fs_info) \<times> bool \<times> fs_cache" where
  "RootFsInfo exec now at_store = GetDirFsInfo exec now at_store ''/''"

definition ImagesFsInfo :: fs_info where
  "ImagesFsInfo = fs_info_zero"

record capacity =
  cap_cpu :: int
  cap_memory :: "64 word"
  cap_pods :: int
  cap_storage :: "64 word option"

text \<open>\<^verbatim>\<open>GetCapacity\<close>: the number of cores and the memory of the machine are parameters.\<close>

definition GetCapacity :: "int \<Rightarrow> 64 word \<Rightarrow> host_exec \<Rightarrow> int \<Rightarrow> int \<Rightarrow> bool \<Rightarrow> fs_cache \<Rightarrow> capacity \<times> fs_cache" where
  "GetCapacity cores mem exec now at_store isolation c =
     (let cap = \<lparr>cap_cpu = cores, cap_memory = mem, cap_pods = 110, cap_storage = None\<rparr>
      in if isolation
         then (case RootFsInfo exec now at_store c of
                 (Inr info, _, c') \<Rightarrow> (cap\<lparr>cap_storage := Some (fs_Capacity info)\<rparr>, c')
               | (Inl _, _, c') \<Rightarrow> (cap, c'))
         else (cap, c))"

section \<open>Pods\<close>

datatype int_or_string = PortInt int | PortString string

record http_get =
  hg_scheme :: string
  hg_port :: int_or_string
  hg_path :: string
  hg_host :: string
  hg_headers :: "(string \<times> string) list"

record probe =
  pr_timeout :: int
  pr_http :: "http_get option"
  pr_tcp :: "int_or_string option"
  pr_grpc :: "int option"
  pr_exec :: "string list option"

record pod_container =
  pc_name :: string
  pc_user :: "int option"
  pc_group :: "int option"
  pc_liveness :: "probe option"
  pc_readiness :: "probe option"
  pc_startup :: "probe option"
  pc_mounts :: "string list"

record pod =
  pod_name :: string
  pod_namespace :: string
  pod_uid :: string
  pod_annotations :: strmap
  pod_init :: "pod_container list"
  pod_containers :: "pod_container list"
  pod_ephemeral :: "pod_container list"
  pod_aliases :: "(string \<times> string list) list"
  pod_hostpaths :: "string list"

text \<open>A container without a security context, and one without a user, are both \<open>pc_user = None\<close>.\<close>

section \<open>Probes\<close>

definition SandboxExecSentinel :: string where
  "SandboxExecSentinel = ''__sandbox__''"

text \<open>\<^verbatim>\<open>IntValue()\<close> of a port is library code: the parameter \<open>iv\<close>.\<close>

definition http_probe_cmd :: "(int_or_string \<Rightarrow> int) \<Rightarrow> int \<Rightarrow> http_get \<Rightarrow> string list" where
  "http_probe_cmd iv timeout h =
     (let scheme = (if hg_scheme h = ''HTTPS'' then ''https'' else ''http'');
          path = (if hg_path h = [] then ''/'' else hg_path h);
          url = scheme @ ''://localhost:'' @ strconv_FormatInt (iv (hg_port h)) @ path
      in [SandboxExecSentinel, ''wget'', ''-q'', ''-O'', ''/dev/null'', ''-S'', ''--no-check-certificate'',
          ''--timeout='' @ strconv_FormatInt timeout] @
         (if hg_host h \<noteq> [] then [''--header'', ''Host: '' @ hg_host h] else []) @
         concat (map (\<lambda>(n, v). [''--header'', n @ '': '' @ v]) (hg_headers h)) @ [url])"

definition nc_probe_cmd :: "int \<Rightarrow> int \<Rightarrow> string list" where
  "nc_probe_cmd timeout port =
     [SandboxExecSentinel, ''nc'', ''-z'', ''-w'' @ strconv_FormatInt timeout, ''localhost'', strconv_FormatInt port]"

definition rewriteProbe :: "(int_or_string \<Rightarrow> int) \<Rightarrow> probe \<Rightarrow> probe" where
  "rewriteProbe iv p =
     (let timeout = (if pr_timeout p \<le> 0 then 1 else pr_timeout p)
      in case pr_http p of
           Some h \<Rightarrow> p\<lparr>pr_http := None, pr_exec := Some (http_probe_cmd iv timeout h)\<rparr>
         | None \<Rightarrow>
             (case pr_tcp p of
                Some port \<Rightarrow> p\<lparr>pr_tcp := None, pr_exec := Some (nc_probe_cmd timeout (iv port))\<rparr>
              | None \<Rightarrow>
                  (case pr_grpc p of
                     Some port \<Rightarrow> p\<lparr>pr_grpc := None, pr_exec := Some (nc_probe_cmd timeout port)\<rparr>
                   | None \<Rightarrow> p)))"

section \<open>Path expansion\<close>

text \<open>\<^verbatim>\<open>os.ExpandEnv\<close>: \<open>shell_name\<close> is the name after a dollar sign and how many bytes it takes.\<close>

definition shell_special :: "char \<Rightarrow> bool" where
  "shell_special c \<longleftrightarrow> c \<in> set ''*#$@!?-0123456789''"

definition shell_alnum :: "char \<Rightarrow> bool" where
  "shell_alnum c \<longleftrightarrow> c = CHR ''_'' \<or> is_digit c \<or> (let n = (of_char c :: nat) in (65 \<le> n \<and> n \<le> 90) \<or> (97 \<le> n \<and> n \<le> 122))"

definition shell_name :: "string \<Rightarrow> string \<times> nat" where
  "shell_name s =
     (if s \<noteq> [] \<and> hd s = CHR 0x7B
      then (if 2 < length s \<and> shell_special (s ! 1) \<and> s ! 2 = CHR 0x7D then ([s ! 1], 3)
            else let name = takeWhile (\<lambda>c. c \<noteq> CHR 0x7D) (tl s)
                 in if length name = length (tl s) then ([], 1)
                    else if name = [] then ([], 2) else (name, length name + 2))
      else if s \<noteq> [] \<and> shell_special (hd s) then ([hd s], 1)
      else let name = takeWhile shell_alnum s in (name, length name))"

function ExpandEnv :: "(string \<Rightarrow> string) \<Rightarrow> string \<Rightarrow> string" where
  "ExpandEnv env [] = []"
| "ExpandEnv env (c # cs) =
     (if c = CHR ''$'' \<and> cs \<noteq> []
      then (case shell_name cs of
              (name, w) \<Rightarrow>
                (if name = [] \<and> 0 < w then [] else if name = [] then [c] else env name) @ ExpandEnv env (drop w cs))
      else c # ExpandEnv env cs)"
  by pat_completeness auto
termination
  by (relation "measure (\<lambda>(e, s). length s)") auto

definition filepath_Abs :: "string \<Rightarrow> string \<Rightarrow> string" where
  "filepath_Abs cwd p = (if path_rooted p then filepath_Clean p else filepath_Join [cwd, p])"

record host_env =
  he_env :: "string \<Rightarrow> string"
  he_homedir :: "string \<Rightarrow> error + string"
  he_cwd :: "error + string"

definition expand :: "host_env \<Rightarrow> string \<Rightarrow> string" where
  "expand H path =
     (case he_homedir H (ExpandEnv (he_env H) path) of
        Inl _ \<Rightarrow> path
      | Inr p \<Rightarrow>
          if path_rooted p then filepath_Clean p
          else (case he_cwd H of Inl _ \<Rightarrow> path | Inr cwd \<Rightarrow> filepath_Abs cwd p))"

section \<open>Admission\<close>

definition sc_user :: "pod_container \<Rightarrow> string option" where
  "sc_user c =
     (case pc_user c of
        None \<Rightarrow> None
      | Some u \<Rightarrow> Some (strconv_FormatInt u @ (case pc_group c of None \<Rightarrow> [] | Some g \<Rightarrow> '':'' @ strconv_FormatInt g)))"

definition stashSC :: "tag_builder \<Rightarrow> pod_container \<Rightarrow> strmap \<Rightarrow> strmap" where
  "stashSC tb c ann =
     (case sc_user c of
        None \<Rightarrow> ann
      | Some user \<Rightarrow> AList.update (Key tb KeySecurityContext @ ''/'' @ pc_name c) user ann)"

definition rewrite_probes :: "(int_or_string \<Rightarrow> int) \<Rightarrow> pod_container \<Rightarrow> pod_container" where
  "rewrite_probes iv c =
     c\<lparr>pc_liveness := map_option (rewriteProbe iv) (pc_liveness c),
       pc_readiness := map_option (rewriteProbe iv) (pc_readiness c),
       pc_startup := map_option (rewriteProbe iv) (pc_startup c)\<rparr>"

definition Admit :: "json_codec \<Rightarrow> (int_or_string \<Rightarrow> int) \<Rightarrow> host_env \<Rightarrow> tag_builder \<Rightarrow> pod \<Rightarrow> bool \<times> pod" where
  "Admit J iv H tb p =
     (let ann = fold (stashSC tb) (pod_init p @ pod_containers p @ pod_ephemeral p) (pod_annotations p);
          ann = (if pod_aliases p \<noteq> [] then AList.update (Key tb KeyHostAliases) (json_marshal_aliases J (pod_aliases p)) ann else ann);
          cs = map (rewrite_probes iv) (pod_containers p);
          ann = (if cs \<noteq> [] then AList.update (Key tb KeyDNSAliases) (strings_Join [comma] (map pc_name cs)) ann else ann);
          paths = map (\<lambda>v. if v \<noteq> [] then expand H v else v) (pod_hostpaths p);
          cs = map (\<lambda>c. c\<lparr>pc_mounts := map (\<lambda>m. if m = [] then m else expand H m) (pc_mounts c)\<rparr>) cs
      in (True, p\<lparr>pod_annotations := ann, pod_containers := cs, pod_hostpaths := paths\<rparr>))"

section \<open>Log streams of containers\<close>

text \<open>\<open>status\<close> is what the driver's \<^verbatim>\<open>ContainerStatus\<close> gives (\<open>None\<close>: an error or no status) and
  \<open>stream\<close> what its \<^verbatim>\<open>LogStream\<close> gives for it.\<close>

type_synonym log_streams = "(string \<times> log_stream) list"

definition PreStartContainer :: "'a option \<Rightarrow> ('a \<Rightarrow> log_stream option) \<Rightarrow> string \<Rightarrow> log_streams \<Rightarrow> error option \<times> log_streams" where
  "PreStartContainer status stream cid m =
     (case status of
        None \<Rightarrow> (None, m)
      | Some st \<Rightarrow>
          (case stream st of
             None \<Rightarrow> (Some (Errorf (''unable to create log stream for container '' @ strconv_Quote cid)), m)
           | Some ls \<Rightarrow> (None, AList.update cid ls m)))"

definition PostStopContainer :: "string \<Rightarrow> log_streams \<Rightarrow> log_stream option \<times> log_streams" where
  "PostStopContainer cid m =
     (case map_of m cid of
        None \<Rightarrow> (None, m)
      | Some ls \<Rightarrow> (Some (Destroy ls), AList.delete cid m))"

section \<open>The network of a pod\<close>

definition PrepareDynamicResources :: "'w net_service \<Rightarrow> range_ord \<Rightarrow> tag_builder \<Rightarrow> pod \<Rightarrow> ('w network, error + pod) go" where
  "PrepareDynamicResources S ord tb p =
     go_try (FromConfig S ord (pod_sandbox_config_zero
         \<lparr>psc_metadata := \<lparr>psm_name = pod_name p, psm_namespace = pod_namespace p, psm_uid = pod_uid p\<rparr>,
          psc_annotations := pod_annotations p\<rparr>)) (\<lambda>an.
       case an of
         None \<Rightarrow> go_panic ''nil pointer dereference''
       | Some a \<Rightarrow> go_ret (Inr (p\<lparr>pod_annotations := AList.update (Key tb KeyNetwork) (an_id a) (pod_annotations p)\<rparr>)))"

definition UnprepareDynamicResources :: "'w net_service \<Rightarrow> tag_builder \<Rightarrow> pod \<Rightarrow> ('w network, unit) go" where
  "UnprepareDynamicResources S tb p =
     (case map_of (pod_annotations p) (Key tb KeyNetwork) of
        None \<Rightarrow> go_ret ()
      | Some networkStr \<Rightarrow>
          go_each (\<lambda>name. go_bind (srv (RemoveNetwork S name)) (\<lambda>_. go_ret ())) (strings_Split comma networkStr))"

section \<open>Pods and sandboxes\<close>

text \<open>\<open>sandboxes\<close> is the driver's \<^verbatim>\<open>ListPodSandbox\<close> filtered by the pod's UID label.\<close>

definition manager_Exists :: "(strmap \<Rightarrow> error + string list) \<Rightarrow> tag_builder \<Rightarrow> pod \<Rightarrow> bool" where
  "manager_Exists sandboxes tb p =
     (case sandboxes [(UIDKey tb, pod_uid p)] of Inl _ \<Rightarrow> True | Inr ids \<Rightarrow> 0 < length ids)"

definition GetPodContainerName :: "(strmap \<Rightarrow> error + string list) \<Rightarrow> tag_builder \<Rightarrow> pod \<Rightarrow> string" where
  "GetPodContainerName sandboxes tb p =
     (case sandboxes [(UIDKey tb, pod_uid p)] of Inr (i # _) \<Rightarrow> i | _ \<Rightarrow> [])"

section \<open>Figures and cache\<close>

lemma parse_u64_nat_dec: "n < 2 ^ 64 \<Longrightarrow> parse_u64 w (nat_dec n) = Inr (word_of_nat n)"
  using ParseUint_nat_dec [of n 64] by (simp add: parse_u64_def)

lemma unat64_of_nat: "n < 2 ^ 64 \<Longrightarrow> unat (word_of_nat n :: 64 word) = n"
  by (simp add: unat_of_nat take_bit_eq_mod)

lemma unat64_mult: "m * n < 2 ^ 64 \<Longrightarrow> m < 2 ^ 64 \<Longrightarrow> n < 2 ^ 64 \<Longrightarrow> unat (word_of_nat m * word_of_nat n :: 64 word) = m * n"
  by (simp add: unat_word_ariths unat64_of_nat)

text \<open>
  The figures of a file system. From the output of \<open>stat\<close> with five decimal numbers, block size,
  total and available blocks and inodes, the reported capacity, availability and usage are the
  exact byte counts whenever the capacity fits in 64 bits and no more blocks are available than
  there are; in particular usage and availability add up to the capacity. Beyond 64 bits the
  figures wrap, and usage and availability still add up modulo \<open>2 ^ 64\<close>.
\<close>

theorem fs_figures_exact:
  assumes "strings_Fields out = map nat_dec [bs, t, a, ti, fi]" "\<forall>n \<in> {bs, t, a, ti, fi}. n < 2 ^ 64"
  shows "\<exists>i. parse_stat out = Inr i \<and> fs_Usage i + fs_Available i = fs_Capacity i \<and>
    unat (fs_Inodes i) = ti \<and> unat (fs_InodesFree i) = fi \<and>
    (bs * t < 2 ^ 64 \<and> a \<le> t \<longrightarrow>
       unat (fs_Capacity i) = bs * t \<and> unat (fs_Available i) = bs * a \<and> unat (fs_Usage i) = bs * (t - a))"
proof -
  let ?i = "\<lparr>fs_Capacity = word_of_nat bs * word_of_nat t, fs_Available = word_of_nat bs * word_of_nat a,
     fs_Usage = word_of_nat bs * word_of_nat t - word_of_nat bs * word_of_nat a,
     fs_Inodes = word_of_nat ti, fs_InodesFree = word_of_nat fi\<rparr>"
  have p: "parse_stat out = Inr ?i"
    using assms by (simp add: parse_stat_def sum_then_def parse_u64_nat_dec Let_def)
  have exact: "unat (fs_Capacity ?i) = bs * t \<and> unat (fs_Available ?i) = bs * a \<and> unat (fs_Usage ?i) = bs * (t - a)"
    if le: "bs * t < 2 ^ 64" "a \<le> t"
  proof -
    have ba: "bs * a \<le> bs * t" using le(2) by simp
    have ba64: "bs * a < 2 ^ 64" using ba le(1) by linarith
    have c: "unat (word_of_nat bs * word_of_nat t :: 64 word) = bs * t" "unat (word_of_nat bs * word_of_nat a :: 64 word) = bs * a"
      using unat64_mult [OF le(1)] unat64_mult [OF ba64] assms(2) by blast+
    then have "unat (word_of_nat bs * word_of_nat t - word_of_nat bs * word_of_nat a :: 64 word) = bs * t - bs * a"
      using ba by (subst unat_sub) (simp_all add: word_le_nat_alt)
    with c show ?thesis by (simp add: diff_mult_distrib2)
  qed
  show ?thesis
    using p exact assms(2) by (intro exI [of _ ?i]) (simp add: unat64_of_nat)
qed

theorem fs_figures_exact_witness:
  "\<exists>i. parse_stat ''4096 200 40 7 3'' = Inr i \<and> unat (fs_Usage i) = 4096 * 160"
proof -
  have f: "strings_Fields ''4096 200 40 7 3'' = map nat_dec [4096, 200, 40, 7, 3]"
    by code_simp
  show ?thesis using fs_figures_exact [OF f] by auto
qed

text \<open>
  The file-system cache. A figure that was probed is returned for every look-up of the same path
  in the following 60 seconds without asking the host again, whatever the host would answer, and
  from then on the host is asked again; a probe that fails stores nothing.
\<close>

theorem fs_cache_ttl:
  assumes "GetDirFsInfo exec now at_store path c = (r, True, c')"
  shows "case r of
      Inl e \<Rightarrow> c' = c
    | Inr info \<Rightarrow>
        (\<forall>exec' t t2. t < at_store + fs_ttl \<longrightarrow> GetDirFsInfo exec' t t2 path c' = (Inr info, False, c')) \<and>
        (\<forall>exec' t t2. at_store + fs_ttl \<le> t \<longrightarrow> fst (snd (GetDirFsInfo exec' t t2 path c')))"
proof -
  have p: "fs_probe exec at_store path c = (r, True, c')"
    using assms by (auto simp: GetDirFsInfo_def split: option.splits if_splits prod.splits)
  have asked: "fst (snd (fs_probe e t p d))" for e t p d
    by (simp add: fs_probe_def split: sum.splits)
  show ?thesis
  proof (cases r)
    case (Inl e)
    with p show ?thesis by (auto simp: fs_probe_def split: sum.splits)
  next
    case (Inr info)
    with p have "map_of c' path = Some (info, at_store + fs_ttl)" by (auto simp: fs_probe_def split: sum.splits)
    with Inr show ?thesis by (simp add: GetDirFsInfo_def asked)
  qed
qed

theorem fs_cache_ttl_witness:
  "GetDirFsInfo (\<lambda>_ _ _. Inl EOF) 30 30 ''/'' (snd (snd (GetDirFsInfo (\<lambda>_ _ _. Inr ''1 2 1 1 1'') 0 0 ''/'' []))) =
     (Inr \<lparr>fs_Capacity = 2, fs_Available = 1, fs_Usage = 1, fs_Inodes = 1, fs_InodesFree = 1\<rparr>, False,
      [(''/'', \<lparr>fs_Capacity = 2, fs_Available = 1, fs_Usage = 1, fs_Inodes = 1, fs_InodesFree = 1\<rparr>, fs_ttl)])"
proof -
  have e: "GetDirFsInfo (\<lambda>_ _ _. Inr ''1 2 1 1 1'') 0 0 ''/'' [] =
      (Inr \<lparr>fs_Capacity = 2, fs_Available = 1, fs_Usage = 1, fs_Inodes = 1, fs_InodesFree = 1\<rparr>, True,
       [(''/'', \<lparr>fs_Capacity = 2, fs_Available = 1, fs_Usage = 1, fs_Inodes = 1, fs_InodesFree = 1\<rparr>, fs_ttl)])"
    by (simp add: GetDirFsInfo_def fs_probe_def parse_stat_def strings_Fields_def is_space_def parse_u64_def sum_then_def
          strconv_ParseUint_def is_digit_def digit_val_def Let_def)
  show ?thesis using fs_cache_ttl [OF e] e by (simp add: fs_ttl_def)
qed

section \<open>Probes run in the sandbox\<close>

definition one_handler :: "probe \<Rightarrow> bool" where
  "one_handler p \<longleftrightarrow> length (filter (\<lambda>b. b) [pr_http p \<noteq> None, pr_tcp p \<noteq> None, pr_grpc p \<noteq> None, pr_exec p \<noteq> None]) = 1"

lemma http_probe_hd: "\<exists>cs. http_probe_cmd iv t h = SandboxExecSentinel # cs"
  by (simp add: http_probe_cmd_def Let_def)

lemma nc_probe_hd: "\<exists>cs. nc_probe_cmd t port = SandboxExecSentinel # cs"
  by (simp add: nc_probe_cmd_def)

text \<open>
  Every network probe is rewritten into a command that runs in the pod's sandbox. A probe with
  one handler, as the API server admits, keeps an exec handler as it is and otherwise ends with
  no network handler and an exec command that starts with the sandbox marker; rewriting a second
  time changes nothing.
\<close>

theorem probes_run_in_sandbox:
  assumes "one_handler p"
  shows "let q = rewriteProbe iv p
    in pr_http q = None \<and> pr_tcp q = None \<and> pr_grpc q = None \<and>
       (if pr_exec p \<noteq> None then q = p else \<exists>cs. pr_exec q = Some (SandboxExecSentinel # cs)) \<and>
       rewriteProbe iv q = q"
proof (cases "pr_http p"; cases "pr_tcp p"; cases "pr_grpc p"; cases "pr_exec p")
qed (use assms http_probe_hd nc_probe_hd in \<open>auto simp: one_handler_def rewriteProbe_def Let_def\<close>)

theorem probes_run_in_sandbox_witness:
  "\<exists>cs. pr_exec (rewriteProbe (\<lambda>_. 80) \<lparr>pr_timeout = 0, pr_http = None, pr_tcp = Some (PortInt 80), pr_grpc = None, pr_exec = None\<rparr>) =
     Some (SandboxExecSentinel # cs)"
  using probes_run_in_sandbox [of "\<lparr>pr_timeout = 0, pr_http = None, pr_tcp = Some (PortInt 80), pr_grpc = None, pr_exec = None\<rparr>" "\<lambda>_. 80"]
  by (simp add: one_handler_def Let_def)

text \<open>
  A probe on a named port asks port 0. Kubernetes lets a probe name a port of its container;
  the rewriting takes the number of the port text instead, and that is 0 for a text that is no
  number (the documented value of \<open>IntValue\<close>). The command then asks port 0 whatever ports the
  container has.
\<close>

theorem named_port_probe:
  assumes "iv (PortString name) = 0"
  shows "pr_exec (rewriteProbe iv (p\<lparr>pr_http := None, pr_tcp := Some (PortString name)\<rparr>)) =
      Some (nc_probe_cmd (if pr_timeout p \<le> 0 then 1 else pr_timeout p) 0) \<and>
    (\<exists>cs. pr_exec (rewriteProbe iv (p\<lparr>pr_http := Some (h\<lparr>hg_port := PortString name, hg_path := ''/x'', hg_scheme := ''HTTP''\<rparr>)\<rparr>)) =
      Some (cs @ [''http://localhost:0/x'']))"
  using assms by (auto simp: rewriteProbe_def http_probe_cmd_def Let_def strconv_FormatInt_def dec_eval)

theorem named_port_probe_witness:
  "pr_exec (rewriteProbe (\<lambda>v. case v of PortInt n \<Rightarrow> n | PortString _ \<Rightarrow> 0)
     \<lparr>pr_timeout = 5, pr_http = None, pr_tcp = Some (PortString ''web''), pr_grpc = None, pr_exec = None\<rparr>) =
   Some [''__sandbox__'', ''nc'', ''-z'', ''-w5'', ''localhost'', ''0'']"
  using named_port_probe [of "\<lambda>v. case v of PortInt n \<Rightarrow> n | PortString _ \<Rightarrow> 0" "''web''"
      "\<lparr>pr_timeout = 5, pr_http = None, pr_tcp = None, pr_grpc = None, pr_exec = None\<rparr>"]
  by (simp add: nc_probe_cmd_def SandboxExecSentinel_def strconv_FormatInt_def dec_eval)

section \<open>Users and names kept for the driver\<close>

lemma update_other [simp]: "k \<noteq> k' \<Longrightarrow> map_of (AList.update k v m) k' = map_of m k'"
  by (simp add: update_conv')

lemma fold_stash_other:
  "(\<And>c. c \<in> set cs \<Longrightarrow> Key tb KeySecurityContext @ ''/'' @ pc_name c \<noteq> k) \<Longrightarrow>
   map_of (fold (stashSC tb) cs ann) k = map_of ann k"
  by (induction cs arbitrary: ann) (auto simp: stashSC_def split: option.splits)

lemma fold_stash_get:
  assumes "c \<in> set cs" "distinct (map pc_name cs)" "sc_user c = Some u"
  shows "map_of (fold (stashSC tb) cs ann) (Key tb KeySecurityContext @ ''/'' @ pc_name c) = Some u"
  using assms
proof (induction cs arbitrary: ann)
  case (Cons d ds)
  show ?case
  proof (cases "d = c")
    case True
    then have "map_of (fold (stashSC tb) ds (stashSC tb d ann)) (Key tb KeySecurityContext @ ''/'' @ pc_name c) =
        map_of (stashSC tb d ann) (Key tb KeySecurityContext @ ''/'' @ pc_name c)"
      using Cons.prems by (intro fold_stash_other) (auto simp: image_iff)
    also have "\<dots> = Some u" using True Cons.prems by (simp add: stashSC_def)
    finally show ?thesis by simp
  qed (use Cons in auto)
qed simp

lemma stash_key_not: "k \<in> {KeyHostAliases, KeyDNSAliases} \<Longrightarrow> Key tb KeySecurityContext @ ''/'' @ n \<noteq> Key tb k"
  by (auto simp: Key_def key_defs)

lemma sc_user_nonempty: "sc_user c = Some u \<Longrightarrow> u \<noteq> []"
  by (auto simp: sc_user_def strconv_FormatInt_def split: option.splits if_splits)

lemma fold_stash_distinct: "distinct (map fst ann) \<Longrightarrow> distinct (map fst (fold (stashSC tb) cs ann))"
  by (induction cs arbitrary: ann) (auto simp: stashSC_def distinct_update split: option.splits)

lemma read_annotation:
  assumes "distinct (map fst ann)" "map_of ann (Key (NewTagBuilder on dn) k) = Some v"
  shows "tb_get (WithTags ann (NewTagBuilder on dn)) k = v"
  using assms by (simp add: tb_get_def WithTags_def mget_def map_of_maps_Copy_distinct Key_def)

lemma join_nonempty: "xs \<noteq> [] \<Longrightarrow> [] \<notin> set xs \<Longrightarrow> strings_Join sep xs \<noteq> []"
  by (cases xs; cases "tl xs") auto

text \<open>The annotations of an admitted pod.\<close>

lemma admit_annotations:
  assumes "distinct (map fst (pod_annotations p))"
    "distinct (map pc_name (pod_init p @ pod_containers p @ pod_ephemeral p))"
    "c \<in> set (pod_init p @ pod_containers p @ pod_ephemeral p)" "sc_user c = Some u"
    "Admit J iv H tb p = (ok, q)"
  shows "map_of (pod_annotations q) (Key tb KeySecurityContext @ ''/'' @ pc_name c) = Some u" "distinct (map fst (pod_annotations q))"
proof -
  let ?st = "fold (stashSC tb) (pod_init p @ pod_containers p @ pod_ephemeral p) (pod_annotations p)"
  have st: "distinct (map fst ?st)" "map_of ?st (Key tb KeySecurityContext @ ''/'' @ pc_name c) = Some u"
    by (rule fold_stash_distinct [OF assms(1)], rule fold_stash_get [OF assms(3,2,4)])
  from st show "map_of (pod_annotations q) (Key tb KeySecurityContext @ ''/'' @ pc_name c) = Some u" "distinct (map fst (pod_annotations q))"
    using assms(5) stash_key_not [of _ tb "pc_name c"] by (auto simp: Admit_def Let_def distinct_update simp del: map_of_eq_Some_iff)
qed

text \<open>
  What admission keeps of a pod. Every pod is admitted. Containers have distinct names in a pod;
  then for each container with a user, the user (and group) can be read back by the container's
  name with the tag builder's \<open>SecurityContextFor\<close>, as container creation does; the names of the
  containers are read back in order by \<open>DNSAliases\<close>; and no container is added, dropped or renamed.
\<close>

theorem admit_keeps_users_and_names:
  assumes "distinct (map fst (pod_annotations p))"
    "distinct (map pc_name (pod_init p @ pod_containers p @ pod_ephemeral p))"
    "c \<in> set (pod_init p @ pod_containers p @ pod_ephemeral p)" "sc_user c = Some u"
    "\<forall>d \<in> set (pod_containers p). pc_name d \<noteq> [] \<and> comma \<notin> set (pc_name d)" "pod_containers p \<noteq> []"
    "Admit J iv H (NewTagBuilder on dn) p = (ok, q)"
  shows "ok \<and> SecurityContextFor (WithTags (pod_annotations q) (NewTagBuilder on dn)) (pc_name c) = u \<and>
     DNSAliases (WithTags (pod_annotations q) (NewTagBuilder on dn)) = map pc_name (pod_containers p) \<and>
     map pc_name (pod_containers q) = map pc_name (pod_containers p) \<and>
     pod_init q = pod_init p \<and> pod_ephemeral q = pod_ephemeral p"
proof -
  let ?tb = "NewTagBuilder on dn"
  let ?st = "fold (stashSC ?tb) (pod_init p @ pod_containers p @ pod_ephemeral p) (pod_annotations p)"
  let ?names = "map pc_name (pod_containers p)"
  let ?sc = "Key ?tb KeySecurityContext @ ''/'' @ pc_name c"
  have ann: "pod_annotations q = AList.update (Key ?tb KeyDNSAliases) (strings_Join [comma] ?names)
      (if pod_aliases p \<noteq> [] then AList.update (Key ?tb KeyHostAliases) (json_marshal_aliases J (pod_aliases p)) ?st else ?st)"
    and rest: "ok" "map pc_name (pod_containers q) = ?names" "pod_init q = pod_init p" "pod_ephemeral q = pod_ephemeral p"
    using assms(6,7) by (auto simp: Admit_def Let_def comp_def rewrite_probes_def)
  note d = admit_annotations(2) [OF assms(1-4,7)]
  have "map_of (pod_annotations q) ?sc = Some u" by (rule admit_annotations(1) [OF assms(1-4,7)])
  then have u: "SecurityContextFor (WithTags (pod_annotations q) ?tb) (pc_name c) = u"
    using read_annotation [OF d, of "on" dn "KeySecurityContext @ ''/'' @ pc_name c" u]
      sc_user_nonempty [OF assms(4)]
    by (simp add: SecurityContextFor_def Key_def)
  have "tb_get (WithTags (pod_annotations q) ?tb) KeyDNSAliases = strings_Join [comma] ?names"
    by (rule read_annotation [OF d]) (simp add: ann)
  moreover have "strings_Join [comma] ?names \<noteq> []" using assms(5,6) by (intro join_nonempty) auto
  ultimately have "DNSAliases (WithTags (pod_annotations q) ?tb) = ?names"
    using assms(5,6) by (simp add: DNSAliases_def Split_Join)
  with u rest show ?thesis by simp
qed

definition example_pc :: pod_container where
  "example_pc = \<lparr>pc_name = ''web'', pc_user = Some 10, pc_group = Some 20, pc_liveness = None, pc_readiness = None,
     pc_startup = None, pc_mounts = []\<rparr>"

definition example_pod :: "string \<Rightarrow> pod" where
  "example_pod u = \<lparr>pod_name = ''p'', pod_namespace = ''d'', pod_uid = u, pod_annotations = [], pod_init = [],
     pod_containers = [example_pc], pod_ephemeral = [], pod_aliases = [], pod_hostpaths = []\<rparr>"

definition example_env :: host_env where
  "example_env = \<lparr>he_env = (\<lambda>_. []), he_homedir = Inr, he_cwd = Inr ''/''\<rparr>"

theorem admit_keeps_users_and_names_witness:
  "SecurityContextFor (WithTags (pod_annotations (snd (Admit (example_codec example_container example_sandbox) (\<lambda>_. 0) example_env
     (NewTagBuilder ''nk'' ''d'') (example_pod ''u'')))) (NewTagBuilder ''nk'' ''d'')) ''web'' = ''10:20''"
proof -
  have u: "sc_user example_pc = Some ''10:20''" by code_simp
  have "fst (Admit (example_codec example_container example_sandbox) (\<lambda>_. 0) example_env (NewTagBuilder ''nk'' ''d'') (example_pod ''u'')) \<and>
    SecurityContextFor (WithTags (pod_annotations (snd (Admit (example_codec example_container example_sandbox) (\<lambda>_. 0) example_env
     (NewTagBuilder ''nk'' ''d'') (example_pod ''u'')))) (NewTagBuilder ''nk'' ''d'')) (pc_name example_pc) = ''10:20''"
    using admit_keeps_users_and_names [where p = "example_pod ''u''" and c = example_pc, OF _ _ _ u _ _ prod.collapse [symmetric]]
    by (simp add: example_pod_def) (simp add: example_pc_def)
  then show ?thesis by (simp add: example_pc_def)
qed

section \<open>Networks that were removed\<close>

lemma go_each_keep:
  "(\<And>x. triple P (f x) (\<lambda>_. P) P) \<Longrightarrow> triple P (go_each f xs) (\<lambda>_. P) P"
  by (induction xs) (auto intro!: go_triples)

lemma Unprepare_keeps: "networks (snd (UnprepareDynamicResources S tb p s)) = networks s \<and> nextIP (snd (UnprepareDynamicResources S tb p s)) = nextIP s"
proof -
  let ?P = "\<lambda>t. networks t = networks s \<and> nextIP t = nextIP s"
  have each: "triple ?P (go_bind (srv (RemoveNetwork S name)) (\<lambda>_. go_ret ())) (\<lambda>_. ?P) ?P" for name
    by (rule triple_keepI) (simp add: go_bind_def srv_def split: prod.splits)
  have "triple ?P (UnprepareDynamicResources S tb p) (\<lambda>_. ?P) ?P"
    unfolding UnprepareDynamicResources_def
    by (cases "map_of (pod_annotations p) (Key tb KeyNetwork)") (auto intro: go_each_keep [OF each] triple_keepI)
  from triple_snd [OF this, of s] show ?thesis by simp
qed

text \<open>
  A network removed with its pod is handed out again. Unpreparing a pod's resources asks the
  driver to remove the pod's network and leaves the pool of networks as it was; once the sandbox
  is removed its entry is free, and the next pod gets it: its network annotation then names a
  network the driver no longer has (shown on a service that keeps its networks in a list).
\<close>

theorem removed_network_reclaimed:
  "networks (snd (UnprepareDynamicResources S tb p s)) = networks s \<and>
   (let tb0 = NewTagBuilder ''nk'' ''d'';
        (r1, s1) = PrepareDynamicResources mem_service (\<lambda>m. m) tb0 (example_pod ''u'') mem_started;
        p1 = (case r1 of Ret (Inr q) \<Rightarrow> q | _ \<Rightarrow> example_pod ''u'');
        s2 = snd (UnprepareDynamicResources mem_service tb0 p1 s1);
        s3 = (case FromUID (\<lambda>m. m) ''u'' s2 of Some a \<Rightarrow> snd (Deallocate a s2) | None \<Rightarrow> s2);
        (r4, s4) = PrepareDynamicResources mem_service (\<lambda>m. m) tb0 (example_pod ''v'') s3
    in case r4 of
         Ret (Inr q) \<Rightarrow>
           map_of (pod_annotations q) (Key tb0 KeyNetwork) = Some ''netx'' \<and>
           fst (GetNetwork mem_service ''netx'' (world s1)) \<noteq> Inl (ErrNotFound ''netx'') \<and>
           fst (GetNetwork mem_service ''netx'' (world s4)) = Inl (ErrNotFound ''netx'')
       | _ \<Rightarrow> False)"
proof (rule conjI)
  show "networks (snd (UnprepareDynamicResources S tb p s)) = networks s" by (simp add: Unprepare_keeps)
qed code_simp

end
