(* ===== verification/Docker_Api.thy ===== *)
theory Docker_Api
  imports Network Tags Log_Stream
begin

text \<open>
  What the Docker driver (\<^verbatim>\<open>src/pkg/driver/docker/docker.go\<close>) exchanges with the daemon: the
  configurations and descriptions of its client library as records of the fields the driver
  uses, the calls of the client as a record of functions over the daemon's state, the driver's
  own state, and how a client call is made. The daemon is a parameter throughout.
\<close>

section \<open>Configurations\<close>

record docker_resources =
  dr_CPUShares :: int
  dr_Memory :: int
  dr_MemorySwap :: int
  dr_CPUQuota :: int
  dr_CPUPeriod :: int

record docker_config =
  dc_Image :: string
  dc_Entrypoint :: "string list"
  dc_Cmd :: "string list"
  dc_WorkingDir :: string
  dc_Labels :: strmap
  dc_StdinOnce :: bool
  dc_OpenStdin :: bool
  dc_Tty :: bool
  dc_Hostname :: string
  dc_Domainname :: string
  dc_ExposedPorts :: "string list"
  dc_Env :: "string list"
  dc_User :: string
  dc_AttachStdout :: bool
  dc_AttachStderr :: bool

record host_config =
  hc_NetworkMode :: string
  hc_IpcMode :: string
  hc_PidMode :: string
  hc_Binds :: "string list"
  hc_PortBindings :: "(string \<times> (string \<times> string) list) list"
  hc_ExtraHosts :: "string list"
  hc_DNS :: "string list"
  hc_DNSSearch :: "string list"
  hc_DNSOptions :: "string list"
  hc_LogConfig :: "string \<times> strmap"
  hc_Resources :: docker_resources
  hc_Privileged :: bool
  hc_ReadonlyRootfs :: bool
  hc_ReadonlyPaths :: "string list"
  hc_MaskedPaths :: "string list"
  hc_GroupAdd :: "string list"
  hc_CapAdd :: "string list"
  hc_CapDrop :: "string list"
  hc_SecurityOpt :: "string list"
  hc_AutoRemove :: bool
  hc_Sysctls :: strmap

definition resources_zero :: docker_resources where
  "resources_zero = \<lparr>dr_CPUShares = 0, dr_Memory = 0, dr_MemorySwap = 0, dr_CPUQuota = 0, dr_CPUPeriod = 0\<rparr>"

definition docker_config_zero :: docker_config where
  "docker_config_zero =
     \<lparr>dc_Image = [], dc_Entrypoint = [], dc_Cmd = [], dc_WorkingDir = [], dc_Labels = [], dc_StdinOnce = False,
      dc_OpenStdin = False, dc_Tty = False, dc_Hostname = [], dc_Domainname = [], dc_ExposedPorts = [], dc_Env = [],
      dc_User = [], dc_AttachStdout = False, dc_AttachStderr = False\<rparr>"

definition host_config_zero :: host_config where
  "host_config_zero =
     \<lparr>hc_NetworkMode = [], hc_IpcMode = [], hc_PidMode = [], hc_Binds = [], hc_PortBindings = [], hc_ExtraHosts = [],
      hc_DNS = [], hc_DNSSearch = [], hc_DNSOptions = [], hc_LogConfig = ([], []), hc_Resources = resources_zero,
      hc_Privileged = False, hc_ReadonlyRootfs = False, hc_ReadonlyPaths = [], hc_MaskedPaths = [], hc_GroupAdd = [],
      hc_CapAdd = [], hc_CapDrop = [], hc_SecurityOpt = [], hc_AutoRemove = False, hc_Sysctls = []\<rparr>"

section \<open>Descriptions\<close>

text \<open>\<open>ci_HostConfig\<close> and \<open>ci_networks\<close> are options because the driver tests them for nil; the
  latter holds the networks by name with their address, \<open>ci_ports\<close> the host addresses of the
  bindings of each port, both in the order the map is visited.\<close>

record inspect_state =
  is_Status :: string
  is_StartedAt :: string
  is_FinishedAt :: string
  is_ExitCode :: int
  is_OOMKilled :: bool
  is_Error :: string
  is_Pid :: int

record container_json =
  ci_ID :: string
  ci_Created :: string
  ci_Image :: string
  ci_LogPath :: string
  ci_State :: inspect_state
  ci_Config :: docker_config
  ci_HostConfig :: "host_config option"
  ci_Mounts :: "(string \<times> string \<times> bool) list"
  ci_networks :: "(string \<times> string) list option"
  ci_ports :: "string list list"

record container_summary =
  sm_ID :: string
  sm_Labels :: strmap
  sm_State :: string
  sm_Image :: string
  sm_ImageID :: string
  sm_Created :: "64 word"

record image_inspect =
  im_ID :: string
  im_RepoTags :: "string list"
  im_RepoDigests :: "string list"
  im_Size :: "64 word"
  im_User :: "string option"
  im_Architecture :: string
  im_Os :: string

record image_summary =
  il_ID :: string
  il_RepoTags :: "string list"
  il_RepoDigests :: "string list"
  il_Size :: "64 word"

record docker_info =
  di_Name :: string
  di_CgroupDriver :: string
  di_DockerRootDir :: string
  di_Driver :: string
  di_ServerVersion :: string

record network_inspect =
  ni_Driver :: string
  ni_config :: "(string \<times> string) list"

section \<open>The client and the driver\<close>

text \<open>Docker's filter arguments are pairs of a key and a value; a statistics answer is read once and
  then decoded, giving the processor time and memory in use. An exec reads its output from a
  connection that the daemon frames.\<close>

type_synonym docker_filters = "(string \<times> string) list"

datatype wait_result = WaitStatus int | WaitError "error option"

record 'w docker =
  d_Info :: "'w \<Rightarrow> (error + docker_info) \<times> 'w"
  d_ServerVersion :: "'w \<Rightarrow> (error + string) \<times> 'w"
  d_ContainerInspect :: "string \<Rightarrow> 'w \<Rightarrow> (error + container_json) \<times> 'w"
  d_ContainerList :: "docker_filters \<Rightarrow> 'w \<Rightarrow> (error + container_summary list) \<times> 'w"
  d_ContainerCreate :: "docker_config \<Rightarrow> host_config \<Rightarrow> string list \<Rightarrow> (string \<times> string) option \<Rightarrow> string \<Rightarrow> 'w \<Rightarrow> (error + string) \<times> 'w"
  d_ContainerStart :: "string \<Rightarrow> 'w \<Rightarrow> error option \<times> 'w"
  d_ContainerStop :: "string \<Rightarrow> int \<Rightarrow> 'w \<Rightarrow> error option \<times> 'w"
  d_ContainerRemove :: "string \<Rightarrow> 'w \<Rightarrow> error option \<times> 'w"
  d_ContainerAttach :: "string \<Rightarrow> 'w \<Rightarrow> (error + reader) \<times> 'w"
  d_ContainerWait :: "string \<Rightarrow> 'w \<Rightarrow> wait_result \<times> 'w"
  d_ContainerExecCreate :: "string \<Rightarrow> string list \<Rightarrow> 'w \<Rightarrow> (error + string) \<times> 'w"
  d_ContainerExecAttach :: "string \<Rightarrow> 'w \<Rightarrow> (error + reader) \<times> 'w"
  d_ContainerExecInspect :: "string \<Rightarrow> 'w \<Rightarrow> (error + int) \<times> 'w"
  d_ContainerStatsOneShot :: "string \<Rightarrow> 'w \<Rightarrow> (error + (error + 64 word \<times> 64 word)) \<times> 'w"
  d_ImageInspect :: "string \<Rightarrow> 'w \<Rightarrow> (error + image_inspect) \<times> 'w"
  d_ImageList :: "'w \<Rightarrow> (error + image_summary list) \<times> 'w"
  d_ImagePull :: "string \<Rightarrow> 'w \<Rightarrow> error option \<times> 'w"
  d_NetworkInspect :: "string \<Rightarrow> 'w \<Rightarrow> (error + network_inspect) \<times> 'w"
  d_NetworkCreate :: "string \<Rightarrow> string \<Rightarrow> strmap \<Rightarrow> strmap \<Rightarrow> (string \<times> string option) option \<Rightarrow> 'w \<Rightarrow> (error + string) \<times> 'w"
  d_NetworkRemove :: "string \<Rightarrow> 'w \<Rightarrow> error option \<times> 'w"
  d_VolumeCreate :: "string \<Rightarrow> strmap \<Rightarrow> 'w \<Rightarrow> error option \<times> 'w"
  d_VolumeRemove :: "string \<Rightarrow> 'w \<Rightarrow> error option \<times> 'w"

text \<open>
  The fixed surroundings of a driver: the client, the option name and driver name of its tag
  builder, the message codec, \<^verbatim>\<open>time.Parse\<close> followed by \<^verbatim>\<open>UnixNano\<close>, \<^verbatim>\<open>filepath.EvalSymlinks\<close> and
  what starting a log stream meets.
\<close>

record 'w drv =
  dv_api :: "'w docker"
  dv_options :: string
  dv_name :: string
  dv_json :: json_codec
  dv_nano :: "string \<Rightarrow> int"
  dv_symlinks :: "string \<Rightarrow> string option"
  dv_start :: start_env

text \<open>The state of a driver: the pool of networks with the daemon's state in it, the log streams by
  container, and the values that are determined once.\<close>

record 'w driver =
  drv_network :: "'w network"
  drv_logs :: "(string \<times> log_stream) list"
  drv_name :: "string once"
  drv_cgroupRoot :: "string once"
  drv_baseURL :: "string once"

definition docker_tb :: "'w drv \<Rightarrow> tag_builder" where
  "docker_tb D = NewTagBuilder (dv_options D) (dv_name D)"

definition on_net :: "('w network, 'a) go \<Rightarrow> ('w driver, 'a) go" where
  "on_net m s = (case m (drv_network s) of (r, n) \<Rightarrow> (r, s\<lparr>drv_network := n\<rparr>))"

definition api :: "('w \<Rightarrow> 'a \<times> 'w) \<Rightarrow> ('w driver, 'a) go" where
  "api f = on_net (srv f)"

lemma api_apply:
  "api f s = (case f (world (drv_network s)) of (a, w) \<Rightarrow> (Ret a, s\<lparr>drv_network := (drv_network s)\<lparr>world := w\<rparr>\<rparr>))"
  by (simp add: api_def on_net_def srv_def split: prod.splits)

text \<open>Only the daemon's state changes in a client call.\<close>

definition same_driver :: "'w driver \<Rightarrow> 'w driver \<Rightarrow> bool" where
  "same_driver s t \<longleftrightarrow> (\<exists>w. t = s\<lparr>drv_network := (drv_network s)\<lparr>world := w\<rparr>\<rparr>)"

lemma same_driver_refl [simp]: "same_driver s s"
  by (auto simp: same_driver_def intro: exI [of _ "world (drv_network s)"])

lemma same_driver_trans [trans]: "same_driver s t \<Longrightarrow> same_driver t u \<Longrightarrow> same_driver s u"
  by (auto simp: same_driver_def)

lemma same_driver_simps: "same_driver s t \<Longrightarrow> drv_logs t = drv_logs s \<and> networks (drv_network t) = networks (drv_network s)"
  by (auto simp: same_driver_def)

lemma api_same [go_triples]: "triple (same_driver s) (api f) (\<lambda>_. same_driver s) (same_driver s)"
  by (rule triple_keepI) (auto simp: api_apply same_driver_def split: prod.splits)

section \<open>A daemon that refuses\<close>

text \<open>A client whose every call fails, from which the instances below are made by giving the calls
  they need.\<close>

definition refusing :: "'w docker" where
  "refusing =
     (let e = Errorf ''unavailable''; no = (\<lambda>w. (Inl e, w)); no2 = (\<lambda>w. (Some e, w))
      in \<lparr>d_Info = no, d_ServerVersion = (\<lambda>w. (Inl e, w)), d_ContainerInspect = (\<lambda>_ w. (Inl e, w)), d_ContainerList = (\<lambda>_ w. (Inl e, w)),
          d_ContainerCreate = (\<lambda>_ _ _ _ _ w. (Inl e, w)), d_ContainerStart = (\<lambda>_. no2), d_ContainerStop = (\<lambda>_ _. no2),
          d_ContainerRemove = (\<lambda>_. no2), d_ContainerAttach = (\<lambda>_ w. (Inl e, w)), d_ContainerWait = (\<lambda>_ w. (WaitError (Some e), w)),
          d_ContainerExecCreate = (\<lambda>_ _ w. (Inl e, w)), d_ContainerExecAttach = (\<lambda>_ w. (Inl e, w)),
          d_ContainerExecInspect = (\<lambda>_ w. (Inl e, w)), d_ContainerStatsOneShot = (\<lambda>_ w. (Inl e, w)), d_ImageInspect = (\<lambda>_ w. (Inl e, w)), d_ImageList = (\<lambda>w. (Inl e, w)),
          d_ImagePull = (\<lambda>_. no2), d_NetworkInspect = (\<lambda>_ w. (Inl e, w)), d_NetworkCreate = (\<lambda>_ _ _ _ _ w. (Inl e, w)),
          d_NetworkRemove = (\<lambda>_. no2), d_VolumeCreate = (\<lambda>_ _. no2), d_VolumeRemove = (\<lambda>_. no2)\<rparr>)"

definition example_drv :: "'w docker \<Rightarrow> 'w drv" where
  "example_drv A = \<lparr>dv_api = A, dv_options = ''nk'', dv_name = ''docker'', dv_json = example_codec example_container example_sandbox,
     dv_nano = (\<lambda>_. 0), dv_symlinks = (\<lambda>_. None), dv_start = \<lparr>mkdir_ok = True, open_ok = True, source_ok = True\<rparr>\<rparr>"

definition example_driver :: "'w \<Rightarrow> 'w driver" where
  "example_driver w = \<lparr>drv_network = NewNetwork w, drv_logs = [], drv_name = None, drv_cgroupRoot = None, drv_baseURL = None\<rparr>"

lemma example_simps [simp]:
  "dv_api (example_drv A) = A" "dv_options (example_drv A) = ''nk''" "dv_name (example_drv A) = ''docker''"
  "dv_json (example_drv A) = example_codec example_container example_sandbox"
  "world (drv_network (example_driver w)) = w"
  by (simp_all add: example_drv_def example_driver_def NewNetwork_def)

end
