(* ===== verification/Docker_Net.thy ===== *)
theory Docker_Net
  imports Docker_Api
begin

text \<open>
  The network calls of the Docker driver (\<^verbatim>\<open>GetNetwork\<close>, \<^verbatim>\<open>CreateNetwork\<close> and \<^verbatim>\<open>RemoveNetwork\<close> of
  \<^verbatim>\<open>src/pkg/driver/docker/docker.go\<close>), which are the network service the pool of networks works on.
  \<^verbatim>\<open>net.ParseCIDR\<close> covers IPv4, the form the daemon reports for the bridge networks the program makes.
\<close>

section \<open>Parsing a subnet\<close>

definition ParseCIDR :: "string \<Rightarrow> (ip \<times> ipnet) option" where
  "ParseCIDR s =
     (case strings_Cut slash s of
        (addr, m, True) \<Rightarrow>
          (case (ParseIP addr, strconv_ParseUint 24 m) of
             (Some a, (n, None)) \<Rightarrow>
               if n \<le> 32
               then (case To4 a of
                       None \<Rightarrow> None
                     | Some a4 \<Rightarrow> Some (a, \<lparr>net_ip = ip_Mask a4 (CIDRMask n 4), net_mask = CIDRMask n 4\<rparr>))
               else None
           | _ \<Rightarrow> None)
      | _ \<Rightarrow> None)"

section \<open>The calls\<close>

definition drv_GetNetwork :: "'w drv \<Rightarrow> string \<Rightarrow> 'w \<Rightarrow> (error + string option \<times> ip option \<times> ipnet option) \<times> 'w" where
  "drv_GetNetwork D nid w =
     (case d_NetworkInspect (dv_api D) nid w of
        (Inl e, w') \<Rightarrow> (Inl e, w')
      | (Inr i, w') \<Rightarrow>
          (case ni_config i of
             [] \<Rightarrow> (Inl (Errorf ''invalid ipam config''), w')
           | (subnet, gw) # _ \<Rightarrow>
               if subnet = [] then (Inl (Errorf ''invalid ipam config''), w')
               else (case ParseCIDR subnet of
                       None \<Rightarrow> (Inl (Errorf (''invalid CIDR address: '' @ subnet)), w')
                     | Some (_, parsed) \<Rightarrow>
                         (Inr (Some (ni_Driver i), Some (case ParseIP gw of None \<Rightarrow> [] | Some a \<Rightarrow> a), Some parsed), w'))))"

definition net_options :: strmap where
  "net_options =
     [(''com.docker.network.bridge.enable_icc'', ''true''),
      (''com.docker.network.bridge.enable_ip_masquerade'', ''true''),
      (''com.docker.network.bridge.host_binding_ipv4'', ''0.0.0.0''),
      (''com.docker.network.driver.mtu'', ''65535'')]"

definition net_name_suffix :: "string \<Rightarrow> ipnet option \<Rightarrow> string" where
  "net_name_suffix ty nt =
     (case nt of None \<Rightarrow> ty | Some n \<Rightarrow> map (\<lambda>c. if c = dot then dash else c) (ip_String (net_ip n)))"

definition drv_CreateNetwork :: "'w drv \<Rightarrow> string \<Rightarrow> ipnet option \<Rightarrow> ip option \<Rightarrow> 'w \<Rightarrow> (error + string) \<times> 'w" where
  "drv_CreateNetwork D ty nt gw w =
     (case Build (dv_json D) (WithName (net_name_suffix ty nt) (WithType ResourceNetwork (docker_tb D))) of
        (name, labels) \<Rightarrow>
          d_NetworkCreate (dv_api D) name ty labels net_options
            (map_option (\<lambda>n. (ipnet_String n, map_option ip_String gw)) nt) w)"

definition drv_RemoveNetwork :: "'w drv \<Rightarrow> string \<Rightarrow> 'w \<Rightarrow> error option \<times> 'w" where
  "drv_RemoveNetwork D nid = d_NetworkRemove (dv_api D) nid"

definition docker_service :: "'w drv \<Rightarrow> 'w net_service" where
  "docker_service D = \<lparr>CreateNetwork = drv_CreateNetwork D, GetNetwork = drv_GetNetwork D, RemoveNetwork = drv_RemoveNetwork D\<rparr>"

section \<open>Subnets read back\<close>

lemma mask_ones_all: "list_all (\<lambda>n. mask_ones (CIDRMask n 4) = Some n) [0..<33]"
  by code_simp

lemma mask_ones_CIDRMask: "n \<le> 32 \<Longrightarrow> mask_ones (CIDRMask n 4) = Some n"
  using mask_ones_all by (auto simp: list_all_iff)

lemma slash_notin_ip4: "length a = 4 \<Longrightarrow> slash \<notin> set (ip_String a)"
  by (erule length_4D) (simp add: ip_String_def To4_def ip4_string_def nat_dec_notin)

lemma ParseCIDR_String:
  assumes "length a = 4" "n \<le> 32" "ip_Mask a (CIDRMask n 4) = a"
  shows "ParseCIDR (ipnet_String \<lparr>net_ip = a, net_mask = CIDRMask n 4\<rparr>) = Some (As16 a, \<lparr>net_ip = a, net_mask = CIDRMask n 4\<rparr>)"
proof -
  have "strings_Cut slash (ip_String a @ slash # nat_dec n) = (ip_String a, nat_dec n, True)"
    by (rule Cut_append [OF slash_notin_ip4 [OF assms(1)]])
  moreover have "strconv_ParseUint 24 (nat_dec n) = (n, None)" using assms(2) by (intro ParseUint_nat_dec) simp
  ultimately show ?thesis
    using assms by (simp add: ParseCIDR_def ipnet_String_def mask_ones_CIDRMask ParseIP_String To4_As16)
qed

text \<open>
  A network is read back as it was asked for. When the daemon creates a network and afterwards
  reports the driver, subnet and gateway it was created with, the driver's \<open>GetNetwork\<close> gives the
  network type, the gateway and exactly the subnet passed to \<open>CreateNetwork\<close>, for every aligned
  IPv4 subnet of any prefix length.
\<close>

theorem created_network_read_back:
  assumes "drv_CreateNetwork D ty (Some \<lparr>net_ip = a, net_mask = CIDRMask n 4\<rparr>) (Some g) w = (Inr nid, w')"
    "\<And>name labels opts sub gw. d_NetworkCreate (dv_api D) name ty labels opts (Some (sub, Some gw)) w = (Inr nid, w') \<Longrightarrow>
        d_NetworkInspect (dv_api D) nid w' = (Inr \<lparr>ni_Driver = ty, ni_config = [(sub, gw)]\<rparr>, w')"
    "length a = 4" "n \<le> 32" "ip_Mask a (CIDRMask n 4) = a" "length g = 4"
  shows "drv_GetNetwork D nid w' = (Inr (Some ty, Some (As16 g), Some \<lparr>net_ip = a, net_mask = CIDRMask n 4\<rparr>), w')"
proof -
  let ?n = "\<lparr>net_ip = a, net_mask = CIDRMask n 4\<rparr>"
  have "d_NetworkInspect (dv_api D) nid w' = (Inr \<lparr>ni_Driver = ty, ni_config = [(ipnet_String ?n, ip_String g)]\<rparr>, w')"
    using assms(1) assms(2) by (auto simp: drv_CreateNetwork_def split: prod.splits)
  moreover have "ipnet_String ?n \<noteq> []" using assms(4) by (simp add: ipnet_String_def mask_ones_CIDRMask)
  ultimately show ?thesis
    using assms by (simp add: drv_GetNetwork_def ParseCIDR_String ParseIP_String)
qed

definition net_daemon :: "(string \<times> network_inspect) list docker" where
  "net_daemon = refusing\<lparr>
     d_NetworkCreate := (\<lambda>name ty labels opts ipam w.
       (Inr name, (name, \<lparr>ni_Driver = ty, ni_config = (case ipam of
          Some (sub, Some gw) \<Rightarrow> [(sub, gw)] | Some (sub, None) \<Rightarrow> [(sub, [])] | None \<Rightarrow> [])\<rparr>) # w)),
     d_NetworkInspect := (\<lambda>nid w. (case map_of w nid of None \<Rightarrow> Inl (ErrNotFound nid) | Some i \<Rightarrow> Inr i, w))\<rparr>"

theorem created_network_read_back_witness:
  "\<exists>nid w'. drv_CreateNetwork (example_drv net_daemon) ''bridge'' (Some \<lparr>net_ip = [10, 0, 0, 16], net_mask = CIDRMask 28 4\<rparr>) (Some [10, 0, 0, 30]) [] = (Inr nid, w') \<and>
     drv_GetNetwork (example_drv net_daemon) nid w' =
       (Inr (Some ''bridge'', Some (As16 [10, 0, 0, 30]), Some \<lparr>net_ip = [10, 0, 0, 16], net_mask = CIDRMask 28 4\<rparr>), w')"
proof -
  obtain nid w' where c: "drv_CreateNetwork (example_drv net_daemon) ''bridge'' (Some \<lparr>net_ip = [10, 0, 0, 16], net_mask = CIDRMask 28 4\<rparr>) (Some [10, 0, 0, 30]) [] = (Inr nid, w')"
    by (simp add: drv_CreateNetwork_def net_daemon_def case_prod_beta)
  have "ip_Mask [10, 0, 0, 16] (CIDRMask 28 4) = [10, 0, 0, 16]" by code_simp
  then have "drv_GetNetwork (example_drv net_daemon) nid w' =
       (Inr (Some ''bridge'', Some (As16 [10, 0, 0, 30]), Some \<lparr>net_ip = [10, 0, 0, 16], net_mask = CIDRMask 28 4\<rparr>), w')"
    by (intro created_network_read_back [OF c]) (auto simp: net_daemon_def)
  with c show ?thesis by blast
qed

end
