(* ===== verification/Docker_Query.thy ===== *)
theory Docker_Query
  imports Docker_Api
begin

text \<open>
  The queries of the Docker driver (\<^verbatim>\<open>src/pkg/driver/docker/docker.go\<close>): status, statistics and
  lists of containers and sandboxes, images, and the state of the runtime. A filter that is nil
  selects like an empty one.
\<close>

section \<open>Containers\<close>

datatype container_state = CONTAINER_CREATED | CONTAINER_RUNNING | CONTAINER_EXITED | CONTAINER_UNKNOWN

definition state_of :: "string \<Rightarrow> container_state" where
  "state_of s =
     (if s = ''created'' then CONTAINER_CREATED else if s = ''running'' then CONTAINER_RUNNING else CONTAINER_EXITED)"

record container_status =
  ct_Id :: string
  ct_Name :: string
  ct_Attempt :: "32 word"
  ct_State :: container_state
  ct_CreatedAt :: int
  ct_StartedAt :: int
  ct_FinishedAt :: int
  ct_ExitCode :: "32 word"
  ct_Reason :: string
  ct_Image :: string
  ct_ImageRef :: string
  ct_Labels :: strmap
  ct_Annotations :: strmap
  ct_LogPath :: string
  ct_Mounts :: "cri_mount list"

definition time_zero :: string where
  "time_zero = ''0001-01-01T00:00:00Z''"

definition status_time :: "'w drv \<Rightarrow> string \<Rightarrow> int" where
  "status_time D t = (if t \<noteq> [] \<and> t \<noteq> time_zero then dv_nano D t else 0)"

text \<open>The reason of an ended container; the memory limit is looked up only for exit code 137, where a
  missing host configuration is a nil dereference.\<close>

definition exit_reason :: "container_json \<Rightarrow> string outcome" where
  "exit_reason i =
     (let st = ci_State i;
          other = (if is_ExitCode st = 0 then ''Completed'' else if is_Error st \<noteq> [] then is_Error st else ''Error'')
      in if is_OOMKilled st then Ret ''OOMKilled''
         else if is_ExitCode st = 137
         then (case ci_HostConfig i of
                 None \<Rightarrow> Panic ''nil pointer dereference''
               | Some h \<Rightarrow> Ret (if 0 < dr_Memory (hc_Resources h) then ''OOMKilled'' else other))
         else Ret other)"

definition tags_of :: "'w drv \<Rightarrow> strmap \<Rightarrow> tag_builder" where
  "tags_of D labels = WithTags labels (docker_tb D)"

definition inspect_status :: "'w drv \<Rightarrow> container_json \<Rightarrow> string \<Rightarrow> container_status" where
  "inspect_status D i reason =
     (let tb = tags_of D (dc_Labels (ci_Config i)); st = state_of (is_Status (ci_State i)); J = dv_json D
      in \<lparr>ct_Id = ci_ID i, ct_Name = tag_Name tb, ct_Attempt = tag_Attempt tb, ct_State = st,
          ct_CreatedAt = dv_nano D (ci_Created i),
          ct_StartedAt = status_time D (is_StartedAt (ci_State i)),
          ct_FinishedAt = status_time D (is_FinishedAt (ci_State i)),
          ct_ExitCode = (if st = CONTAINER_EXITED then word_of_int (is_ExitCode (ci_State i)) else 0),
          ct_Reason = (if st = CONTAINER_EXITED then reason else []),
          ct_Image = dc_Image (ci_Config i), ct_ImageRef = ci_Image i,
          ct_Labels = tag_Labels J tb, ct_Annotations = tag_Annotations J tb,
          ct_LogPath = (if LogPath J tb \<noteq> [] then LogPath J tb else ci_LogPath i),
          ct_Mounts = map (\<lambda>(dst, src, rw). \<lparr>mnt_container_path = dst, mnt_host_path = src, mnt_readonly = \<not> rw\<rparr>) (ci_Mounts i)\<rparr>)"

definition ContainerStatus :: "'w drv \<Rightarrow> string \<Rightarrow> bool \<Rightarrow> ('w driver, error + container_status \<times> strmap) go" where
  "ContainerStatus D cid verbose =
     go_try (api (d_ContainerInspect (dv_api D) cid)) (\<lambda>i.
       let info = (if verbose
                   then [(''sandboxID'', tag_SandboxUID (tags_of D (dc_Labels (ci_Config i)))),
                         (''pid'', strconv_FormatInt (is_Pid (ci_State i)))]
                   else [])
       in if state_of (is_Status (ci_State i)) = CONTAINER_EXITED
          then (\<lambda>s. case exit_reason i of
                  Ret r \<Rightarrow> (Ret (Inr (inspect_status D i r, info)), s)
                | _ \<Rightarrow> (Panic ''nil pointer dereference'', s))
          else go_ret (Inr (inspect_status D i [], info)))"

record container_stats =
  cst_Id :: string
  cst_Name :: string
  cst_Attempt :: "32 word"
  cst_Labels :: strmap
  cst_Annotations :: strmap
  cst_UsageCoreNanoSeconds :: "64 word"
  cst_WorkingSetBytes :: "64 word"

definition ContainerStats :: "'w drv \<Rightarrow> string \<Rightarrow> ('w driver, error + container_stats) go" where
  "ContainerStats D cid =
     go_try (ContainerStatus D cid False) (\<lambda>(cs, _).
     go_try (api (d_ContainerStatsOneShot (dv_api D) cid)) (\<lambda>body.
       case body of
         Inl e \<Rightarrow> go_ret (Inl (Wrapf ''decode docker stats'' e))
       | Inr (cpu, mem) \<Rightarrow>
           go_ret (Inr \<lparr>cst_Id = cid, cst_Name = ct_Name cs, cst_Attempt = ct_Attempt cs, cst_Labels = ct_Labels cs,
             cst_Annotations = ct_Annotations cs, cst_UsageCoreNanoSeconds = cpu, cst_WorkingSetBytes = mem\<rparr>)))"

section \<open>Lists of containers\<close>

record container_filter =
  cf_id :: string
  cf_state :: "container_state option"
  cf_sandbox :: string
  cf_labels :: strmap

record cri_container =
  co_Id :: string
  co_PodSandboxId :: string
  co_Name :: string
  co_Attempt :: "32 word"
  co_Image :: string
  co_ImageRef :: string
  co_State :: container_state
  co_CreatedAt :: "64 word"
  co_Labels :: strmap
  co_Annotations :: strmap

definition matchLabels :: "'w drv \<Rightarrow> strmap \<Rightarrow> strmap \<Rightarrow> bool" where
  "matchLabels D dockerLabels selector =
     (selector = [] \<or>
      (let unpacked = tag_Labels (dv_json D) (tags_of D dockerLabels)
       in list_all (\<lambda>(k, v). mget unpacked k = v \<or> mget dockerLabels k = v) selector))"

definition label_filters :: "'w drv \<Rightarrow> resource_type \<Rightarrow> docker_filters" where
  "label_filters D t =
     map (\<lambda>(k, v). (''label'', k @ ''='' @ v))
       (filter (\<lambda>(k, v). v \<noteq> []) (InternalTags (WithType t (docker_tb D))))"

fun state_filters :: "container_state \<Rightarrow> string list" where
  "state_filters CONTAINER_CREATED = [''created'']"
| "state_filters CONTAINER_RUNNING = [''running'']"
| "state_filters CONTAINER_EXITED = [''restarting'', ''paused'', ''removing'', ''exited'', ''dead'']"
| "state_filters CONTAINER_UNKNOWN = []"

definition list_filters :: "'w drv \<Rightarrow> container_filter \<Rightarrow> docker_filters" where
  "list_filters D f =
     label_filters D ResourceContainer @
     (if cf_id f \<noteq> [] then [(''id'', cf_id f)] else []) @
     (if cf_sandbox f \<noteq> [] then [(''label'', SandboxUIDFilter (docker_tb D) (cf_sandbox f))] else []) @
     (case cf_state f of None \<Rightarrow> [] | Some st \<Rightarrow> map (Pair ''status'') (state_filters st))"

definition to_container :: "'w drv \<Rightarrow> container_summary \<Rightarrow> cri_container" where
  "to_container D c =
     (let tb = tags_of D (sm_Labels c)
      in \<lparr>co_Id = sm_ID c, co_PodSandboxId = tag_SandboxUID tb, co_Name = tag_Name tb, co_Attempt = tag_Attempt tb,
          co_Image = sm_Image c, co_ImageRef = sm_ImageID c, co_State = state_of (sm_State c),
          co_CreatedAt = sm_Created c * 1000000000,
          co_Labels = tag_Labels (dv_json D) tb, co_Annotations = tag_Annotations (dv_json D) tb\<rparr>)"

definition ListContainers :: "'w drv \<Rightarrow> container_filter \<Rightarrow> ('w driver, error + cri_container list) go" where
  "ListContainers D f =
     go_try (api (d_ContainerList (dv_api D) (list_filters D f))) (\<lambda>cs.
       go_ret (Inr (map (to_container D) (filter (\<lambda>c. matchLabels D (sm_Labels c) (cf_labels f)) cs))))"

fun collect_stats :: "'w drv \<Rightarrow> cri_container list \<Rightarrow> ('w driver, container_stats list) go" where
  "collect_stats D [] = go_ret []"
| "collect_stats D (c # cs) =
     go_bind (ContainerStats D (co_Id c)) (\<lambda>r.
     go_bind (collect_stats D cs) (\<lambda>rest. go_ret (case r of Inl _ \<Rightarrow> rest | Inr x \<Rightarrow> x # rest)))"

definition ListContainerStats :: "'w drv \<Rightarrow> string \<Rightarrow> string \<Rightarrow> strmap \<Rightarrow> ('w driver, error + container_stats list) go" where
  "ListContainerStats D i sandbox labels =
     go_try (ListContainers D \<lparr>cf_id = i, cf_state = None, cf_sandbox = sandbox, cf_labels = labels\<rparr>) (\<lambda>cs.
     go_bind (collect_stats D cs) (\<lambda>r. go_ret (Inr r)))"

section \<open>Sandboxes\<close>

datatype sandbox_state = SANDBOX_READY | SANDBOX_NOTREADY

definition sandbox_state_of :: "string \<Rightarrow> sandbox_state" where
  "sandbox_state_of s = (if s = ''running'' then SANDBOX_READY else SANDBOX_NOTREADY)"

record sandbox_filter =
  sf_id :: string
  sf_state :: "sandbox_state option"
  sf_labels :: strmap

record pod_sandbox =
  sb_Id :: string
  sb_metadata :: pod_sandbox_metadata
  sb_State :: sandbox_state
  sb_CreatedAt :: "64 word"
  sb_Labels :: strmap
  sb_Annotations :: strmap

definition sandbox_filters :: "'w drv \<Rightarrow> sandbox_filter \<Rightarrow> docker_filters" where
  "sandbox_filters D f =
     label_filters D ResourceSandbox @
     (if sf_id f \<noteq> [] then [(''id'', sf_id f)] else []) @
     (case sf_state f of
        None \<Rightarrow> []
      | Some SANDBOX_READY \<Rightarrow> [(''status'', ''running'')]
      | Some SANDBOX_NOTREADY \<Rightarrow>
          map (Pair ''status'') [''created'', ''restarting'', ''paused'', ''removing'', ''exited'', ''dead''])"

definition sandbox_meta :: "tag_builder \<Rightarrow> pod_sandbox_metadata" where
  "sandbox_meta tb = \<lparr>psm_name = tag_Name tb, psm_namespace = tag_Namespace tb, psm_uid = tag_UID tb\<rparr>"

definition to_sandbox :: "'w drv \<Rightarrow> container_summary \<Rightarrow> pod_sandbox" where
  "to_sandbox D c =
     (let tb = tags_of D (sm_Labels c)
      in \<lparr>sb_Id = sm_ID c, sb_metadata = sandbox_meta tb, sb_State = sandbox_state_of (sm_State c),
          sb_CreatedAt = sm_Created c * 1000000000,
          sb_Labels = tag_Labels (dv_json D) tb, sb_Annotations = tag_Annotations (dv_json D) tb\<rparr>)"

definition ListPodSandbox :: "'w drv \<Rightarrow> sandbox_filter \<Rightarrow> ('w driver, error + pod_sandbox list) go" where
  "ListPodSandbox D f =
     go_try (api (d_ContainerList (dv_api D) (sandbox_filters D f))) (\<lambda>cs.
       go_ret (Inr (map (to_sandbox D) (filter (\<lambda>c. matchLabels D (sm_Labels c) (sf_labels f)) cs))))"

text \<open>The address of a sandbox: the loopback address on the host's network; otherwise an address on a
  network of its own if it carries annotations, else the loopback address if a port is bound on
  every host address, else any address.\<close>

definition own_net :: "string \<Rightarrow> bool" where
  "own_net name \<longleftrightarrow> name \<noteq> ''bridge'' \<and> name \<noteq> ''host'' \<and> name \<noteq> ''none''"

definition host_net :: "container_json \<Rightarrow> bool" where
  "host_net i \<longleftrightarrow> (case ci_HostConfig i of None \<Rightarrow> False | Some h \<Rightarrow> hc_NetworkMode h = ''host'')"

definition first_ip :: "(string \<times> string \<Rightarrow> bool) \<Rightarrow> (string \<times> string) list \<Rightarrow> string" where
  "first_ip P nets = (case find (\<lambda>n. P n \<and> snd n \<noteq> []) nets of None \<Rightarrow> [] | Some n \<Rightarrow> snd n)"

definition primary_ip :: "strmap \<Rightarrow> container_json \<Rightarrow> string" where
  "primary_ip annotations i =
     (if host_net i then ''127.0.0.1''
      else case ci_networks i of
             None \<Rightarrow> []
           | Some nets \<Rightarrow>
               let ip1 = (if annotations \<noteq> [] then first_ip (\<lambda>n. own_net (fst n)) nets else []);
                   ip2 = (if ip1 = [] \<and> list_ex (list_ex (\<lambda>h. h = [] \<or> h = ''0.0.0.0'')) (ci_ports i) then ''127.0.0.1'' else ip1)
               in if ip2 = [] then first_ip (\<lambda>_. True) nets else ip2)"

definition additional_ips :: "string \<Rightarrow> container_json \<Rightarrow> string list" where
  "additional_ips primary i =
     (case ci_networks i of
        None \<Rightarrow> []
      | Some nets \<Rightarrow>
          map snd (filter (\<lambda>(name, a). \<not> (primary = a \<or> name = ''host'' \<or> name = ''none'' \<or> a = [])) nets))"

definition sandbox_namespaces :: "container_json \<Rightarrow> namespace_option" where
  "sandbox_namespaces i =
     (let mode = (\<lambda>f d. case ci_HostConfig i of None \<Rightarrow> d | Some h \<Rightarrow> if f h = ''host'' then NODE else d)
      in \<lparr>ns_network = mode hc_NetworkMode POD, ns_pid = mode hc_PidMode CONTAINER, ns_ipc = mode hc_IpcMode POD\<rparr>)"

record sandbox_status =
  ss_Id :: string
  ss_metadata :: pod_sandbox_metadata
  ss_State :: sandbox_state
  ss_CreatedAt :: int
  ss_ip :: string
  ss_additional :: "string list"
  ss_namespaces :: namespace_option
  ss_Labels :: strmap
  ss_Annotations :: strmap

definition inspect_sandbox :: "'w drv \<Rightarrow> container_json \<Rightarrow> sandbox_status" where
  "inspect_sandbox D i =
     (let tb = tags_of D (dc_Labels (ci_Config i)); ann = tag_Annotations (dv_json D) tb; ip = primary_ip ann i
      in \<lparr>ss_Id = ci_ID i, ss_metadata = sandbox_meta tb, ss_State = sandbox_state_of (is_Status (ci_State i)),
          ss_CreatedAt = dv_nano D (ci_Created i), ss_ip = ip, ss_additional = additional_ips ip i,
          ss_namespaces = sandbox_namespaces i, ss_Labels = tag_Labels (dv_json D) tb, ss_Annotations = ann\<rparr>)"

definition PodSandboxStatus :: "'w drv \<Rightarrow> string \<Rightarrow> bool \<Rightarrow> ('w driver, error + sandbox_status \<times> strmap) go" where
  "PodSandboxStatus D sid verbose =
     go_try (api (d_ContainerInspect (dv_api D) sid)) (\<lambda>i.
       go_ret (Inr (inspect_sandbox D i, if verbose then [(''pid'', strconv_FormatInt (is_Pid (ci_State i)))] else [])))"

section \<open>Images\<close>

record cri_image =
  img_Id :: string
  img_RepoTags :: "string list"
  img_RepoDigests :: "string list"
  img_Size :: "64 word"
  img_Uid :: "int option"
  img_Username :: string

definition image_user :: "string option \<Rightarrow> int option \<times> string" where
  "image_user u =
     (case u of
        None \<Rightarrow> (None, [])
      | Some user \<Rightarrow>
          if user = [] then (None, [])
          else let part = fst (strings_Cut colon user)
               in (case strconv_ParseInt64 part of (n, None) \<Rightarrow> (Some n, []) | _ \<Rightarrow> (None, part)))"

definition ImageStatus :: "'w drv \<Rightarrow> string \<Rightarrow> bool \<Rightarrow> ('w driver, error + cri_image option \<times> strmap) go" where
  "ImageStatus D ref verbose =
     (if ref = [] then go_ret (Inr (None, []))
      else go_bind (api (d_ImageInspect (dv_api D) ref)) (\<lambda>r. case r of
             Inl e \<Rightarrow> go_ret (if IsNotFound e then Inr (None, []) else Inl e)
           | Inr i \<Rightarrow>
               (case image_user (im_User i) of
                  (uid, username) \<Rightarrow>
                    go_ret (Inr (Some \<lparr>img_Id = im_ID i,
                        img_RepoTags = filter (\<lambda>t. t \<noteq> ''<none>:<none>'' \<and> CHR ''@'' \<notin> set t) (im_RepoTags i),
                        img_RepoDigests = im_RepoDigests i, img_Size = im_Size i, img_Uid = uid, img_Username = username\<rparr>,
                      if verbose then [(''architecture'', im_Architecture i), (''os'', im_Os i)] else [])))))"

definition ListImages :: "'w drv \<Rightarrow> ('w driver, error + cri_image list) go" where
  "ListImages D =
     go_try (api (d_ImageList (dv_api D))) (\<lambda>is.
       go_ret (Inr (map (\<lambda>i. \<lparr>img_Id = il_ID i, img_RepoTags = il_RepoTags i, img_RepoDigests = il_RepoDigests i,
         img_Size = il_Size i, img_Uid = None, img_Username = []\<rparr>) is)))"

definition ImageFsInfo :: "'w drv \<Rightarrow> ('w driver, error + string \<times> 64 word) go" where
  "ImageFsInfo D =
     go_try (api (d_Info (dv_api D))) (\<lambda>info.
     go_try (ListImages D) (\<lambda>images.
       go_ret (Inr (di_DockerRootDir info, fold (\<lambda>img total. total + img_Size img) images 0))))"

definition PullImage :: "'w drv \<Rightarrow> string \<Rightarrow> ('w driver, error + string) go" where
  "PullImage D ref =
     go_bind (api (d_ImagePull (dv_api D) ref)) (\<lambda>e. case e of
       Some e \<Rightarrow> go_ret (Inl e)
     | None \<Rightarrow>
         go_try (ImageStatus D ref False) (\<lambda>(img, _). case img of
           None \<Rightarrow> go_ret (Inl (Errorf (''image '' @ ref @ '' not found after pull'')))
         | Some i \<Rightarrow> go_ret (Inr (img_Id i))))"

section \<open>The runtime\<close>

definition driver_Name :: "'w drv \<Rightarrow> ('w driver, string) go" where
  "driver_Name D s =
     (case drv_name s of
        Some n \<Rightarrow> (Ret n, s)
      | None \<Rightarrow>
          go_bind (api (d_Info (dv_api D))) (\<lambda>r t.
            let n = (case r of Inr info \<Rightarrow> di_Name info | Inl _ \<Rightarrow> ''unknown'')
            in (Ret n, t\<lparr>drv_name := Some n\<rparr>)) s)"

definition CgroupRoot :: "'w drv \<Rightarrow> ('w driver, string) go" where
  "CgroupRoot D s =
     (case drv_cgroupRoot s of
        Some n \<Rightarrow> (Ret n, s)
      | None \<Rightarrow>
          go_bind (api (d_Info (dv_api D))) (\<lambda>r t.
            let n = (case r of
                       Inl _ \<Rightarrow> ''/''
                     | Inr info \<Rightarrow> if di_CgroupDriver info = ''systemd'' then ''/system.slice/docker.service'' else ''/docker'')
            in (Ret n, t\<lparr>drv_cgroupRoot := Some n\<rparr>)) s)"

definition WithBaseURL :: "string \<Rightarrow> 'w driver \<Rightarrow> 'w driver" where
  "WithBaseURL u s = s\<lparr>drv_baseURL := once_provide u (drv_baseURL s)\<rparr>"

definition BaseURL :: "('w driver, string) go" where
  "BaseURL s = (case drv_baseURL s of None \<Rightarrow> (Blocked, s) | Some u \<Rightarrow> (Ret u, s))"

interpretation docker_url: provided_once WithBaseURL drv_baseURL
  by unfold_locales (simp add: WithBaseURL_def)

record runtime_status =
  rs_RuntimeReady :: bool
  rs_NetworkReady :: bool
  rs_Info :: strmap

definition driver_Status :: "'w drv \<Rightarrow> bool \<Rightarrow> ('w driver, runtime_status) go" where
  "driver_Status D verbose =
     go_bind (api (d_Info (dv_api D))) (\<lambda>info.
     go_bind (api (d_NetworkInspect (dv_api D) ''bridge'')) (\<lambda>net.
       go_ret \<lparr>rs_RuntimeReady = (case info of Inr _ \<Rightarrow> True | Inl _ \<Rightarrow> False),
         rs_NetworkReady = (case net of Inr _ \<Rightarrow> True | Inl _ \<Rightarrow> False),
         rs_Info = (case info of
            Inr i \<Rightarrow> if verbose then [(''storageDriver'', di_Driver i), (''serverVersion'', di_ServerVersion i)] else []
          | Inl _ \<Rightarrow> [])\<rparr>))"

record version_info =
  vi_Version :: string
  vi_RuntimeName :: string
  vi_RuntimeVersion :: string
  vi_RuntimeApiVersion :: string

definition driver_Version :: "'w drv \<Rightarrow> string \<Rightarrow> ('w driver, error + version_info) go" where
  "driver_Version D version =
     go_try (api (d_ServerVersion (dv_api D))) (\<lambda>v.
     go_bind (driver_Name D) (\<lambda>n.
       go_ret (Inr \<lparr>vi_Version = version, vi_RuntimeName = n, vi_RuntimeVersion = v, vi_RuntimeApiVersion = ''v1''\<rparr>)))"

section \<open>What a list contains\<close>

text \<open>
  The documented meaning of the daemon's filter arguments: every label must match, and one value
  of each other key; an identifier matches by prefix. A daemon that has the containers \<open>cs w\<close>
  answers with the matching ones.
\<close>

definition label_match :: "strmap \<Rightarrow> string \<Rightarrow> bool" where
  "label_match labels l =
     (case strings_Cut (CHR ''='') l of (k, v, eq) \<Rightarrow>
        (case map_of labels k of None \<Rightarrow> False | Some x \<Rightarrow> \<not> eq \<or> x = v))"

definition filter_values :: "string \<Rightarrow> docker_filters \<Rightarrow> string list" where
  "filter_values key fs = map snd (filter (\<lambda>f. fst f = key) fs)"

definition docker_match :: "docker_filters \<Rightarrow> container_summary \<Rightarrow> bool" where
  "docker_match fs c \<longleftrightarrow>
     list_all (label_match (sm_Labels c)) (filter_values ''label'' fs) \<and>
     (filter_values ''id'' fs = [] \<or> list_ex (strings_HasPrefix (sm_ID c)) (filter_values ''id'' fs)) \<and>
     (filter_values ''status'' fs = [] \<or> list_ex (\<lambda>v. sm_State c = v) (filter_values ''status'' fs))"

definition lists_by_filter :: "'w drv \<Rightarrow> ('w \<Rightarrow> container_summary list) \<Rightarrow> bool" where
  "lists_by_filter D cs \<longleftrightarrow> (\<forall>fs w. d_ContainerList (dv_api D) fs w = (Inr (filter (docker_match fs) (cs w)), w))"

definition docker_states :: "string list" where
  "docker_states = [''created'', ''running'', ''restarting'', ''paused'', ''removing'', ''exited'', ''dead'']"

definition managed_as :: "'w drv \<Rightarrow> resource_type \<Rightarrow> strmap \<Rightarrow> bool" where
  "managed_as D t labels \<longleftrightarrow>
     map_of labels (Key (docker_tb D) keyManagedBy) = Some (dv_name D) \<and>
     map_of labels (Key (docker_tb D) keyType) = Some (resource_string t)"

text \<open>The containers a filter is meant to select.\<close>

definition selected :: "'w drv \<Rightarrow> container_filter \<Rightarrow> container_summary \<Rightarrow> bool" where
  "selected D f c \<longleftrightarrow>
     managed_as D ResourceContainer (sm_Labels c) \<and> strings_HasPrefix (sm_ID c) (cf_id f) \<and>
     (cf_sandbox f \<noteq> [] \<longrightarrow> map_of (sm_Labels c) (Key (docker_tb D) keySandboxUID) = Some (cf_sandbox f)) \<and>
     (\<forall>st. cf_state f = Some st \<and> st \<noteq> CONTAINER_UNKNOWN \<longrightarrow> state_of (sm_State c) = st) \<and>
     matchLabels D (sm_Labels c) (cf_labels f)"

lemma docker_prefix [simp]: "tb_prefix (docker_tb D) = dv_options D"
  by (simp add: docker_tb_def)

lemma label_filters_eq:
  "label_filters D t = (if dv_name D \<noteq> [] then [(''label'', Key (docker_tb D) keyManagedBy @ ''='' @ dv_name D)] else []) @
     [(''label'', Key (docker_tb D) keyType @ ''='' @ resource_string t)]"
  by (cases t) (simp_all add: label_filters_def InternalTags_def WithType_def docker_tb_def NewTagBuilder_def tb_set_def
        Key_def internalKeys_def key_defs strings_HasPrefix_def)

lemma label_match_eq: "CHR ''='' \<notin> set k \<Longrightarrow> label_match labels (k @ ''='' @ v) \<longleftrightarrow> map_of labels k = Some v"
  by (auto simp: label_match_def Cut_append split: option.splits)

lemma key_no_eq: "CHR ''='' \<notin> set (dv_options D) \<Longrightarrow> k \<in> {keyManagedBy, keyType, keySandboxUID} \<Longrightarrow>
    CHR ''='' \<notin> set (Key (docker_tb D) k)"
  by (auto simp: Key_def key_defs)

lemma filter_values_simps [simp]:
  "filter_values k [] = []" "filter_values k ((a, v) # fs) = (if a = k then v # filter_values k fs else filter_values k fs)"
  "filter_values k (fs @ gs) = filter_values k fs @ filter_values k gs"
  "filter_values k (map (Pair a) vs) = (if a = k then vs else [])"
  by (auto simp: filter_values_def comp_def)

lemma state_filters_exact:
  "s \<in> set docker_states \<Longrightarrow>
     (state_filters st = [] \<or> s \<in> set (state_filters st)) \<longleftrightarrow> st = CONTAINER_UNKNOWN \<or> state_of s = st"
  by (cases st) (auto simp: docker_states_def state_of_def)

lemma list_filters_exact:
  assumes "CHR ''='' \<notin> set (dv_options D)" "dv_name D \<noteq> []" "sm_State c \<in> set docker_states"
  shows "docker_match (list_filters D f) c \<and> matchLabels D (sm_Labels c) (cf_labels f) \<longleftrightarrow> selected D f c"
proof -
  note k = label_match_eq [OF key_no_eq [OF assms(1)]]
  have "list_all (label_match (sm_Labels c)) (filter_values ''label'' (list_filters D f)) \<longleftrightarrow>
      managed_as D ResourceContainer (sm_Labels c) \<and>
      (cf_sandbox f \<noteq> [] \<longrightarrow> map_of (sm_Labels c) (Key (docker_tb D) keySandboxUID) = Some (cf_sandbox f))"
    using assms(2) k by (auto simp: list_filters_def label_filters_eq managed_as_def SandboxUIDFilter_def split: option.splits)
  moreover have "filter_values ''id'' (list_filters D f) = (if cf_id f \<noteq> [] then [cf_id f] else [])"
    by (auto simp: list_filters_def label_filters_eq split: option.splits)
  moreover have "filter_values ''status'' (list_filters D f) = (case cf_state f of None \<Rightarrow> [] | Some st \<Rightarrow> state_filters st)"
    by (auto simp: list_filters_def label_filters_eq split: option.splits)
  ultimately show ?thesis
    using state_filters_exact [OF assms(3)]
    by (cases "cf_state f") (auto simp: docker_match_def selected_def list_ex_iff strings_HasPrefix_def)
qed

text \<open>
  C8. A list of containers is exactly what its filter asks for. With a daemon whose filter arguments
  mean what their documentation says, and containers in the states the daemon has, the list is
  every container of this program whose identifier, sandbox, state and labels fit the filter, in
  the daemon's order, each described from its labels; nothing else is listed and the daemon is
  only asked.
\<close>

theorem list_containers_exact:
  assumes "CHR ''='' \<notin> set (dv_options D)" "dv_name D \<noteq> []" "lists_by_filter D cs"
    "\<forall>c \<in> set (cs (world (drv_network s))). sm_State c \<in> set docker_states"
  shows "ListContainers D f s = (Ret (Inr (map (to_container D) (filter (selected D f) (cs (world (drv_network s)))))), s)"
proof -
  let ?cs = "cs (world (drv_network s))"
  have "filter (\<lambda>c. matchLabels D (sm_Labels c) (cf_labels f)) (filter (docker_match (list_filters D f)) ?cs) = filter (selected D f) ?cs"
    using assms(4) list_filters_exact [OF assms(1,2), of _ f] by (simp cong: filter_cong add: conj_commute)
  with assms(3) show ?thesis
    by (simp add: ListContainers_def lists_by_filter_def api_apply go_try_def go_bind_def)
qed

definition list_daemon :: "container_summary list docker" where
  "list_daemon = refusing\<lparr>d_ContainerList := (\<lambda>fs w. (Inr (filter (docker_match fs) w), w))\<rparr>"

definition example_summary :: "string \<Rightarrow> string \<Rightarrow> string \<Rightarrow> container_summary" where
  "example_summary i sid st =
     \<lparr>sm_ID = i, sm_Labels = [(''nk.managed-by'', ''docker''), (''nk.type'', ''container''), (''nk.sandbox-uid'', sid)],
      sm_State = st, sm_Image = ''img'', sm_ImageID = ''sha'', sm_Created = 5\<rparr>"

theorem list_containers_exact_witness:
  "\<exists>s. map_outcome (map_sum (\<lambda>e. e) (map co_Id)) (fst (ListContainers (example_drv list_daemon)
     \<lparr>cf_id = [], cf_state = Some CONTAINER_EXITED, cf_sandbox = ''sb1'', cf_labels = []\<rparr> s)) = Ret (Inr [''c1''])"
proof -
  let ?w = "[example_summary ''c1'' ''sb1'' ''dead'', example_summary ''c2'' ''sb1'' ''running'', example_summary ''c3'' ''sb2'' ''dead'']"
  let ?D = "example_drv list_daemon"
  let ?f = "\<lparr>cf_id = [], cf_state = Some CONTAINER_EXITED, cf_sandbox = ''sb1'', cf_labels = []\<rparr>"
  have lists: "lists_by_filter ?D (\<lambda>w. w)" by (simp add: lists_by_filter_def list_daemon_def)
  have st: "\<forall>c \<in> set ((\<lambda>w. w) (world (drv_network (example_driver ?w)))). sm_State c \<in> set docker_states"
    by (simp add: docker_states_def example_summary_def)
  have "ListContainers ?D ?f (example_driver ?w) = (Ret (Inr (map (to_container ?D) (filter (selected ?D ?f) ?w))), example_driver ?w)"
    using list_containers_exact [OF _ _ lists st, of ?f] by simp
  moreover have "filter (selected ?D ?f) ?w = [example_summary ''c1'' ''sb1'' ''dead'']"
    by (simp add: selected_def managed_as_def matchLabels_def example_summary_def state_of_def strings_HasPrefix_def Key_def key_defs)
  ultimately show ?thesis by (intro exI [of _ "example_driver ?w"]) (simp add: to_container_def Let_def example_summary_def)
qed

section \<open>Lists of sandboxes\<close>

definition selected_sandbox :: "'w drv \<Rightarrow> sandbox_filter \<Rightarrow> container_summary \<Rightarrow> bool" where
  "selected_sandbox D f c \<longleftrightarrow>
     managed_as D ResourceSandbox (sm_Labels c) \<and> strings_HasPrefix (sm_ID c) (sf_id f) \<and>
     (\<forall>st. sf_state f = Some st \<longrightarrow> sandbox_state_of (sm_State c) = st) \<and>
     matchLabels D (sm_Labels c) (sf_labels f)"

lemma sandbox_filters_exact:
  assumes "CHR ''='' \<notin> set (dv_options D)" "dv_name D \<noteq> []" "sm_State c \<in> set docker_states"
  shows "docker_match (sandbox_filters D f) c \<and> matchLabels D (sm_Labels c) (sf_labels f) \<longleftrightarrow> selected_sandbox D f c"
proof -
  note k = label_match_eq [OF key_no_eq [OF assms(1)]]
  have "list_all (label_match (sm_Labels c)) (filter_values ''label'' (sandbox_filters D f)) \<longleftrightarrow>
      managed_as D ResourceSandbox (sm_Labels c)"
    using assms(2) k by (auto simp: sandbox_filters_def label_filters_eq managed_as_def split: option.splits sandbox_state.splits)
  moreover have "filter_values ''id'' (sandbox_filters D f) = (if sf_id f \<noteq> [] then [sf_id f] else [])"
    by (auto simp: sandbox_filters_def label_filters_eq split: option.splits sandbox_state.splits)
  moreover have "(filter_values ''status'' (sandbox_filters D f) = [] \<or> sm_State c \<in> set (filter_values ''status'' (sandbox_filters D f))) \<longleftrightarrow>
      (\<forall>st. sf_state f = Some st \<longrightarrow> sandbox_state_of (sm_State c) = st)"
    using assms(3) by (auto simp: sandbox_filters_def label_filters_eq docker_states_def sandbox_state_of_def split: option.splits sandbox_state.splits)
  ultimately show ?thesis
    by (auto simp: docker_match_def selected_sandbox_def list_ex_iff strings_HasPrefix_def)
qed

lemma list_sandboxes_exact:
  assumes "CHR ''='' \<notin> set (dv_options D)" "dv_name D \<noteq> []" "lists_by_filter D cs"
    "\<forall>c \<in> set (cs (world (drv_network s))). sm_State c \<in> set docker_states"
  shows "ListPodSandbox D f s = (Ret (Inr (map (to_sandbox D) (filter (selected_sandbox D f) (cs (world (drv_network s)))))), s)"
proof -
  let ?cs = "cs (world (drv_network s))"
  have "filter (\<lambda>c. matchLabels D (sm_Labels c) (sf_labels f)) (filter (docker_match (sandbox_filters D f)) ?cs) = filter (selected_sandbox D f) ?cs"
    using assms(4) sandbox_filters_exact [OF assms(1,2), of _ f] by (simp cong: filter_cong add: conj_commute)
  with assms(3) show ?thesis
    by (simp add: ListPodSandbox_def lists_by_filter_def api_apply go_try_def go_bind_def)
qed

section \<open>What a status says\<close>

lemma created_labels_get:
  "tb_get (tags_of D (snd (Build J (container_tb J (dv_options D) dn sid c sc)))) k = tb_get (container_tb J (dv_options D) dn sid c sc) k"
  unfolding tags_of_def docker_tb_def by (simp add: Build_def container_tb_get Let_def hydrate_get)

lemma exit_reason_given:
  assumes "ci_HostConfig i = Some h"
  shows "\<exists>r. exit_reason i = Ret r \<and>
     (is_OOMKilled (ci_State i) \<or> is_ExitCode (ci_State i) = 137 \<and> 0 < dr_Memory (hc_Resources h) \<longrightarrow> r = ''OOMKilled'') \<and>
     (\<not> is_OOMKilled (ci_State i) \<and> is_ExitCode (ci_State i) = 0 \<longrightarrow> r = ''Completed'')"
  using assms by (cases "is_OOMKilled (ci_State i)"; cases "is_ExitCode (ci_State i) = 137") (simp_all add: exit_reason_def Let_def)

text \<open>
  C34. The status of a container says what the container was created as. For a container whose labels
  are those that container creation stores, the status carries the name, attempt, labels,
  annotations and log path of the configurations it was created from, its state is created or
  running exactly when the daemon says so and exited otherwise, an exit code and a reason are
  given only for an exited container, and a container stopped by the memory limit is reported so.
\<close>

theorem container_status_of_created:
  assumes "d_ContainerInspect (dv_api D) cid (world (drv_network s)) = (Inr i, w)" "ci_HostConfig i = Some h"
    "dc_Labels (ci_Config i) = snd (Build (dv_json D) (container_tb (dv_json D) (dv_options D) dn sid c sc))"
    "json_container_ok (dv_json D) c" "json_sandbox_ok (dv_json D) sc"
    "cc_log_path c \<noteq> []" "psc_log_directory sc \<noteq> []"
  shows "\<exists>st t. ContainerStatus D cid True s = (Ret (Inr (st, [(''sandboxID'', sid), (''pid'', strconv_FormatInt (is_Pid (ci_State i)))])), t) \<and>
    same_driver s t \<and> ct_Id st = ci_ID i \<and>
    ct_Name st = cm_name (cc_metadata c) \<and> ct_Attempt st = cm_attempt (cc_metadata c) \<and>
    ct_Labels st = cc_labels c \<and> ct_Annotations st = cc_annotations c \<and>
    ct_LogPath st = filepath_Join [psc_log_directory sc, cc_log_path c] \<and>
    (ct_State st = CONTAINER_CREATED \<longleftrightarrow> is_Status (ci_State i) = ''created'') \<and>
    (ct_State st = CONTAINER_RUNNING \<longleftrightarrow> is_Status (ci_State i) = ''running'') \<and> ct_State st \<noteq> CONTAINER_UNKNOWN \<and>
    (ct_State st \<noteq> CONTAINER_EXITED \<longrightarrow> ct_ExitCode st = 0 \<and> ct_Reason st = []) \<and>
    (ct_State st = CONTAINER_EXITED \<longrightarrow> ct_ExitCode st = word_of_int (is_ExitCode (ci_State i)) \<and>
       (is_OOMKilled (ci_State i) \<or> is_ExitCode (ci_State i) = 137 \<and> 0 < dr_Memory (hc_Resources h) \<longrightarrow> ct_Reason st = ''OOMKilled'') \<and>
       (\<not> is_OOMKilled (ci_State i) \<and> is_ExitCode (ci_State i) = 0 \<longrightarrow> ct_Reason st = ''Completed''))"
proof -
  let ?tb = "tags_of D (dc_Labels (ci_Config i))" and ?st = "state_of (is_Status (ci_State i))"
  have get: "tb_get ?tb k = tb_get (container_tb (dv_json D) (dv_options D) dn sid c sc) k" for k
    unfolding assms(3) by (rule created_labels_get)
  note read = container_tb_read [OF get assms(4,5)]
  obtain r where r: "exit_reason i = Ret r" and
      oom: "is_OOMKilled (ci_State i) \<or> is_ExitCode (ci_State i) = 137 \<and> 0 < dr_Memory (hc_Resources h) \<longrightarrow> r = ''OOMKilled''"
      "\<not> is_OOMKilled (ci_State i) \<and> is_ExitCode (ci_State i) = 0 \<longrightarrow> r = ''Completed''"
    using exit_reason_given [OF assms(2)] by blast
  let ?status = "inspect_status D i (if ?st = CONTAINER_EXITED then r else [])"
  have call: "ContainerStatus D cid True s = (Ret (Inr (?status, [(''sandboxID'', sid), (''pid'', strconv_FormatInt (is_Pid (ci_State i)))])),
      s\<lparr>drv_network := (drv_network s)\<lparr>world := w\<rparr>\<rparr>)"
    using assms(1) r read(3) by (simp add: ContainerStatus_def go_try_def go_bind_def api_apply Let_def)
  have "same_driver s (s\<lparr>drv_network := (drv_network s)\<lparr>world := w\<rparr>\<rparr>)" by (auto simp: same_driver_def)
  moreover have "?st = CONTAINER_CREATED \<longleftrightarrow> is_Status (ci_State i) = ''created''" "?st = CONTAINER_RUNNING \<longleftrightarrow> is_Status (ci_State i) = ''running''" "?st \<noteq> CONTAINER_UNKNOWN"
    by (simp_all add: state_of_def)
  moreover have "filepath_Join [psc_log_directory sc, cc_log_path c] \<noteq> []"
    using assms(6,7) by (simp add: filepath_Join_def filepath_Clean_def Let_def)
  ultimately show ?thesis
    using call oom read assms(6,7) by (intro exI [of _ ?status] exI [of _ "s\<lparr>drv_network := (drv_network s)\<lparr>world := w\<rparr>\<rparr>"] conjI) (simp_all add: inspect_status_def Let_def)
qed

definition status_daemon :: "unit docker" where
  "status_daemon = refusing\<lparr>d_ContainerInspect := (\<lambda>i w. (Inr
     \<lparr>ci_ID = i, ci_Created = [], ci_Image = ''sha'', ci_LogPath = [],
      ci_State = \<lparr>is_Status = ''exited'', is_StartedAt = [], is_FinishedAt = [], is_ExitCode = 137, is_OOMKilled = False, is_Error = [], is_Pid = 0\<rparr>,
      ci_Config = docker_config_zero\<lparr>dc_Labels := snd (Build (example_codec example_container example_sandbox)
        (container_tb (example_codec example_container example_sandbox) ''nk'' ''docker'' ''sb1'' example_container example_sandbox))\<rparr>,
      ci_HostConfig = Some (host_config_zero\<lparr>hc_Resources := resources_zero\<lparr>dr_Memory := 4096\<rparr>\<rparr>),
      ci_Mounts = [], ci_networks = None, ci_ports = []\<rparr>, w))\<rparr>"

theorem container_status_of_created_witness:
  "\<exists>st info t. ContainerStatus (example_drv status_daemon) ''c1'' True (example_driver ()) = (Ret (Inr (st, info)), t) \<and>
     ct_Attempt st = 3 \<and> ct_Reason st = ''OOMKilled''"
proof -
  obtain i where i: "d_ContainerInspect status_daemon ''c1'' () = (Inr i, ())"
      and f: "is_Status (ci_State i) = ''exited''" "is_ExitCode (ci_State i) = 137"
        "ci_HostConfig i = Some (host_config_zero\<lparr>hc_Resources := resources_zero\<lparr>dr_Memory := 4096\<rparr>\<rparr>)"
        "dc_Labels (ci_Config i) = snd (Build (example_codec example_container example_sandbox)
          (container_tb (example_codec example_container example_sandbox) ''nk'' ''docker'' ''sb1'' example_container example_sandbox))"
    by (simp add: status_daemon_def)
  have l: "cc_log_path example_container \<noteq> []" "psc_log_directory example_sandbox \<noteq> []"
    by (simp_all add: example_container_def example_sandbox_def)
  obtain st t where s: "ContainerStatus (example_drv status_daemon) ''c1'' True (example_driver ()) =
        (Ret (Inr (st, [(''sandboxID'', ''sb1''), (''pid'', strconv_FormatInt (is_Pid (ci_State i)))])), t)"
      "ct_Attempt st = cm_attempt (cc_metadata example_container)"
      "ct_State st \<noteq> CONTAINER_CREATED" "ct_State st \<noteq> CONTAINER_RUNNING" "ct_State st \<noteq> CONTAINER_UNKNOWN"
      "ct_State st = CONTAINER_EXITED \<longrightarrow> ct_Reason st = ''OOMKilled''"
    using container_status_of_created [of "example_drv status_daemon" "''c1''" "example_driver ()" i "()", OF _ f(3) _ _ _ l, of "''docker''" "''sb1''"]
      i f by auto
  have "ct_State st = CONTAINER_EXITED" using s by (cases "ct_State st") simp_all
  with s show ?thesis by (auto simp: example_container_def)
qed

end
