(* ===== verification/Docker_Pods.thy ===== *)
theory Docker_Pods
  imports Docker_Query Docker_Net
begin

text \<open>
  The life of containers and pod sandboxes in the Docker driver
  (\<^verbatim>\<open>src/pkg/driver/docker/docker.go\<close>): creating, starting, stopping and removing them, with the log
  stream of each container and the network of each sandbox.
\<close>

section \<open>Creating a container\<close>

definition cri_user :: "container_security_context \<Rightarrow> string" where
  "cri_user sc =
     (let user = (case csc_run_as_user sc of None \<Rightarrow> [] | Some u \<Rightarrow> strconv_FormatInt u);
          user = (case csc_run_as_group sc of None \<Rightarrow> user | Some g \<Rightarrow> user @ '':'' @ strconv_FormatInt g)
      in if csc_run_as_username sc \<noteq> [] then csc_run_as_username sc else user)"

definition container_user :: "'w drv \<Rightarrow> strmap \<Rightarrow> container_config \<Rightarrow> string" where
  "container_user D sandbox_labels config =
     (let user = cri_user (cc_security_context config)
      in if user = [] then SecurityContextFor (tags_of D sandbox_labels) (cm_name (cc_metadata config)) else user)"

definition bind_of :: "'w drv \<Rightarrow> cri_mount \<Rightarrow> string" where
  "bind_of D m =
     (case dv_symlinks D (mnt_host_path m) of None \<Rightarrow> mnt_host_path m | Some p \<Rightarrow> p) @ '':'' @ mnt_container_path m @
     (if mnt_readonly m then '':ro'' else [])"

text \<open>The copies of the sandbox's configurations with what the container sets.\<close>

definition container_docker_config :: "docker_config \<Rightarrow> container_config \<Rightarrow> strmap \<Rightarrow> string \<Rightarrow> docker_config" where
  "container_docker_config base config labels user =
     base\<lparr>dc_Image := cc_image config, dc_Entrypoint := cc_command config, dc_Cmd := cc_args config,
       dc_WorkingDir := cc_working_dir config, dc_Labels := labels, dc_StdinOnce := cc_stdin_once config,
       dc_OpenStdin := cc_stdin config, dc_Tty := cc_tty config, dc_Hostname := [], dc_ExposedPorts := [],
       dc_Env := map (\<lambda>(k, v). k @ ''='' @ v) (cc_envs config), dc_User := user\<rparr>"

definition container_host_config :: "'w drv \<Rightarrow> string \<Rightarrow> host_config \<Rightarrow> container_config \<Rightarrow> host_config" where
  "container_host_config D podSandboxID base config =
     (let sc = cc_security_context config; r = cc_resources config; ns = ''container:'' @ podSandboxID
      in base\<lparr>hc_NetworkMode := ns, hc_IpcMode := ns,
           hc_PidMode := (if ns_pid (csc_namespace_options sc) = CONTAINER then [] else ns),
           hc_Binds := map (bind_of D) (cc_mounts config), hc_PortBindings := [], hc_ExtraHosts := [],
           hc_DNS := [], hc_DNSSearch := [], hc_DNSOptions := [],
           hc_LogConfig := (if cc_log_path config \<noteq> [] then (''json-file'', [(''max-size'', ''10m''), (''max-file'', ''3'')]) else ([], [])),
           hc_Resources := \<lparr>dr_CPUShares = cr_cpu_shares r, dr_Memory = cr_memory_limit r, dr_MemorySwap = cr_memory_swap_limit r,
             dr_CPUQuota = cr_cpu_quota r, dr_CPUPeriod = cr_cpu_period r\<rparr>,
           hc_Privileged := csc_privileged sc, hc_ReadonlyRootfs := csc_readonly_rootfs sc,
           hc_ReadonlyPaths := csc_readonly_paths sc, hc_MaskedPaths := csc_masked_paths sc,
           hc_GroupAdd := map strconv_FormatInt (csc_supplemental_groups sc),
           hc_CapAdd := csc_add_capabilities sc, hc_CapDrop := csc_drop_capabilities sc,
           hc_SecurityOpt := hc_SecurityOpt base @ (if csc_no_new_privs sc then [''no-new-privileges''] else [])\<rparr>)"

text \<open>The loop that retries with the next attempt number while the name is taken. \<open>r\<close> is the last answer
  of the daemon; the loop has no bound of its own, so the model counts the rounds it may take and
  is \<open>Blocked\<close> when they are used up.\<close>

fun create_loop :: "nat \<Rightarrow> 'w drv \<Rightarrow> docker_config \<Rightarrow> host_config \<Rightarrow> tag_builder \<Rightarrow> error + string \<Rightarrow> ('w driver, error + string) go" where
  "create_loop fuel D dc hc tb (Inr i) = go_ret (Inr i)"
| "create_loop fuel D dc hc tb (Inl e) =
     (if \<not> IsConflict e then go_ret (Inl e)
      else (case fuel of
              0 \<Rightarrow> (\<lambda>s. (Blocked, s))
            | Suc n \<Rightarrow>
                (let tb' = IncrementAttempt (tb_Clone tb); (name, labels) = Build (dv_json D) tb'; dc' = dc\<lparr>dc_Labels := labels\<rparr>
                 in go_bind (api (d_ContainerCreate (dv_api D) dc' hc [] None name)) (create_loop n D dc' hc tb'))))"

lemma create_loop_done [simp]: "create_loop fuel D dc hc tb (Inr i) = go_ret (Inr i)"
  by simp

lemma create_loop_retry:
  assumes "IsConflict e" "Build (dv_json D) (IncrementAttempt (tb_Clone tb)) = (name, labels)"
  shows "create_loop (Suc m) D dc hc tb (Inl e) =
    go_bind (api (d_ContainerCreate (dv_api D) (dc\<lparr>dc_Labels := labels\<rparr>) hc [] None name))
      (create_loop m D (dc\<lparr>dc_Labels := labels\<rparr>) hc (IncrementAttempt (tb_Clone tb)))"
  using assms by (simp add: Let_def)

declare create_loop.simps(2) [simp del]

definition driver_container_tb :: "'w drv \<Rightarrow> string \<Rightarrow> container_config \<Rightarrow> pod_sandbox_config \<Rightarrow> tag_builder" where
  "driver_container_tb D sid config sandboxConfig =
     container_tb (dv_json D) (dv_options D) (dv_name D) sid config sandboxConfig"

definition CreateContainer :: "nat \<Rightarrow> 'w drv \<Rightarrow> string \<Rightarrow> container_config \<Rightarrow> pod_sandbox_config \<Rightarrow> ('w driver, error + string) go" where
  "CreateContainer fuel D podSandboxID config sandboxConfig =
     go_try (api (d_ContainerInspect (dv_api D) podSandboxID)) (\<lambda>sandbox.
       let tb = driver_container_tb D podSandboxID config sandboxConfig;
           (name, labels) = Build (dv_json D) tb;
           sc = cc_security_context config
       in if csc_run_as_group sc \<noteq> None \<and> csc_run_as_user sc = None
          then go_ret (Inl (Errorf ''RunAsGroup requires RunAsUser''))
          else let dc = container_docker_config (ci_Config sandbox) config labels
                          (container_user D (dc_Labels (ci_Config sandbox)) config);
                   hc = container_host_config D podSandboxID
                          (case ci_HostConfig sandbox of None \<Rightarrow> host_config_zero | Some h \<Rightarrow> h) config
               in go_bind (api (d_ContainerCreate (dv_api D) dc hc [] None name)) (create_loop fuel D dc hc tb))"

section \<open>Starting, stopping and removing a container\<close>

definition on_log :: "string \<Rightarrow> (log_stream \<Rightarrow> log_stream) \<Rightarrow> ('w driver, unit) go" where
  "on_log cid f s =
     (case map_of (drv_logs s) cid of
        None \<Rightarrow> (Ret (), s)
      | Some l \<Rightarrow> (Ret (), s\<lparr>drv_logs := AList.update cid (f l) (drv_logs s)\<rparr>))"

definition StartContainer :: "'w drv \<Rightarrow> string \<Rightarrow> ('w driver, error option) go" where
  "StartContainer D cid =
     go_bind (api (d_ContainerStart (dv_api D) cid)) (\<lambda>e. case e of
       Some e \<Rightarrow> go_ret (Some e)
     | None \<Rightarrow> go_bind (on_log cid (Start (dv_start D))) (\<lambda>_. go_ret None))"

definition stop_logs_unless :: "string \<Rightarrow> error option \<Rightarrow> ('w driver, error option) go" where
  "stop_logs_unless cid e =
     (case e of
        Some e \<Rightarrow> if \<not> IsNotFound e then go_ret (Some e) else go_bind (on_log cid Stop) (\<lambda>_. go_ret None)
      | None \<Rightarrow> go_bind (on_log cid Stop) (\<lambda>_. go_ret None))"

definition StopContainer :: "'w drv \<Rightarrow> string \<Rightarrow> int \<Rightarrow> ('w driver, error option) go" where
  "StopContainer D cid timeout = go_bind (api (d_ContainerStop (dv_api D) cid timeout)) (stop_logs_unless cid)"

definition RemoveContainer :: "'w drv \<Rightarrow> string \<Rightarrow> ('w driver, error option) go" where
  "RemoveContainer D cid = go_bind (api (d_ContainerRemove (dv_api D) cid)) (stop_logs_unless cid)"

definition driver_ReopenContainerLog :: "'w drv \<Rightarrow> string \<Rightarrow> ('w driver, error option) go" where
  "driver_ReopenContainerLog D cid s =
     (case ReopenContainerLog (dv_start D) (drv_logs s) cid of (e, l) \<Rightarrow> (Ret e, s\<lparr>drv_logs := l\<rparr>))"

text \<open>\<^verbatim>\<open>LogStream\<close>: the stream of the container, made on first use; \<open>None\<close> is the nil it returns when the
  container cannot be inspected.\<close>

definition LogStream :: "'w drv \<Rightarrow> string \<Rightarrow> container_status \<Rightarrow> ('w driver, log_stream option) go" where
  "LogStream D cid status s =
     (case map_of (drv_logs s) cid of
        Some l \<Rightarrow> (Ret (Some l), s)
      | None \<Rightarrow>
          go_bind (api (d_ContainerInspect (dv_api D) cid)) (\<lambda>r. case r of
            Inl _ \<Rightarrow> go_ret None
          | Inr _ \<Rightarrow> (\<lambda>t. let l = NewLogStream (Some (ct_LogPath status))
                           in (Ret (Some l), t\<lparr>drv_logs := AList.update cid l (drv_logs t)\<rparr>))) s)"

section \<open>Stopping and removing a sandbox\<close>

definition of_sandbox :: "string \<Rightarrow> container_filter" where
  "of_sandbox sid = \<lparr>cf_id = [], cf_state = None, cf_sandbox = sid, cf_labels = []\<rparr>"

definition go_ignore :: "('s, 'a) go \<Rightarrow> ('s, unit) go" where
  "go_ignore m = go_bind m (\<lambda>_. go_ret ())"

definition StopPodSandbox :: "'w drv \<Rightarrow> string \<Rightarrow> ('w driver, error option) go" where
  "StopPodSandbox D sid =
     go_bind (ListContainers D (of_sandbox sid)) (\<lambda>r. case r of
       Inl e \<Rightarrow> go_ret (Some e)
     | Inr cs \<Rightarrow> go_bind (go_each (\<lambda>c. go_ignore (StopContainer D (co_Id c) 0)) cs) (\<lambda>_. StopContainer D sid 0))"

definition network_status :: "sandbox_status option \<Rightarrow> pod_sandbox_status" where
  "network_status st =
     (case st of
        None \<Rightarrow> \<lparr>pss_annotations = [], pss_ip = []\<rparr>
      | Some st \<Rightarrow> \<lparr>pss_annotations = ss_Annotations st, pss_ip = ss_ip st\<rparr>)"

definition RemovePodSandbox :: "'w drv \<Rightarrow> string \<Rightarrow> ('w driver, error option) go" where
  "RemovePodSandbox D sid =
     go_bind (PodSandboxStatus D sid False) (\<lambda>resp.
     let status = (case resp of Inl _ \<Rightarrow> None | Inr (st, _) \<Rightarrow> Some st) in
     go_bind (ListContainers D (of_sandbox sid)) (\<lambda>r.
     go_bind (go_each (\<lambda>c. go_ignore (RemoveContainer D (co_Id c))) (case r of Inl _ \<Rightarrow> [] | Inr cs \<Rightarrow> cs)) (\<lambda>_.
     go_bind (RemoveContainer D sid) (\<lambda>_.
     go_bind (on_net (FromStatus (docker_service D) (Some (network_status status)))) (\<lambda>network.
       case network of
         Inr (Some an) \<Rightarrow> go_bind (on_net (Deallocate an)) (\<lambda>_. go_ret None)
       | _ \<Rightarrow> go_ret None)))))"

section \<open>Running a sandbox\<close>

definition hash_key :: string where
  "hash_key = ''kubernetes.io/config.hash''"

fun keep_or_remove :: "'w drv \<Rightarrow> pod_sandbox_config \<Rightarrow> pod_sandbox list \<Rightarrow> sandbox_status option \<Rightarrow> ('w driver, sandbox_status option) go" where
  "keep_or_remove D config [] status = go_ret status"
| "keep_or_remove D config (sb # sbs) status =
     (if mget (sb_Annotations sb) hash_key = mget (psc_annotations config) hash_key
      then go_bind (PodSandboxStatus D (sb_Id sb) True) (\<lambda>resp.
             keep_or_remove D config sbs (case resp of Inl _ \<Rightarrow> status | Inr (st, _) \<Rightarrow> Some st))
      else go_bind (RemovePodSandbox D (sb_Id sb)) (\<lambda>_. keep_or_remove D config sbs status))"

definition sandbox_labels :: "'w drv \<Rightarrow> pod_sandbox_config \<Rightarrow> strmap" where
  "sandbox_labels D config =
     maps_Copy (snd (Build (dv_json D) (sandbox_tb (dv_json D) (dv_options D) (dv_name D) config)))
       (filter (\<lambda>(k, v). strings_HasPrefix k (Key (docker_tb D) KeySecurityContext)) (psc_annotations config))"

definition config_ns :: "pod_sandbox_config \<Rightarrow> namespace_option option" where
  "config_ns config =
     (case psc_linux config of None \<Rightarrow> None
      | Some l \<Rightarrow> (case lps_security_context l of None \<Rightarrow> None | Some sc \<Rightarrow> ssc_namespace_options sc))"

definition host_network :: "pod_sandbox_config \<Rightarrow> bool" where
  "host_network config \<longleftrightarrow> (case config_ns config of None \<Rightarrow> False | Some ns \<Rightarrow> ns_network ns = NODE)"

definition port_key :: "port_mapping \<Rightarrow> string" where
  "port_key pm = strconv_FormatInt (pm_container_port pm) @ ''/'' @ strings_ToLower (pm_protocol pm)"

definition host_port :: "pod_sandbox_config \<Rightarrow> port_mapping \<Rightarrow> int" where
  "host_port config pm =
     (if pm_host_port pm = 0 \<and> psc_annotations config = [] then pm_container_port pm else pm_host_port pm)"

definition sandbox_docker_config :: "'w drv \<Rightarrow> pod_sandbox_config \<Rightarrow> docker_config" where
  "sandbox_docker_config D config =
     docker_config_zero\<lparr>dc_Image := ''busybox'', dc_Entrypoint := [''tail'', ''-f'', ''/dev/null''],
       dc_Hostname := psc_hostname config, dc_Domainname := psm_namespace (psc_metadata config) @ ''.svc.cluster.local'',
       dc_Labels := sandbox_labels D config,
       dc_ExposedPorts := (if host_network config then [] else remdups (map port_key (psc_port_mappings config)))\<rparr>"

fun strings_Compact :: "string list \<Rightarrow> string list" where
  "strings_Compact (x # y # xs) = (if x = y then strings_Compact (y # xs) else x # strings_Compact (y # xs))"
| "strings_Compact xs = xs"

text \<open>\<^verbatim>\<open>slices.Sort\<close> on strings is byte order.\<close>

definition byte_le :: "string \<Rightarrow> string \<Rightarrow> bool" where
  "byte_le a b \<longleftrightarrow> ord_class.lexordp_eq (map (of_char :: char \<Rightarrow> nat) a) (map of_char b)"

fun insert_string :: "string \<Rightarrow> string list \<Rightarrow> string list" where
  "insert_string x [] = [x]"
| "insert_string x (y # ys) = (if byte_le x y then x # y # ys else y # insert_string x ys)"

definition slices_Sort :: "string list \<Rightarrow> string list" where
  "slices_Sort xs = foldr insert_string xs []"

definition sandbox_host_config :: "'w drv \<Rightarrow> pod_sandbox_config \<Rightarrow> host_config" where
  "sandbox_host_config D config =
     (let h = host_config_zero\<lparr>hc_IpcMode := ''shareable''\<rparr>;
          h = (case psc_linux config of
                 None \<Rightarrow> h
               | Some l \<Rightarrow>
                   (let h = (case lps_security_context l of
                               None \<Rightarrow> h
                             | Some sc \<Rightarrow>
                                 (let h = h\<lparr>hc_Privileged := ssc_privileged sc\<rparr>
                                  in case ssc_namespace_options sc of
                                       None \<Rightarrow> h
                                     | Some ns \<Rightarrow>
                                         h\<lparr>hc_NetworkMode := (if ns_network ns = NODE then ''host'' else []),
                                           hc_PidMode := (if ns_pid ns = NODE then ''host'' else []),
                                           hc_IpcMode := (if ns_ipc ns = NODE then ''host'' else ''shareable'')\<rparr>))
                    in h\<lparr>hc_Sysctls := lps_sysctls l\<rparr>));
          h = (case psc_dns_config config of
                 None \<Rightarrow> h
               | Some dns \<Rightarrow> h\<lparr>hc_DNS := dns_servers dns, hc_DNSSearch := dns_searches dns, hc_DNSOptions := dns_options dns\<rparr>);
          h = h\<lparr>hc_ExtraHosts := strings_Compact (slices_Sort (ExtraHosts (dv_json D) (tags_of D (psc_annotations config))))\<rparr>
      in if host_network config then h
         else h\<lparr>hc_PortBindings :=
                  fold (\<lambda>pm. AList.update (port_key pm) [(pm_host_ip pm, strconv_FormatInt (host_port config pm))])
                    (psc_port_mappings config) []\<rparr>)"

definition sandbox_networks :: "'w drv \<Rightarrow> pod_sandbox_config \<Rightarrow> string list" where
  "sandbox_networks D config =
     (if host_network config then []
      else [case map_of (psc_annotations config) (Key (docker_tb D) KeyNetwork) of None \<Rightarrow> ''bridge'' | Some n \<Rightarrow> n])"

text \<open>The pause image: pulled when its status is an error or says it is absent. The answer is the status
  that the platform is read from.\<close>

definition ensure_image :: "'w drv \<Rightarrow> string \<Rightarrow> ('w driver, error + cri_image option \<times> strmap) go" where
  "ensure_image D ref =
     go_bind (ImageStatus D ref False) (\<lambda>r. case r of
       Inr (Some img, info) \<Rightarrow> go_ret (Inr (Some img, info))
     | _ \<Rightarrow> go_try (PullImage D ref) (\<lambda>_. ImageStatus D ref False))"

definition platform_of :: "strmap \<Rightarrow> (string \<times> string) option" where
  "platform_of info = (if info = [] then None else Some (mget info ''os'', mget info ''architecture''))"

definition create_sandbox :: "'w drv \<Rightarrow> pod_sandbox_config \<Rightarrow> ('w driver, error + sandbox_status) go" where
  "create_sandbox D config =
     go_try (ensure_image D ''busybox'') (\<lambda>(_, info).
     go_try (api (d_ContainerCreate (dv_api D) (sandbox_docker_config D config) (sandbox_host_config D config)
                    (sandbox_networks D config) (platform_of info)
                    (fst (Build (dv_json D) (sandbox_tb (dv_json D) (dv_options D) (dv_name D) config))))) (\<lambda>created.
     go_try (PodSandboxStatus D created True) (\<lambda>(st, _). go_ret (Inr st))))"

definition start_sandbox :: "'w drv \<Rightarrow> sandbox_status \<Rightarrow> ('w driver, error + string) go" where
  "start_sandbox D st =
     (if ss_State st = SANDBOX_READY then go_ret (Inr (ss_Id st))
      else go_bind (api (d_ContainerStart (dv_api D) (ss_Id st))) (\<lambda>e. case e of
             Some e \<Rightarrow> go_ret (Inl e)
           | None \<Rightarrow> go_try (PodSandboxStatus D (ss_Id st) True) (\<lambda>(st', _). go_ret (Inr (ss_Id st')))))"

definition RunPodSandbox :: "'w drv \<Rightarrow> pod_sandbox_config \<Rightarrow> ('w driver, error + string) go" where
  "RunPodSandbox D config =
     go_bind (ListPodSandbox D \<lparr>sf_id = [], sf_state = None,
                sf_labels = [(UIDKey (docker_tb D), psm_uid (psc_metadata config))]\<rparr>) (\<lambda>existing.
     go_bind (keep_or_remove D config (case existing of Inl _ \<Rightarrow> [] | Inr sbs \<Rightarrow> sbs) None) (\<lambda>status.
       case status of
         Some st \<Rightarrow> start_sandbox D st
       | None \<Rightarrow> go_try (create_sandbox D config) (start_sandbox D)))"

section \<open>The retry loop finds a free name\<close>

definition container_name :: "container_config \<Rightarrow> pod_sandbox_config \<Rightarrow> nat \<Rightarrow> string" where
  "container_name c sc n =
     cm_name (cc_metadata c) @ ''-'' @ nat_dec n @ ''.'' @ psm_name (psc_metadata sc) @ ''.'' @ psm_namespace (psc_metadata sc)"

text \<open>A builder that is the container's but for the attempt number.\<close>

definition at_attempt :: "'w drv \<Rightarrow> string \<Rightarrow> container_config \<Rightarrow> pod_sandbox_config \<Rightarrow> nat \<Rightarrow> tag_builder \<Rightarrow> bool" where
  "at_attempt D sid c sc n b \<longleftrightarrow> tb_inv b \<and> tb_prefix b = dv_options D \<and> tb_get b keyAttempt = nat_dec n \<and>
     (\<forall>k. k \<noteq> keyAttempt \<longrightarrow> tb_get b k = tb_get (driver_container_tb D sid c sc) k)"

lemma at_attempt_start: "at_attempt D sid c sc (unat (cm_attempt (cc_metadata c))) (driver_container_tb D sid c sc)"
  by (simp add: at_attempt_def driver_container_tb_def container_tb_get)

lemma at_attempt_next:
  assumes "at_attempt D sid c sc n b" "n < 2 ^ 32"
  shows "at_attempt D sid c sc (Suc n) (IncrementAttempt (tb_Clone b))"
proof -
  have inv: "tb_inv (tb_Clone b)" using assms(1) by (auto simp: at_attempt_def)
  have "tb_get (tb_Clone b) keyAttempt = nat_dec n" using assms(1) by (simp add: at_attempt_def)
  then have "tb_get (IncrementAttempt (tb_Clone b)) keyAttempt = nat_dec (Suc n)"
    using assms(2) by (simp add: IncrementAttempt_get)
  moreover have "tb_prefix (IncrementAttempt (tb_Clone b)) = tb_prefix b"
    by (simp add: IncrementAttempt_def tb_Clone_def Let_def)
  ultimately show ?thesis
    using assms(1) inv by (auto simp: at_attempt_def)
qed

lemma at_attempt_name:
  assumes "at_attempt D sid c sc n b" "json_sandbox_ok (dv_json D) sc"
  shows "Build (dv_json D) b = (container_name c sc n, tb_tags b)"
proof -
  have ne: "keyType \<noteq> keyAttempt" "keyName \<noteq> keyAttempt" "keySandboxConfig \<noteq> keyAttempt" by (simp_all add: key_defs)
  have get: "k \<noteq> keyAttempt \<Longrightarrow> tb_get b k = tb_get (driver_container_tb D sid c sc) k" for k
    using assms(1) by (simp add: at_attempt_def)
  have "PodSandboxConfig (dv_json D) b = sc"
    by (rule get_PodSandboxConfig [OF _ assms(2)]) (simp add: get ne driver_container_tb_def container_tb_get)
  with assms(1) show ?thesis
    by (simp add: Build_def Let_def get ne driver_container_tb_def container_tb_get container_name_def at_attempt_def)
qed

text \<open>The daemon of the theorem: it refuses a name that is taken and changes nothing, and it creates
  a container under any other name.\<close>

definition names_taken :: "'w docker \<Rightarrow> 'w \<Rightarrow> (string \<Rightarrow> bool) \<Rightarrow> bool" where
  "names_taken A w taken \<longleftrightarrow>
     (\<forall>dc hc name. if taken name then \<exists>e. IsConflict e \<and> d_ContainerCreate A dc hc [] None name w = (Inl e, w)
                   else \<exists>i w'. d_ContainerCreate A dc hc [] None name w = (Inr i, w'))"

lemma names_takenD:
  assumes "names_taken A w taken"
  shows "taken name \<Longrightarrow> \<exists>e. IsConflict e \<and> d_ContainerCreate A dc hc [] None name w = (Inl e, w)"
    "\<not> taken name \<Longrightarrow> \<exists>i w'. d_ContainerCreate A dc hc [] None name w = (Inr i, w')"
  using assms unfolding names_taken_def by (auto dest!: spec [of _ dc] spec [of _ hc] spec [of _ name])

lemma put_same_world: "world (drv_network s) = w \<Longrightarrow> s\<lparr>drv_network := (drv_network s)\<lparr>world := w\<rparr>\<rparr> = s"
  by auto

lemma create_loop_finds:
  assumes "names_taken (dv_api D) w taken" "json_sandbox_ok (dv_json D) sc" "world (drv_network s) = w"
    "\<forall>j < k. taken (container_name c sc (n + 1 + j))" "\<not> taken (container_name c sc (n + 1 + k))" "n + 1 + k < 2 ^ 32"
    "at_attempt D sid c sc n tb" "IsConflict e" "k < fuel"
  shows "\<exists>i w' b dc'. create_loop fuel D dc hc tb (Inl e) s = (Ret (Inr i), s\<lparr>drv_network := (drv_network s)\<lparr>world := w'\<rparr>\<rparr>) \<and>
     dc' = dc\<lparr>dc_Labels := tb_tags b\<rparr> \<and> at_attempt D sid c sc (n + 1 + k) b \<and>
     d_ContainerCreate (dv_api D) dc' hc [] None (container_name c sc (n + 1 + k)) w = (Inr i, w')"
  using assms(4-9)
proof (induction k arbitrary: n tb e fuel dc)
  case 0
  then obtain m where f: "fuel = Suc m" by (cases fuel) auto
  let ?b = "IncrementAttempt (tb_Clone tb)"
  have b: "at_attempt D sid c sc (n + 1) ?b" using at_attempt_next [OF "0.prems"(4)] "0.prems"(3) by simp
  obtain i w' where c: "d_ContainerCreate (dv_api D) (dc\<lparr>dc_Labels := tb_tags ?b\<rparr>) hc [] None (container_name c sc (n + 1)) w = (Inr i, w')"
    using names_takenD(2) [OF assms(1)] "0.prems"(2) by fastforce
  with f b "0.prems"(5) assms(3) show ?case
    by (intro exI [of _ i] exI [of _ w'] exI [of _ ?b]) (simp add: create_loop_retry [OF _ at_attempt_name [OF b assms(2)]] go_bind_def api_apply)
next
  case (Suc k)
  then obtain m where f: "fuel = Suc m" by (cases fuel) auto
  let ?b = "IncrementAttempt (tb_Clone tb)" and ?dc = "dc\<lparr>dc_Labels := tb_tags (IncrementAttempt (tb_Clone tb))\<rparr>"
  have b: "at_attempt D sid c sc (n + 1) ?b" using at_attempt_next [OF Suc.prems(4)] Suc.prems(3) by simp
  have "taken (container_name c sc (n + 1))" using Suc.prems(1) by (metis add_0_right zero_less_Suc)
  then obtain e' where e': "IsConflict e'" "d_ContainerCreate (dv_api D) ?dc hc [] None (container_name c sc (n + 1)) w = (Inl e', w)"
    using names_takenD(1) [OF assms(1)] by blast
  have step: "create_loop fuel D dc hc tb (Inl e) s = create_loop m D ?dc hc ?b (Inl e') s"
    using f e' Suc.prems(5) assms(3) by (simp add: create_loop_retry [OF _ at_attempt_name [OF b assms(2)]] go_bind_def api_apply put_same_world)
  have "\<exists>i w' b dc'. create_loop m D ?dc hc ?b (Inl e') s = (Ret (Inr i), s\<lparr>drv_network := (drv_network s)\<lparr>world := w'\<rparr>\<rparr>) \<and>
     dc' = ?dc\<lparr>dc_Labels := tb_tags b\<rparr> \<and> at_attempt D sid c sc (n + 1 + 1 + k) b \<and>
     d_ContainerCreate (dv_api D) dc' hc [] None (container_name c sc (n + 1 + 1 + k)) w = (Inr i, w')"
    using Suc.prems f e'(1) b by (intro Suc.IH) auto
  with step show ?case by (simp add: ac_simps)
qed

lemma at_attempt_read:
  assumes "at_attempt D sid c sc n b" "n < 2 ^ 32"
  shows "tag_Attempt (tags_of D (tb_tags b)) = word_of_nat n" "tag_Name (tags_of D (tb_tags b)) = cm_name (cc_metadata c)"
    "tag_SandboxUID (tags_of D (tb_tags b)) = sid"
proof -
  have get: "tb_get (tags_of D (tb_tags b)) k = tb_get b k" for k
    using assms(1) unfolding tags_of_def docker_tb_def at_attempt_def by (intro hydrate_get) auto
  have "keyName \<noteq> keyAttempt" "keySandboxUID \<noteq> keyAttempt" by (simp_all add: key_defs)
  with assms show "tag_Attempt (tags_of D (tb_tags b)) = word_of_nat n" "tag_Name (tags_of D (tb_tags b)) = cm_name (cc_metadata c)"
    "tag_SandboxUID (tags_of D (tb_tags b)) = sid"
    by (simp_all add: tag_Attempt_def tag_Name_def tag_SandboxUID_def get at_attempt_def driver_container_tb_def
          container_tb_get ParseUint_nat_dec)
qed

text \<open>
  C2. Creating a container returns, with the first free name. When the names for the attempts \<open>a\<close>,
  \<open>a + 1\<close>, \dots up to \<open>a + k - 1\<close> are taken and the name for \<open>a + k\<close> is free, where \<open>a\<close> is the attempt
  asked for, then after \<open>k\<close> retries the container is created once, under the name for \<open>a + k\<close>, with
  labels from which the attempt \<open>a + k\<close>, the container's name and its sandbox are read back, joined to
  the network and the IPC namespace of its sandbox.
\<close>

theorem create_container_first_free:
  assumes "d_ContainerInspect (dv_api D) sid (world (drv_network s)) = (Inr sandbox, w)"
    "names_taken (dv_api D) w taken" "json_sandbox_ok (dv_json D) sc"
    "csc_run_as_group (cc_security_context c) = None \<or> csc_run_as_user (cc_security_context c) \<noteq> None"
    "a = unat (cm_attempt (cc_metadata c))" "\<forall>j < k. taken (container_name c sc (a + j))"
    "\<not> taken (container_name c sc (a + k))" "a + k < 2 ^ 32" "k \<le> fuel"
  shows "\<exists>i dc hc w' t. CreateContainer fuel D sid c sc s = (Ret (Inr i), t) \<and> world (drv_network t) = w' \<and>
     d_ContainerCreate (dv_api D) dc hc [] None (container_name c sc (a + k)) w = (Inr i, w') \<and>
     tag_Attempt (tags_of D (dc_Labels dc)) = word_of_nat (a + k) \<and>
     tag_Name (tags_of D (dc_Labels dc)) = cm_name (cc_metadata c) \<and> tag_SandboxUID (tags_of D (dc_Labels dc)) = sid \<and>
     hc_NetworkMode hc = ''container:'' @ sid \<and> hc_IpcMode hc = ''container:'' @ sid"
proof -
  let ?tb = "driver_container_tb D sid c sc"
  let ?dc = "container_docker_config (ci_Config sandbox) c (tb_tags ?tb) (container_user D (dc_Labels (ci_Config sandbox)) c)"
  let ?hc = "container_host_config D sid (case ci_HostConfig sandbox of None \<Rightarrow> host_config_zero | Some h \<Rightarrow> h) c"
  let ?s = "s\<lparr>drv_network := (drv_network s)\<lparr>world := w\<rparr>\<rparr>"
  have at: "at_attempt D sid c sc a ?tb" using at_attempt_start assms(5) by blast
  have hc: "hc_NetworkMode ?hc = ''container:'' @ sid" "hc_IpcMode ?hc = ''container:'' @ sid"
    by (simp_all add: container_host_config_def Let_def)
  have run: "CreateContainer fuel D sid c sc s = go_bind (api (d_ContainerCreate (dv_api D) ?dc ?hc [] None (container_name c sc a))) (create_loop fuel D ?dc ?hc ?tb) ?s"
    using assms(1,4) by (auto simp: CreateContainer_def go_try_def go_bind_def api_apply at_attempt_name [OF at assms(3)] Let_def)
  show ?thesis
  proof (cases k)
    case 0
    then obtain i w' where cr: "d_ContainerCreate (dv_api D) ?dc ?hc [] None (container_name c sc a) w = (Inr i, w')"
      using names_takenD(2) [OF assms(2)] assms(7) by fastforce
    have "CreateContainer fuel D sid c sc s = (Ret (Inr i), s\<lparr>drv_network := (drv_network s)\<lparr>world := w'\<rparr>\<rparr>)"
      unfolding run using cr by (simp add: go_bind_def api_apply)
    moreover have "dc_Labels ?dc = tb_tags ?tb" by (simp add: container_docker_config_def)
    ultimately show ?thesis
      using cr hc at_attempt_read [OF at] assms(8) 0
      by (intro exI [of _ i] exI [of _ ?dc] exI [of _ ?hc] exI [of _ w'] exI) auto
  next
    case (Suc m)
    then have "taken (container_name c sc a)" using assms(6) by (metis add_0_right zero_less_Suc)
    then obtain e where e: "IsConflict e" "d_ContainerCreate (dv_api D) ?dc ?hc [] None (container_name c sc a) w = (Inl e, w)"
      using names_takenD(1) [OF assms(2)] by blast
    have loop: "CreateContainer fuel D sid c sc s = create_loop fuel D ?dc ?hc ?tb (Inl e) ?s"
      unfolding run using e by (simp add: go_bind_def api_apply)
    have tk: "\<forall>j < m. taken (container_name c sc (a + 1 + j))"
    proof (intro allI impI)
      fix j assume "j < m"
      then show "taken (container_name c sc (a + 1 + j))" using assms(6) [rule_format, of "Suc j"] Suc by simp
    qed
    obtain i w' b where r: "create_loop fuel D ?dc ?hc ?tb (Inl e) ?s = (Ret (Inr i), ?s\<lparr>drv_network := (drv_network ?s)\<lparr>world := w'\<rparr>\<rparr>)"
        "at_attempt D sid c sc (a + 1 + m) b"
        "d_ContainerCreate (dv_api D) (?dc\<lparr>dc_Labels := tb_tags b\<rparr>) ?hc [] None (container_name c sc (a + 1 + m)) w = (Inr i, w')"
      using create_loop_finds [OF assms(2,3), of ?s m c a sid ?tb e fuel ?dc ?hc] tk at e(1) assms(7-9) Suc by auto
    show ?thesis
      using r loop hc at_attempt_read [OF r(2)] assms(8) Suc
      by (intro exI [of _ i] exI [of _ "?dc\<lparr>dc_Labels := tb_tags b\<rparr>"] exI [of _ ?hc] exI [of _ w'] exI) auto
  qed
qed

section \<open>Removing a sandbox\<close>

text \<open>A call that returns and leaves the pool of networks alone.\<close>

definition same_pool :: "'w driver \<Rightarrow> 'w driver \<Rightarrow> bool" where
  "same_pool s t \<longleftrightarrow> (\<exists>w. drv_network t = (drv_network s)\<lparr>world := w\<rparr>)"

named_theorems pool_rules \<open>calls that return and leave the pool of networks alone\<close>

lemma same_pool_refl [simp]: "same_pool s s"
  by (auto simp: same_pool_def intro: exI [of _ "world (drv_network s)"])

lemma api_pool [pool_rules]: "triple (same_pool s) (api f) (\<lambda>_. same_pool s) (\<lambda>_. False)"
  by (auto simp: triple_def api_apply same_pool_def split: prod.splits)

lemma on_log_pool [pool_rules]: "triple (same_pool s) (on_log cid f) (\<lambda>_. same_pool s) (\<lambda>_. False)"
  by (auto simp: triple_def on_log_def same_pool_def split: option.splits)

lemma ret_pool [pool_rules]: "triple (same_pool s) (go_ret a) (\<lambda>_. same_pool s) (\<lambda>_. False)"
  by (rule triple_ret)

lemma bind_pool [pool_rules]:
  "triple (same_pool s) m (\<lambda>_. same_pool s) (\<lambda>_. False) \<Longrightarrow> (\<And>a. triple (same_pool s) (f a) (\<lambda>_. same_pool s) (\<lambda>_. False)) \<Longrightarrow>
   triple (same_pool s) (go_bind m f) (\<lambda>_. same_pool s) (\<lambda>_. False)"
  by (rule triple_bind)

lemma try_pool [pool_rules]:
  "triple (same_pool s) m (\<lambda>_. same_pool s) (\<lambda>_. False) \<Longrightarrow> (\<And>a. triple (same_pool s) (f a) (\<lambda>_. same_pool s) (\<lambda>_. False)) \<Longrightarrow>
   triple (same_pool s) (go_try m f) (\<lambda>_. same_pool s) (\<lambda>_. False)"
  unfolding go_try_def by (rule bind_pool) (auto split: sum.splits intro: ret_pool)

lemma each_pool [pool_rules]:
  "(\<And>x. triple (same_pool s) (f x) (\<lambda>_. same_pool s) (\<lambda>_. False)) \<Longrightarrow> triple (same_pool s) (go_each f xs) (\<lambda>_. same_pool s) (\<lambda>_. False)"
  by (induction xs) (auto intro: pool_rules)

lemma RemoveContainer_pool [pool_rules]: "triple (same_pool s) (RemoveContainer D cid) (\<lambda>_. same_pool s) (\<lambda>_. False)"
  unfolding RemoveContainer_def
  by (rule bind_pool [OF api_pool]) (auto simp: stop_logs_unless_def split: option.splits intro: pool_rules)

lemma ListContainers_pool [pool_rules]: "triple (same_pool s) (ListContainers D f) (\<lambda>_. same_pool s) (\<lambda>_. False)"
  unfolding ListContainers_def by (intro pool_rules)

lemma ignore_pool [pool_rules]:
  "triple (same_pool s) m (\<lambda>_. same_pool s) (\<lambda>_. False) \<Longrightarrow> triple (same_pool s) (go_ignore m) (\<lambda>_. same_pool s) (\<lambda>_. False)"
  unfolding go_ignore_def by (intro pool_rules)

lemma pool_returns:
  assumes "triple (same_pool s) m (\<lambda>_. same_pool s) (\<lambda>_. False)" "same_pool s t"
  obtains a u where "m t = (Ret a, u)" "same_pool s u"
  using assms unfolding triple_def by (cases "m t"; cases "fst (m t)") force+

lemma Deallocate_frees:
  "\<exists>r. Deallocate a s = (Ret r, s\<lparr>networks := AList.update (an_key a) (a\<lparr>an_uid := None\<rparr>) (networks s)\<rparr>)"
  by (simp add: Deallocate_def alloc_WithSandboxUID_def go_bind_def)

text \<open>The calls between reading the status of a sandbox and freeing its network.\<close>

lemma remove_calls_pool:
  "triple (same_pool s) (go_bind (ListContainers D (of_sandbox sid)) (\<lambda>r.
      go_bind (go_each (\<lambda>c. go_ignore (RemoveContainer D (co_Id c))) (case r of Inl _ \<Rightarrow> [] | Inr cs \<Rightarrow> cs)) (\<lambda>_. RemoveContainer D sid)))
    (\<lambda>_. same_pool s) (\<lambda>_. False)"
  by (intro pool_rules)

text \<open>
  C3. Removing a sandbox frees its network and no other. Whatever the daemon answers to the removals,
  removing a sandbox that has an address in a network of the pool returns without an error, the
  network is then free for the next sandbox, and every other entry of the pool, and so the
  network of every other sandbox, is as it was.
\<close>

theorem remove_sandbox_frees_network:
  assumes "ready d (drv_network s)" "map_of (networks (drv_network s)) k = Some a"
    "d_ContainerInspect (dv_api D) sid (world (drv_network s)) = (Inr i, w)"
    "\<not> from_file (ss_Annotations (inspect_sandbox D i))"
    "ss_ip (inspect_sandbox D i) = ip_String x" "length x = 4" "ip_Mask x (CIDRMask NetworkSubnetSize 4) = net_ip (an_net a)"
  shows "\<exists>t. RemovePodSandbox D sid s = (Ret None, t) \<and> owner (drv_network t) k = None \<and>
     map_of (networks (drv_network t)) k = Some (a\<lparr>an_uid := None\<rparr>) \<and>
     (\<forall>k'. k' \<noteq> k \<longrightarrow> map_of (networks (drv_network t)) k' = map_of (networks (drv_network s)) k')"
proof -
  let ?s1 = "s\<lparr>drv_network := (drv_network s)\<lparr>world := w\<rparr>\<rparr>"
  let ?st = "network_status (Some (inspect_sandbox D i))"
  have status: "PodSandboxStatus D sid False s = (Ret (Inr (inspect_sandbox D i, [])), ?s1)"
    using assms(3) by (simp add: PodSandboxStatus_def go_try_def go_bind_def api_apply)
  have "same_pool s ?s1" by (auto simp: same_pool_def)
  from pool_returns [OF remove_calls_pool this] obtain r u where
    mid: "go_bind (ListContainers D (of_sandbox sid)) (\<lambda>r.
      go_bind (go_each (\<lambda>c. go_ignore (RemoveContainer D (co_Id c))) (case r of Inl _ \<Rightarrow> [] | Inr cs \<Rightarrow> cs)) (\<lambda>_. RemoveContainer D sid)) ?s1 = (Ret r, u)"
      and u: "same_pool s u" by blast
  have rdy: "ready d (drv_network u)" "map_of (networks (drv_network u)) k = Some a"
      and nets: "networks (drv_network u) = networks (drv_network s)"
    using u assms(1,2) by (auto simp: same_pool_def ready_def)
  have found: "FromStatus (docker_service D) (Some ?st) (drv_network u) = (Ret (Inr (Some a)), drv_network u)"
    by (rule FromStatus_finds_network [OF rdy _ assms(6)]) (use assms in \<open>simp_all add: network_status_def\<close>)
  have ka: "an_key a = k" using rdy net_inv_key by (auto simp: ready_def)
  obtain r' where de: "Deallocate a (drv_network u) = (Ret r', (drv_network u)\<lparr>networks := AList.update k (a\<lparr>an_uid := None\<rparr>) (networks (drv_network u))\<rparr>)"
    using Deallocate_frees [of a "drv_network u"] ka by auto
  have "RemovePodSandbox D sid s = (Ret None, u\<lparr>drv_network := (drv_network u)\<lparr>networks := AList.update k (a\<lparr>an_uid := None\<rparr>) (networks (drv_network u))\<rparr>\<rparr>)"
    using status mid found de
    by (simp add: RemovePodSandbox_def go_bind_assoc [symmetric] Let_def) (simp add: go_bind_def on_net_def)
  then show ?thesis
    by (intro exI conjI, assumption) (simp_all add: owner_def nets)
qed

section \<open>Instances\<close>

definition plain_inspect :: "string \<Rightarrow> string \<Rightarrow> container_json" where
  "plain_inspect i ip =
     \<lparr>ci_ID = i, ci_Created = [], ci_Image = ''sha'', ci_LogPath = [],
      ci_State = \<lparr>is_Status = ''running'', is_StartedAt = [], is_FinishedAt = [], is_ExitCode = 0, is_OOMKilled = False, is_Error = [], is_Pid = 7\<rparr>,
      ci_Config = docker_config_zero, ci_HostConfig = None, ci_Mounts = [], ci_networks = Some [(''n'', ip)], ci_ports = []\<rparr>"

definition names_daemon :: "string list docker" where
  "names_daemon = refusing\<lparr>
     d_ContainerInspect := (\<lambda>i w. (Inr (plain_inspect i ''10.0.0.21''), w)),
     d_ContainerCreate := (\<lambda>_ _ _ _ name w. if name \<in> set w then (Inl (ErrConflict name), w) else (Inr ''id'', name # w))\<rparr>"

theorem create_container_first_free_witness:
  "\<exists>t. CreateContainer 1 (example_drv names_daemon) ''sb1'' example_container example_sandbox
     (example_driver [''web-3.shop-0.default'']) = (Ret (Inr ''id''), t) \<and>
     world (drv_network t) = [''web-4.shop-0.default'', ''web-3.shop-0.default'']"
proof -
  let ?D = "example_drv names_daemon" and ?w = "[''web-3.shop-0.default'']"
  have n: "container_name example_container example_sandbox 3 = ''web-3.shop-0.default''"
      "container_name example_container example_sandbox 4 = ''web-4.shop-0.default''"
    by code_simp+
  have a: "unat (cm_attempt (cc_metadata example_container)) = 3" by (simp add: example_container_def)
  have t: "names_taken (dv_api ?D) ?w (\<lambda>name. name \<in> set ?w)"
    by (simp add: names_taken_def names_daemon_def)
  have i: "d_ContainerInspect (dv_api ?D) ''sb1'' (world (drv_network (example_driver ?w))) = (Inr (plain_inspect ''sb1'' ''10.0.0.21''), ?w)"
    by (simp add: names_daemon_def)
  have u: "csc_run_as_group (cc_security_context example_container) = None"
    by (simp add: example_container_def container_config_zero_def container_security_context_zero_def)
  obtain j dc hc w' t where r: "CreateContainer 1 ?D ''sb1'' example_container example_sandbox (example_driver ?w) = (Ret (Inr j), t)"
      "world (drv_network t) = w'" "d_ContainerCreate (dv_api ?D) dc hc [] None (container_name example_container example_sandbox 4) ?w = (Inr j, w')"
    using create_container_first_free [OF i t, of example_sandbox example_container 3 1 1] u a n by auto
  then have "j = ''id''" "w' = ''web-4.shop-0.default'' # ?w" by (simp_all add: n names_daemon_def)
  with r show ?thesis by auto
qed

definition pool_daemon :: "mem docker" where
  "pool_daemon = refusing\<lparr>d_ContainerInspect := (\<lambda>i w. (Inr (plain_inspect i ''10.0.0.21''), w))\<rparr>"

theorem remove_sandbox_frees_network_witness:
  "owner mem_given ''10.0.0.16'' = Some ''u'' \<and>
   (\<exists>t. RemovePodSandbox (example_drv pool_daemon) ''sb1'' ((example_driver [])\<lparr>drv_network := mem_given\<rparr>) = (Ret None, t) \<and>
     owner (drv_network t) ''10.0.0.16'' = None)"
proof -
  let ?s = "(example_driver [])\<lparr>drv_network := mem_given\<rparr>"
  have o: "owner mem_given ''10.0.0.16'' = Some ''u''" by code_simp
  have m: "map_of (networks (drv_network ?s)) ''10.0.0.16'' = Some (mem_first\<lparr>an_uid := Some ''u''\<rparr>)" by code_simp
  have i: "d_ContainerInspect (dv_api (example_drv pool_daemon)) ''sb1'' (world (drv_network ?s)) =
      (Inr (plain_inspect ''sb1'' ''10.0.0.21''), world mem_given)" by (simp add: pool_daemon_def)
  have f: "\<not> from_file (ss_Annotations (inspect_sandbox (example_drv pool_daemon) (plain_inspect ''sb1'' ''10.0.0.21'')))" by code_simp
  have ip: "ss_ip (inspect_sandbox (example_drv pool_daemon) (plain_inspect ''sb1'' ''10.0.0.21'')) = ip_String [10, 0, 0, 21]" by code_simp
  have n: "ip_Mask [10, 0, 0, 21] (CIDRMask NetworkSubnetSize 4) = net_ip (an_net (mem_first\<lparr>an_uid := Some ''u''\<rparr>))" by code_simp
  show ?thesis
    using remove_sandbox_frees_network [OF _ m i f ip _ n] ready_given o by auto
qed

section \<open>Running a sandbox again\<close>

lemma status_of_sandbox:
  "d_ContainerInspect (dv_api D) sid (world (drv_network s)) = (Inr i, world (drv_network s)) \<Longrightarrow>
   PodSandboxStatus D sid True s = (Ret (Inr (inspect_sandbox D i, [(''pid'', strconv_FormatInt (is_Pid (ci_State i)))])), s)"
  by (simp add: PodSandboxStatus_def go_try_def go_bind_def api_apply put_same_world)

text \<open>The platform of a sandbox is read from an image status that never carries it: it is always left to
  the daemon.\<close>

lemma image_status_no_info: "ImageStatus D ref False s = (Ret (Inr (img, info)), t) \<Longrightarrow> info = []"
  by (auto simp: ImageStatus_def go_bind_def api_apply split: if_splits prod.splits sum.splits)

lemma platform_never_set:
  assumes "ensure_image D ref s = (Ret (Inr (img, info)), t)"
  shows "platform_of info = None"
proof -
  obtain r u where st: "ImageStatus D ref False s = (Ret r, u)"
    using assms by (auto simp: ensure_image_def)
  have "info = []"
  proof (cases "\<exists>i inf. r = Inr (Some i, inf)")
    case True
    then show ?thesis using assms st image_status_no_info [of D ref s] by (auto simp: ensure_image_def)
  next
    case False
    then have "go_try (PullImage D ref) (\<lambda>_. ImageStatus D ref False) u = (Ret (Inr (img, info)), t)"
      using assms st by (auto simp: ensure_image_def split: sum.splits option.splits)
    then show ?thesis using image_status_no_info by blast
  qed
  then show ?thesis by (simp add: platform_of_def)
qed

text \<open>
  Running a pod's sandbox again keeps the sandbox. When the daemon has exactly one sandbox of the
  pod, it is running and was made from a configuration with the same hash, \<open>RunPodSandbox\<close> returns its
  identifier and neither creates, starts nor removes anything: the state is unchanged.
\<close>

theorem run_sandbox_again:
  assumes "CHR ''='' \<notin> set (dv_options D)" "dv_name D \<noteq> []" "lists_by_filter D cs"
    "\<forall>c \<in> set (cs (world (drv_network s))). sm_State c \<in> set docker_states"
    "filter (selected_sandbox D \<lparr>sf_id = [], sf_state = None, sf_labels = [(UIDKey (docker_tb D), psm_uid (psc_metadata config))]\<rparr>)
       (cs (world (drv_network s))) = [c]"
    "mget (tag_Annotations (dv_json D) (tags_of D (sm_Labels c))) hash_key = mget (psc_annotations config) hash_key"
    "d_ContainerInspect (dv_api D) (sm_ID c) (world (drv_network s)) = (Inr i, world (drv_network s))"
    "is_Status (ci_State i) = ''running''"
  shows "RunPodSandbox D config s = (Ret (Inr (ci_ID i)), s)"
proof -
  have l: "ListPodSandbox D \<lparr>sf_id = [], sf_state = None, sf_labels = [(UIDKey (docker_tb D), psm_uid (psc_metadata config))]\<rparr> s =
      (Ret (Inr [to_sandbox D c]), s)"
    using list_sandboxes_exact [OF assms(1-4)] assms(5) by simp
  have sb: "sb_Id (to_sandbox D c) = sm_ID c" "mget (sb_Annotations (to_sandbox D c)) hash_key = mget (psc_annotations config) hash_key"
    using assms(6) by (simp_all add: to_sandbox_def Let_def)
  have "ss_State (inspect_sandbox D i) = SANDBOX_READY" "ss_Id (inspect_sandbox D i) = ci_ID i"
    using assms(8) by (simp_all add: inspect_sandbox_def sandbox_state_of_def Let_def)
  then show ?thesis
    using l sb status_of_sandbox [OF assms(7)] by (simp add: RunPodSandbox_def go_bind_def start_sandbox_def)
qed

definition sandbox_summary :: "string \<Rightarrow> container_summary" where
  "sandbox_summary i =
     \<lparr>sm_ID = i, sm_Labels = [(''nk.managed-by'', ''docker''), (''nk.type'', ''sandbox''), (''nk.uid'', ''u-1'')],
      sm_State = ''running'', sm_Image = ''img'', sm_ImageID = ''sha'', sm_Created = 5\<rparr>"

definition sandbox_daemon :: "container_summary list docker" where
  "sandbox_daemon = list_daemon\<lparr>d_ContainerInspect := (\<lambda>i w. (Inr (plain_inspect i ''10.0.0.21''), w))\<rparr>"

theorem run_sandbox_again_witness:
  "RunPodSandbox (example_drv sandbox_daemon) example_sandbox (example_driver [sandbox_summary ''s1'']) =
     (Ret (Inr ''s1''), example_driver [sandbox_summary ''s1''])"
proof -
  let ?D = "example_drv sandbox_daemon" and ?s = "example_driver [sandbox_summary ''s1'']"
  let ?f = "\<lparr>sf_id = [], sf_state = None, sf_labels = [(UIDKey (docker_tb ?D), psm_uid (psc_metadata example_sandbox))]\<rparr>"
  have l: "lists_by_filter ?D (\<lambda>w. w)" by (simp add: lists_by_filter_def sandbox_daemon_def list_daemon_def)
  have st: "\<forall>c \<in> set ((\<lambda>w. w) (world (drv_network ?s))). sm_State c \<in> set docker_states"
    by (simp add: sandbox_summary_def docker_states_def)
  have "docker_match (sandbox_filters ?D ?f) (sandbox_summary ''s1'') \<and> matchLabels ?D (sm_Labels (sandbox_summary ''s1'')) (sf_labels ?f)"
    by code_simp
  then have "selected_sandbox ?D ?f (sandbox_summary ''s1'')"
    using sandbox_filters_exact [of ?D "sandbox_summary ''s1''" ?f] by (simp add: sandbox_summary_def docker_states_def)
  then have f: "filter (selected_sandbox ?D ?f) ((\<lambda>w. w) (world (drv_network ?s))) = [sandbox_summary ''s1'']" by simp
  have h: "mget (tag_Annotations (dv_json ?D) (tags_of ?D (sm_Labels (sandbox_summary ''s1'')))) hash_key = mget (psc_annotations example_sandbox) hash_key"
    by code_simp
  have i: "d_ContainerInspect (dv_api ?D) (sm_ID (sandbox_summary ''s1'')) (world (drv_network ?s)) =
      (Inr (plain_inspect ''s1'' ''10.0.0.21''), world (drv_network ?s))"
    by (simp add: sandbox_daemon_def sandbox_summary_def)
  have "RunPodSandbox ?D example_sandbox ?s = (Ret (Inr (ci_ID (plain_inspect ''s1'' ''10.0.0.21''))), ?s)"
    by (rule run_sandbox_again [OF _ _ l st f h i]) (simp_all add: plain_inspect_def)
  then show ?thesis by (simp add: plain_inspect_def)
qed

end
