(* ===== verification/Docker_Exec.thy ===== *)
theory Docker_Exec
  imports Docker_Query Streams Backend
begin

text \<open>
  Running commands with the Docker driver (\<^verbatim>\<open>src/pkg/driver/docker/docker.go\<close>): a command in a
  container or, marked by the probe rewriting, in its sandbox; a command in a helper container on
  the host or on a network; and the handlers of interactive sessions. Splitting the output of the
  daemon into two streams is library code (\<^verbatim>\<open>stdcopy.StdCopy\<close>) and the parameter \<open>copy\<close>.
\<close>

section \<open>One command in a container\<close>

type_synonym std_copy = "reader \<Rightarrow> string \<times> string \<times> error option"

type_synonym exec_result = "string \<times> string \<times> error option"

text \<open>Whether the context has ended is read after the copy and, if the copy did not fail, again: \<open>ended1\<close>
  and \<open>ended2\<close>. \<open>timeout\<close> is the text of the time limit. (In the text of the error for an ended context the
  wrapped error stands first.)\<close>

definition exec_in :: "'w drv \<Rightarrow> std_copy \<Rightarrow> bool \<Rightarrow> bool \<Rightarrow> string \<Rightarrow> string \<Rightarrow> string list \<Rightarrow> ('w driver, exec_result) go" where
  "exec_in D copy ended1 ended2 timeout cid cmd =
     go_bind (api (d_ContainerExecCreate (dv_api D) cid cmd)) (\<lambda>r. case r of
       Inl e \<Rightarrow> go_ret ([], [], Some e)
     | Inr eid \<Rightarrow>
         go_bind (api (d_ContainerExecAttach (dv_api D) eid)) (\<lambda>r. case r of
           Inl e \<Rightarrow> go_ret ([], [], Some e)
         | Inr conn \<Rightarrow>
             (case copy conn of
                (out, err, cerr) \<Rightarrow>
                  if cerr \<noteq> None \<and> \<not> ended1 then go_ret (out, err, cerr)
                  else if ended2
                  then go_ret (out, err, Some (Wrapf (strconv_Quote (strings_Join '' '' cmd) @ '' timed out after '' @ timeout) ErrDeadlineExceeded))
                  else go_bind (api (d_ContainerExecInspect (dv_api D) eid)) (\<lambda>r. case r of
                         Inl e \<Rightarrow> go_ret (out, err, Some e)
                       | Inr code \<Rightarrow>
                           go_ret (out, err,
                             if code = 0 then None
                             else Some (CodeExitError code (Errorf (''command '' @ strconv_Quote (strings_Join '' '' cmd) @
                                    '' exited with '' @ strconv_FormatInt code @ '': '' @ err))))))))"

definition ExecSync :: "'w drv \<Rightarrow> std_copy \<Rightarrow> bool \<Rightarrow> bool \<Rightarrow> string \<Rightarrow> string \<Rightarrow> string list \<Rightarrow> ('w driver, exec_result) go" where
  "ExecSync D copy ended1 ended2 timeout cid cmd =
     (if cmd \<noteq> [] \<and> hd cmd = SandboxExecSentinel
      then go_bind (ContainerStatus D cid True) (\<lambda>r. case r of
             Inl e \<Rightarrow> go_ret ([], [], Some (Wrapf ''lookup container status'' e))
           | Inr (_, info) \<Rightarrow>
               let sandboxID = mget info ''sandboxID''
               in if sandboxID = [] then go_ret ([], [], Some (Errorf (''no sandbox for container '' @ cid)))
                  else exec_in D copy ended1 ended2 timeout sandboxID (tl cmd))
      else exec_in D copy ended1 ended2 timeout cid cmd)"

section \<open>One command in a helper container\<close>

definition run_helper :: "'w drv \<Rightarrow> std_copy \<Rightarrow> string \<Rightarrow> string list \<Rightarrow> host_config \<Rightarrow> string list \<Rightarrow> ('w driver, error + string) go" where
  "run_helper D copy img cmd hc nets =
     go_bind (api (d_ImagePull (dv_api D) img)) (\<lambda>e. case e of
       Some e \<Rightarrow> go_ret (Inl e)
     | None \<Rightarrow>
         go_try (api (d_ContainerCreate (dv_api D)
                   (docker_config_zero\<lparr>dc_Image := img, dc_Cmd := cmd, dc_AttachStdout := True, dc_AttachStderr := True\<rparr>)
                   hc nets None [])) (\<lambda>i.
         go_try (api (d_ContainerAttach (dv_api D) i)) (\<lambda>conn.
         go_bind (api (d_ContainerStart (dv_api D) i)) (\<lambda>e. case e of
           Some e \<Rightarrow> go_ret (Inl e)
         | None \<Rightarrow>
             (case copy conn of
                (out, err, _) \<Rightarrow>
                  go_bind (api (d_ContainerWait (dv_api D) i)) (\<lambda>w. go_ret (case w of
                      WaitStatus code \<Rightarrow>
                        if code \<noteq> 0 then Inl (Errorf (''exit code '' @ strconv_FormatInt code @ '': '' @ strings_TrimSpace err))
                        else Inr (strings_TrimSpace out)
                    | WaitError (Some e) \<Rightarrow> Inl (Wrapf ''waiting for container'' e)
                    | WaitError None \<Rightarrow> Inr (strings_TrimSpace out))))))))"

definition ExecOnHost :: "'w drv \<Rightarrow> std_copy \<Rightarrow> string \<Rightarrow> string list \<Rightarrow> string list \<Rightarrow> ('w driver, error + string) go" where
  "ExecOnHost D copy img cmd mounts =
     run_helper D copy img cmd
       (host_config_zero\<lparr>hc_AutoRemove := True, hc_Binds := map (\<lambda>m. m @ '':/host'' @ m) mounts,
          hc_NetworkMode := ''host'', hc_PidMode := ''host'', hc_IpcMode := ''host'', hc_Privileged := True\<rparr>) []"

definition ExecOnNetwork :: "'w drv \<Rightarrow> std_copy \<Rightarrow> alloc \<Rightarrow> string \<Rightarrow> string list \<Rightarrow> ('w driver, error + string) go" where
  "ExecOnNetwork D copy net img cmd =
     run_helper D copy img cmd (host_config_zero\<lparr>hc_AutoRemove := True\<rparr>) [an_id net]"

section \<open>Interactive sessions\<close>

text \<open>What the goroutine of a session sends on its channel, with the streams it writes to. A session with
  a command reports the command's exit code.\<close>

definition attach_session :: "'w drv \<Rightarrow> 'k sinks \<Rightarrow> bool \<Rightarrow> bool \<Rightarrow> bool \<Rightarrow> string \<Rightarrow> 'k \<Rightarrow> ('w driver, done_value \<times> 'k) go" where
  "attach_session D K tty so se cid k =
     go_bind (api (d_ContainerAttach (dv_api D) cid)) (\<lambda>r. case r of
       Inl e \<Rightarrow> go_ret (\<lparr>done_Code = 0, done_Err = Some (Wrapf ''attach'' e)\<rparr>, k)
     | Inr conn \<Rightarrow>
         (case ProxyStream K tty so se conn k of
            (Some e, k') \<Rightarrow> go_ret (\<lparr>done_Code = 0, done_Err = Some (Wrapf ''proxy stream'' e)\<rparr>, k')
          | (None, k') \<Rightarrow> go_ret (done_zero, k')))"

definition exec_session :: "'w drv \<Rightarrow> 'k sinks \<Rightarrow> bool \<Rightarrow> bool \<Rightarrow> bool \<Rightarrow> string \<Rightarrow> string list \<Rightarrow> 'k \<Rightarrow> ('w driver, done_value \<times> 'k) go" where
  "exec_session D K tty so se cid cmd k =
     go_bind (api (d_ContainerExecCreate (dv_api D) cid cmd)) (\<lambda>r. case r of
       Inl e \<Rightarrow> go_ret (\<lparr>done_Code = 0, done_Err = Some (Wrapf ''exec create'' e)\<rparr>, k)
     | Inr eid \<Rightarrow>
         go_bind (api (d_ContainerExecAttach (dv_api D) eid)) (\<lambda>r. case r of
           Inl e \<Rightarrow> go_ret (\<lparr>done_Code = 0, done_Err = Some (Wrapf ''exec attach'' e)\<rparr>, k)
         | Inr conn \<Rightarrow>
             (case ProxyStream K tty so se conn k of
                (Some e, k') \<Rightarrow> go_ret (\<lparr>done_Code = 0, done_Err = Some (Wrapf ''proxy stream'' e)\<rparr>, k')
              | (None, k') \<Rightarrow>
                  go_bind (api (d_ContainerExecInspect (dv_api D) eid)) (\<lambda>r. go_ret (case r of
                      Inl e \<Rightarrow> \<lparr>done_Code = 0, done_Err = Some (Wrapf ''exec inspect'' e)\<rparr>
                    | Inr code \<Rightarrow>
                        if code \<noteq> 0
                        then \<lparr>done_Code = code, done_Err = Some (Errorf (''command exited with code '' @ strconv_FormatInt code))\<rparr>
                        else done_zero, k')))))"

text \<open>A forwarded port is looked up and then not served.\<close>

definition forward_session :: "'w drv \<Rightarrow> ('w network, error + alloc option) go \<Rightarrow> string \<Rightarrow> ('w driver, done_value) go" where
  "forward_session D from_status sid =
     go_bind (PodSandboxStatus D sid False) (\<lambda>r. case r of
       Inl e \<Rightarrow> go_ret \<lparr>done_Code = 0, done_Err = Some (Wrapf ''get pod sandbox status'' e)\<rparr>
     | Inr _ \<Rightarrow>
         go_bind (on_net from_status) (\<lambda>n. case n of
           Inl e \<Rightarrow> go_ret \<lparr>done_Code = 0, done_Err = Some (Wrapf ''get network info'' e)\<rparr>
         | Inr _ \<Rightarrow> Unimplemented ''PortForward''))"

section \<open>Where a command runs and what is reported\<close>

lemma exec_sync_plain:
  "cmd = [] \<or> hd cmd \<noteq> SandboxExecSentinel \<Longrightarrow> ExecSync D copy e1 e2 tmo cid cmd = exec_in D copy e1 e2 tmo cid cmd"
  by (auto simp: ExecSync_def)

lemma exec_sync_sandbox:
  assumes "dc_Labels (ci_Config i) = snd (Build (dv_json D) (container_tb (dv_json D) (dv_options D) dn sid c sc))"
    "ci_HostConfig i = Some h" "sid \<noteq> []" "d_ContainerInspect (dv_api D) cid (world (drv_network s)) = (Inr i, w)"
  shows "ExecSync D copy e1 e2 tmo cid (SandboxExecSentinel # cmd) s =
    exec_in D copy e1 e2 tmo sid cmd (s\<lparr>drv_network := (drv_network s)\<lparr>world := w\<rparr>\<rparr>)"
proof -
  have sid: "tag_SandboxUID (tags_of D (dc_Labels (ci_Config i))) = sid"
    unfolding tag_SandboxUID_def assms(1) created_labels_get by (simp add: container_tb_get)
  obtain r where r: "exit_reason i = Ret r" using exit_reason_given [OF assms(2)] by blast
  show ?thesis
    using assms(4) sid r assms(3) by (simp add: ExecSync_def ContainerStatus_def go_try_def go_bind_def api_apply mget_def Let_def)
qed

text \<open>
  A command marked for the sandbox runs in the sandbox of its container. For a container whose
  labels are those that container creation stores for the sandbox \<open>sid\<close>, running a marked command
  is looking the container up and then running the command, without the mark, in \<open>sid\<close>; a container
  that cannot be looked up or has no sandbox gives an error and nothing is run; a command without
  the mark runs in the container itself.
\<close>

theorem exec_sync_target:
  assumes "dc_Labels (ci_Config i) = snd (Build (dv_json D) (container_tb (dv_json D) (dv_options D) dn sid c sc))"
    "ci_HostConfig i = Some h" "sid \<noteq> []" "cmd = [] \<or> hd cmd \<noteq> SandboxExecSentinel"
  shows "(d_ContainerInspect (dv_api D) cid (world (drv_network s)) = (Inr i, w) \<longrightarrow>
      ExecSync D copy e1 e2 tmo cid (SandboxExecSentinel # cmd) s =
      ExecSync D copy e1 e2 tmo sid cmd (s\<lparr>drv_network := (drv_network s)\<lparr>world := w\<rparr>\<rparr>)) \<and>
    (d_ContainerInspect (dv_api D) cid (world (drv_network s)) = (Inl e, w) \<longrightarrow>
      ExecSync D copy e1 e2 tmo cid (SandboxExecSentinel # cmd) s =
      (Ret ([], [], Some (Wrapf ''lookup container status'' e)), s\<lparr>drv_network := (drv_network s)\<lparr>world := w\<rparr>\<rparr>)) \<and>
    ExecSync D copy e1 e2 tmo cid cmd = exec_in D copy e1 e2 tmo cid cmd"
proof -
  note plain = exec_sync_plain [OF assms(4), of D copy e1 e2 tmo]
  show ?thesis
    unfolding plain using exec_sync_sandbox [OF assms(1-3)]
    by (simp add: ExecSync_def ContainerStatus_def go_try_def go_bind_def api_apply)
qed

text \<open>
  The result of a command. When the command could be started and its output copied before the
  context ended, the result carries the two streams as they were copied, and no error exactly when
  the exit code is 0; any other exit code is reported as an exit error with that very code. When
  the context has ended, the error is the deadline error and the exit code is not asked for.
\<close>

theorem exec_sync_result:
  assumes "d_ContainerExecCreate (dv_api D) cid cmd (world (drv_network s)) = (Inr eid, w1)"
    "d_ContainerExecAttach (dv_api D) eid w1 = (Inr conn, w2)" "copy conn = (out, err, cerr)"
    "d_ContainerExecInspect (dv_api D) eid w2 = (Inr code, w3)" "cmd = [] \<or> hd cmd \<noteq> SandboxExecSentinel"
  shows "(cerr = None \<and> \<not> e2 \<longrightarrow>
      (\<exists>r t. ExecSync D copy e1 e2 tmo cid cmd s = (Ret (out, err, r), t) \<and> world (drv_network t) = w3 \<and>
         (case r of None \<Rightarrow> code = 0 | Some x \<Rightarrow> code \<noteq> 0 \<and> (\<exists>m. x = CodeExitError code m)))) \<and>
    (e1 \<and> e2 \<longrightarrow> (\<exists>x t. ExecSync D copy e1 e2 tmo cid cmd s = (Ret (out, err, Some x), t) \<and>
         world (drv_network t) = w2 \<and> error_any (\<lambda>e. e = ErrDeadlineExceeded) x)) \<and>
    (cerr \<noteq> None \<and> \<not> e1 \<longrightarrow> (\<exists>t. ExecSync D copy e1 e2 tmo cid cmd s = (Ret (out, err, cerr), t) \<and> world (drv_network t) = w2))"
proof -
  show ?thesis
    unfolding exec_sync_plain [OF assms(5)] exec_in_def using assms(1-4) by (simp add: go_bind_def api_apply)
qed

definition exec_daemon :: "int \<Rightarrow> string list docker" where
  "exec_daemon code = refusing\<lparr>
     d_ContainerInspect := (\<lambda>i w. (Inr
       \<lparr>ci_ID = i, ci_Created = [], ci_Image = ''sha'', ci_LogPath = [],
        ci_State = \<lparr>is_Status = ''running'', is_StartedAt = [], is_FinishedAt = [], is_ExitCode = 0, is_OOMKilled = False, is_Error = [], is_Pid = 7\<rparr>,
        ci_Config = docker_config_zero\<lparr>dc_Labels := snd (Build (example_codec example_container example_sandbox)
          (container_tb (example_codec example_container example_sandbox) ''nk'' ''docker'' ''sb1'' example_container example_sandbox))\<rparr>,
        ci_HostConfig = Some host_config_zero, ci_Mounts = [], ci_networks = None, ci_ports = []\<rparr>, w)),
     d_ContainerExecCreate := (\<lambda>i cmd w. (Inr ''e1'', (i @ '' '' @ strings_Join '' '' cmd) # w)),
     d_ContainerExecAttach := (\<lambda>_ w. (Inr \<lparr>rd_bytes = ''ok'', rd_end = EOF\<rparr>, w)),
     d_ContainerExecInspect := (\<lambda>_ w. (Inr code, w))\<rparr>"

theorem exec_sync_target_witness:
  "\<exists>t. ExecSync (example_drv (exec_daemon 0)) (\<lambda>r. (rd_bytes r, [], None)) False False ''1s'' ''c1'' [SandboxExecSentinel, ''nc''] (example_driver []) =
     (Ret (''ok'', [], None), t) \<and> world (drv_network t) = [''sb1 nc'']"
proof -
  let ?D = "example_drv (exec_daemon 0)" and ?c = "\<lambda>r. (rd_bytes r, [], None)"
  obtain i where i: "d_ContainerInspect (exec_daemon 0) ''c1'' [] = (Inr i, [])"
      "dc_Labels (ci_Config i) = snd (Build (dv_json ?D) (container_tb (dv_json ?D) (dv_options ?D) ''docker'' ''sb1'' example_container example_sandbox))"
      "ci_HostConfig i = Some host_config_zero"
    by (simp add: exec_daemon_def)
  have n: "hd [''nc''] \<noteq> SandboxExecSentinel" by (simp add: SandboxExecSentinel_def)
  let ?u = "(example_driver [])\<lparr>drv_network := (drv_network (example_driver []))\<lparr>world := []\<rparr>\<rparr>"
  have to_sb: "ExecSync ?D ?c False False ''1s'' ''c1'' [SandboxExecSentinel, ''nc''] (example_driver []) =
      ExecSync ?D ?c False False ''1s'' ''sb1'' [''nc''] ?u"
    using exec_sync_target [OF i(2,3), of "[''nc'']" "''c1''" "example_driver []" "[]" ?c False False "''1s''" EOF] n i(1) by simp
  have "\<exists>t. ExecSync ?D ?c False False ''1s'' ''sb1'' [''nc''] ?u = (Ret (''ok'', [], None), t) \<and> world (drv_network t) = [''sb1 nc'']"
    using n by (simp add: ExecSync_def exec_in_def go_bind_def api_apply exec_daemon_def)
  with to_sb show ?thesis by simp
qed

theorem exec_sync_result_witness:
  "\<exists>m t. ExecSync (example_drv (exec_daemon 3)) (\<lambda>r. (rd_bytes r, [], None)) False False ''1s'' ''c1'' [''false''] (example_driver []) =
     (Ret (''ok'', [], Some (CodeExitError 3 m)), t)"
proof -
  let ?D = "example_drv (exec_daemon 3)"
  have "hd [''false''] \<noteq> SandboxExecSentinel" by (simp add: SandboxExecSentinel_def)
  then obtain r t where "ExecSync ?D (\<lambda>r. (rd_bytes r, [], None)) False False ''1s'' ''c1'' [''false''] (example_driver []) = (Ret (''ok'', [], r), t)"
      "case r of None \<Rightarrow> 3 = (0 :: int) | Some x \<Rightarrow> 3 \<noteq> (0 :: int) \<and> (\<exists>m. x = CodeExitError 3 m)"
    using exec_sync_result [of ?D "''c1''" "[''false'']" "example_driver []" "''e1''" "[''c1 false'']" "\<lparr>rd_bytes = ''ok'', rd_end = EOF\<rparr>"
        "[''c1 false'']" "\<lambda>r. (rd_bytes r, [], None)" "''ok''" "[]" None 3 "[''c1 false'']" False False "''1s''"]
    by (auto simp: exec_daemon_def)
  then show ?thesis by (auto split: option.splits)
qed

end
