(* ===== verification/Docker_Volumes.thy ===== *)
theory Docker_Volumes
  imports Docker_Query Backend
begin

text \<open>
  Volumes for claims: the volume calls of the Docker driver (\<^verbatim>\<open>ClaimVolume\<close>, \<^verbatim>\<open>CreateVolume\<close>,
  \<^verbatim>\<open>DeleteVolume\<close> and \<^verbatim>\<open>ReleaseVolume\<close> of \<^verbatim>\<open>src/pkg/driver/docker/docker.go\<close>) and the reconciliation of
  the backend that calls them (\<^verbatim>\<open>Reconcile\<close> of \<^verbatim>\<open>src/pkg/backend.go\<close>). The Kubernetes API server is a
  parameter, with its state beside the daemon's.
\<close>

section \<open>Claims and volumes\<close>

record claim =
  cl_name :: string
  cl_namespace :: string
  cl_uid :: string
  cl_deleting :: bool
  cl_storageClass :: "string option"
  cl_volumeName :: string
  cl_storage :: string
  cl_accessModes :: "string list"

record affinity_term =
  at_key :: string
  at_operator :: string
  at_values :: "string list"

text \<open>\<open>pv_local\<close> is the file-system type and the path of a local volume, \<open>pv_required\<close> the required node
  selector terms; both are absent when the program would find a nil pointer.\<close>

record pv =
  pv_name :: string
  pv_labels :: strmap
  pv_storageClass :: string
  pv_capacity :: string
  pv_accessModes :: "string list"
  pv_reclaim :: string
  pv_local :: "(string \<times> string) option"
  pv_required :: "affinity_term list list option"

record claim_apply =
  ca_name :: string
  ca_namespace :: string
  ca_labels :: strmap
  ca_storageClass :: string
  ca_volumeName :: string

record 'w kube =
  k_pv_apply :: "pv \<Rightarrow> 'w \<Rightarrow> (error + pv) \<times> 'w"
  k_pv_get :: "string \<Rightarrow> 'w \<Rightarrow> (error + pv option) \<times> 'w"
  k_pv_delete :: "string \<Rightarrow> 'w \<Rightarrow> error option \<times> 'w"
  k_claim_apply :: "claim_apply \<Rightarrow> 'w \<Rightarrow> error option \<times> 'w"

section \<open>The driver's calls\<close>

definition volume_tags :: "'w drv \<Rightarrow> claim \<Rightarrow> string \<times> strmap" where
  "volume_tags D c =
     Build (dv_json D) (WithUID (cl_uid c) (WithName (''pvc-'' @ cl_namespace c @ ''-'' @ cl_name c) (WithType ResourceVolume (docker_tb D))))"

definition hostname_key :: string where
  "hostname_key = ''kubernetes.io/hostname''"

definition volume_for :: "'w drv \<Rightarrow> string \<Rightarrow> string \<Rightarrow> claim \<Rightarrow> pv" where
  "volume_for D backend node c =
     (case volume_tags D c of
        (name, labels) \<Rightarrow>
          \<lparr>pv_name = name, pv_labels = labels, pv_storageClass = [], pv_capacity = cl_storage c,
           pv_accessModes = cl_accessModes c, pv_reclaim = ''Delete'', pv_local = Some (backend, name),
           pv_required = Some [[\<lparr>at_key = hostname_key, at_operator = ''In'', at_values = [node]\<rparr>]]\<rparr>)"

definition ClaimVolume :: "'w drv \<Rightarrow> 'w kube \<Rightarrow> string \<Rightarrow> string \<Rightarrow> claim \<Rightarrow> ('w driver, claim_apply option) go" where
  "ClaimVolume D K backend node c =
     (if cl_storageClass c = None \<and> cl_volumeName c = []
      then go_bind (api (k_pv_apply K (volume_for D backend node c))) (\<lambda>r. go_ret (case r of
             Inl _ \<Rightarrow> None
           | Inr v \<Rightarrow> Some \<lparr>ca_name = cl_name c, ca_namespace = cl_namespace c, ca_labels = snd (volume_tags D c),
                        ca_storageClass = [], ca_volumeName = pv_name v\<rparr>))
      else go_ret None)"

definition CreateVolume :: "'w drv \<Rightarrow> (string \<times> string) option \<Rightarrow> ('w driver, error option) go" where
  "CreateVolume D lvs =
     (case lvs of
        None \<Rightarrow> go_ret (Some (Errorf ''local volume source is nil''))
      | Some (_, path) \<Rightarrow>
          api (d_VolumeCreate (dv_api D) path (snd (Build (dv_json D) (WithName path (WithType ResourceVolume (docker_tb D)))))))"

definition unless_found :: "error option \<Rightarrow> error option" where
  "unless_found e = (case e of Some e \<Rightarrow> if IsNotFound e then None else Some e | None \<Rightarrow> None)"

definition DeleteVolume :: "'w drv \<Rightarrow> (string \<times> string) option \<Rightarrow> ('w driver, error option) go" where
  "DeleteVolume D lvs =
     (case lvs of
        None \<Rightarrow> go_ret (Some (Errorf ''local volume source is nil''))
      | Some (_, path) \<Rightarrow> go_bind (api (d_VolumeRemove (dv_api D) path)) (\<lambda>e. go_ret (unless_found e)))"

definition on_node :: "string \<Rightarrow> pv \<Rightarrow> bool" where
  "on_node node v \<longleftrightarrow> pv_local v \<noteq> None \<and>
     (case pv_required v of
        None \<Rightarrow> False
      | Some terms \<Rightarrow>
          list_ex (list_ex (\<lambda>e. at_key e = hostname_key \<and> at_operator e = ''In'' \<and> node \<in> set (at_values e))) terms)"

definition get_own_volume :: "'w kube \<Rightarrow> string \<Rightarrow> string \<Rightarrow> ('w driver, error + pv option) go" where
  "get_own_volume K node name =
     go_bind (api (k_pv_get K name)) (\<lambda>r. go_ret (case r of
       Inl e \<Rightarrow> if IsNotFound e then Inr None else Inl e
     | Inr None \<Rightarrow> Inr None
     | Inr (Some v) \<Rightarrow> Inr (if on_node node v then Some v else None)))"

definition ReleaseVolume :: "'w drv \<Rightarrow> 'w kube \<Rightarrow> string \<Rightarrow> claim \<Rightarrow> ('w driver, error option) go" where
  "ReleaseVolume D K node c =
     (let name = fst (volume_tags D c)
      in if cl_storageClass c \<noteq> Some [] \<or> cl_volumeName c \<noteq> name then go_ret None
         else go_bind (get_own_volume K node name) (\<lambda>r. case r of
                Inl e \<Rightarrow> go_ret (Some e)
              | Inr None \<Rightarrow> go_ret None
              | Inr (Some v) \<Rightarrow>
                  go_bind (if pv_reclaim v \<noteq> ''Retain'' \<and> pv_local v \<noteq> None then DeleteVolume D (pv_local v) else go_ret None) (\<lambda>e.
                    case e of
                      Some e \<Rightarrow> go_ret (Some e)
                    | None \<Rightarrow> go_bind (api (k_pv_delete K name)) (\<lambda>e. go_ret (unless_found e)))))"

section \<open>Reconciliation\<close>

text \<open>The backend's handler of a claim that was added, changed or deleted. Errors are only logged.\<close>

definition reconcile_claim :: "'w drv \<Rightarrow> 'w kube \<Rightarrow> string \<Rightarrow> string \<Rightarrow> claim \<Rightarrow> bool \<Rightarrow> ('w driver, unit) go" where
  "reconcile_claim D K backend node c deleted =
     (if deleted \<or> cl_deleting c then go_bind (ReleaseVolume D K node c) (\<lambda>_. go_ret ())
      else go_bind (ClaimVolume D K backend node c) (\<lambda>r. case r of
             None \<Rightarrow> go_ret ()
           | Some a \<Rightarrow> go_bind (api (k_claim_apply K a)) (\<lambda>_. go_ret ())))"

text \<open>A deletion notice may wrap the object, once.\<close>

datatype reconcile_obj = ClaimObj claim | Tombstone reconcile_obj | OtherObj

fun tomb_obj :: "reconcile_obj \<Rightarrow> reconcile_obj" where
  "tomb_obj (Tombstone obj) = obj"
| "tomb_obj obj = obj"

definition Reconcile :: "'w drv \<Rightarrow> 'w kube \<Rightarrow> string \<Rightarrow> string \<Rightarrow> reconcile_obj \<Rightarrow> bool \<Rightarrow> ('w driver, unit) go" where
  "Reconcile D K backend node obj deleted =
     (case tomb_obj obj of ClaimObj c \<Rightarrow> reconcile_claim D K backend node c deleted | _ \<Rightarrow> go_ret ())"

section \<open>A claim's volume, from claim to release\<close>

definition bound :: "claim_apply \<Rightarrow> claim \<Rightarrow> claim" where
  "bound a c = c\<lparr>cl_storageClass := Some (ca_storageClass a), cl_volumeName := ca_volumeName a\<rparr>"

lemma volume_tags_bound [simp]: "volume_tags D (c\<lparr>cl_storageClass := x, cl_volumeName := y\<rparr>) = volume_tags D c"
  by (simp add: volume_tags_def)

lemma volume_for_simps [simp]:
  "pv_name (volume_for D b node c) = fst (volume_tags D c)" "pv_local (volume_for D b node c) = Some (b, fst (volume_tags D c))"
  "pv_reclaim (volume_for D b node c) = ''Delete''" "on_node node' (volume_for D b node c) \<longleftrightarrow> node' = node"
  by (auto simp: volume_for_def on_node_def split: prod.splits)

text \<open>
  C35. A volume that was made for a claim goes with the claim, and only on its own node. When the API
  server stores the volume as it was applied, a claim bound to it as the reconciliation asks is
  released by removing exactly the daemon's volume of that name and then the volume object; on
  another node, releasing the claim only reads the volume object and removes nothing.
\<close>

theorem claim_then_release:
  assumes "ClaimVolume D K b node c s = (Ret (Some a), s1)"
    "\<forall>w w' v. k_pv_apply K (volume_for D b node c) w = (Inr v, w') \<longrightarrow> pv_name v = pv_name (volume_for D b node c)"
    "k_pv_get K (fst (volume_tags D c)) (world (drv_network s2)) = (Inr (Some (volume_for D b node c)), w)"
  shows "ca_volumeName a = fst (volume_tags D c) \<and>
    (\<forall>w1 w2. d_VolumeRemove (dv_api D) (fst (volume_tags D c)) w = (None, w1) \<and> k_pv_delete K (fst (volume_tags D c)) w1 = (None, w2) \<longrightarrow>
      ReleaseVolume D K node (bound a c) s2 = (Ret None, s2\<lparr>drv_network := (drv_network s2)\<lparr>world := w2\<rparr>\<rparr>)) \<and>
    (\<forall>other. other \<noteq> node \<longrightarrow>
      ReleaseVolume D K other (bound a c) s2 = (Ret None, s2\<lparr>drv_network := (drv_network s2)\<lparr>world := w\<rparr>\<rparr>))"
proof -
  have a: "ca_volumeName a = fst (volume_tags D c)" "ca_storageClass a = []"
    using assms(1,2) by (auto simp: ClaimVolume_def go_bind_def api_apply split: if_splits prod.splits sum.splits)
  then show ?thesis
    using assms(3)
    by (auto simp: ReleaseVolume_def bound_def Let_def get_own_volume_def DeleteVolume_def unless_found_def go_bind_def api_apply)
qed

text \<open>
  A claim that is not bound to its own volume is left alone. Releasing a claim with a storage
  class, or bound to a volume of another name, changes nothing and calls nobody; a claim that
  has a storage class or a volume already is not given one.
\<close>

theorem foreign_claims_untouched:
  "(cl_storageClass c \<noteq> Some [] \<or> cl_volumeName c \<noteq> fst (volume_tags D c) \<longrightarrow> ReleaseVolume D K node c s = (Ret None, s)) \<and>
   (cl_storageClass c \<noteq> None \<or> cl_volumeName c \<noteq> [] \<longrightarrow> ClaimVolume D K b node c s = (Ret None, s)) \<and>
   (cl_storageClass c \<noteq> None \<and> cl_storageClass c \<noteq> Some [] \<longrightarrow> Reconcile D K b node (ClaimObj c) deleted s = (Ret (), s))"
  by (auto simp: ReleaseVolume_def ClaimVolume_def Reconcile_def reconcile_claim_def go_bind_def Let_def)

section \<open>Instances\<close>

text \<open>An API server that keeps its volumes in a list, beside the volumes of the daemon.\<close>

type_synonym stores = "pv list \<times> string list"

definition list_kube :: "stores kube" where
  "list_kube = \<lparr>k_pv_apply = (\<lambda>v (vs, ds). (Inr v, (v # vs, ds))),
     k_pv_get = (\<lambda>n (vs, ds). (Inr (find (\<lambda>v. pv_name v = n) vs), (vs, ds))),
     k_pv_delete = (\<lambda>n (vs, ds). (None, (filter (\<lambda>v. pv_name v \<noteq> n) vs, ds))),
     k_claim_apply = (\<lambda>_ w. (None, w))\<rparr>"

definition volume_daemon :: "stores docker" where
  "volume_daemon = refusing\<lparr>d_VolumeRemove := (\<lambda>n (vs, ds). (None, (vs, removeAll n ds)))\<rparr>"

definition example_claim :: "string \<Rightarrow> string \<Rightarrow> claim" where
  "example_claim ns n = \<lparr>cl_name = n, cl_namespace = ns, cl_uid = ''u'', cl_deleting = False, cl_storageClass = None,
     cl_volumeName = [], cl_storage = ''1Gi'', cl_accessModes = []\<rparr>"

abbreviation vol_D :: "stores drv" where "vol_D \<equiv> example_drv volume_daemon"

theorem claim_then_release_witness:
  "\<exists>a s1. ClaimVolume vol_D list_kube ''docker'' ''n1'' (example_claim ''ns'' ''c'') (example_driver ([], [])) = (Ret (Some a), s1) \<and>
     ReleaseVolume vol_D list_kube ''n1'' (bound a (example_claim ''ns'' ''c''))
       (example_driver ([volume_for vol_D ''docker'' ''n1'' (example_claim ''ns'' ''c'')], [fst (volume_tags vol_D (example_claim ''ns'' ''c''))])) =
     (Ret None, example_driver ([], []))"
proof -
  let ?c = "example_claim ''ns'' ''c''"
  let ?n = "fst (volume_tags vol_D ?c)" and ?v = "volume_for vol_D ''docker'' ''n1'' ?c"
  let ?s2 = "example_driver ([?v], [?n])"
  obtain a s1 where c: "ClaimVolume vol_D list_kube ''docker'' ''n1'' ?c (example_driver ([], [])) = (Ret (Some a), s1)"
    by (simp add: ClaimVolume_def example_claim_def go_bind_def api_apply list_kube_def)
  have g: "k_pv_get list_kube ?n (world (drv_network ?s2)) = (Inr (Some ?v), ([?v], [?n]))"
    by (simp add: list_kube_def)
  have ap: "\<forall>w w' v. k_pv_apply list_kube ?v w = (Inr v, w') \<longrightarrow> pv_name v = pv_name ?v"
    by (auto simp: list_kube_def split: prod.splits)
  have "d_VolumeRemove (dv_api vol_D) ?n ([?v], [?n]) = (None, ([?v], []))" by (simp add: volume_daemon_def)
  moreover have "k_pv_delete list_kube ?n ([?v], []) = (None, ([], []))" by (simp add: list_kube_def)
  ultimately have "ReleaseVolume vol_D list_kube ''n1'' (bound a ?c) ?s2 = (Ret None, ?s2\<lparr>drv_network := (drv_network ?s2)\<lparr>world := ([], [])\<rparr>\<rparr>)"
    using claim_then_release [OF c ap g] by blast
  with c show ?thesis by (auto simp: example_driver_def NewNetwork_def)
qed

theorem foreign_claims_untouched_witness:
  "ReleaseVolume vol_D list_kube ''n1'' ((example_claim ''ns'' ''c'')\<lparr>cl_storageClass := Some ''fast''\<rparr>) (example_driver ([], [''x''])) =
     (Ret None, example_driver ([], [''x'']))"
  using foreign_claims_untouched [of "(example_claim ''ns'' ''c'')\<lparr>cl_storageClass := Some ''fast''\<rparr>" vol_D list_kube "''n1''" "example_driver ([], [''x''])"]
  by simp

section \<open>Names that collide\<close>

text \<open>
  Two claims can share one volume. The name of a claim's volume joins the namespace and the name of
  the claim with a dash, which both may contain: the claim \<open>c\<close> in the namespace \<open>a-b\<close> and the claim
  \<open>b-c\<close> in the namespace \<open>a\<close> get the same name, whatever their identifiers. Releasing the first, once
  bound, then removes the daemon's volume and the volume object that were made for the second.
\<close>

theorem volume_names_collide:
  assumes "c1 = c\<lparr>cl_namespace := ''a-b'', cl_name := ''c'', cl_storageClass := Some [], cl_volumeName := fst (volume_tags D c2)\<rparr>"
    "c2 = c'\<lparr>cl_namespace := ''a'', cl_name := ''b-c''\<rparr>"
    "k_pv_get K (fst (volume_tags D c2)) (world (drv_network s)) = (Inr (Some (volume_for D b node c2)), w)"
    "d_VolumeRemove (dv_api D) (fst (volume_tags D c2)) w = (None, w1)" "k_pv_delete K (fst (volume_tags D c2)) w1 = (None, w2)"
  shows "fst (volume_tags D c1) = fst (volume_tags D c2) \<and>
    ReleaseVolume D K node c1 s = (Ret None, s\<lparr>drv_network := (drv_network s)\<lparr>world := w2\<rparr>\<rparr>)"
proof -
  have n: "fst (volume_tags D c1) = fst (volume_tags D c2)"
    unfolding assms(1,2)
    by (simp add: volume_tags_def Build_def WithUID_def WithName_def WithType_def docker_tb_def tb_simps Let_def key_defs)
  have "cl_storageClass c1 = Some []" "cl_volumeName c1 = fst (volume_tags D c2)" by (simp_all add: assms(1))
  with n show ?thesis
    using assms(3-5)
    by (simp add: ReleaseVolume_def Let_def get_own_volume_def DeleteVolume_def unless_found_def go_bind_def api_apply)
qed

theorem volume_names_collide_witness:
  "\<exists>c1. cl_namespace c1 = ''a-b'' \<and> cl_name c1 = ''c'' \<and>
     ReleaseVolume vol_D list_kube ''n1'' c1
       (example_driver ([volume_for vol_D ''docker'' ''n1'' (example_claim ''a'' ''b-c'')], [fst (volume_tags vol_D (example_claim ''a'' ''b-c''))])) =
     (Ret None, example_driver ([], []))"
proof -
  let ?c2 = "example_claim ''a'' ''b-c''"
  let ?n = "fst (volume_tags vol_D ?c2)" and ?v = "volume_for vol_D ''docker'' ''n1'' ?c2"
  let ?s = "example_driver ([?v], [?n])"
  let ?c1 = "?c2\<lparr>cl_namespace := ''a-b'', cl_name := ''c'', cl_storageClass := Some [], cl_volumeName := ?n\<rparr>"
  have c2: "?c2 = ?c2\<lparr>cl_namespace := ''a'', cl_name := ''b-c''\<rparr>" by (simp add: example_claim_def)
  have g: "k_pv_get list_kube ?n (world (drv_network ?s)) = (Inr (Some ?v), ([?v], [?n]))" by (simp add: list_kube_def)
  have d: "d_VolumeRemove (dv_api vol_D) ?n ([?v], [?n]) = (None, ([?v], []))" by (simp add: volume_daemon_def)
  have k: "k_pv_delete list_kube ?n ([?v], []) = (None, ([], []))" by (simp add: list_kube_def)
  have "ReleaseVolume vol_D list_kube ''n1'' ?c1 ?s = (Ret None, ?s\<lparr>drv_network := (drv_network ?s)\<lparr>world := ([], [])\<rparr>\<rparr>)"
    using volume_names_collide [OF refl c2 g d k, of ?c2] by blast
  then show ?thesis by (intro exI [of _ ?c1]) (simp add: example_driver_def NewNetwork_def)
qed

end
