(* ===== verification/Host.thy ===== *)
theory Host
  imports Support Docker_Volumes
begin

text \<open>
  The host the kubelet is given (\<^verbatim>\<open>src/pkg/nanokube/host.go\<close>): a volume plugin for host paths and for
  the volumes of the backends, with the mounters it keeps per volume and pod, and the few host
  utilities that do something of their own. The utilities that only panic as unimplemented or
  only call the operating system are left out. The volume calls of a backend are those of the
  Docker driver (\<open>CreateVolume\<close> and \<open>DeleteVolume\<close> of \<open>Docker_Volumes\<close>).
\<close>

section \<open>Volume specifications\<close>

text \<open>\<open>ps_local\<close> is the file-system type, which may be nil, and the path of a local persistent volume;
  \<open>vs_hostPath\<close> says whether the pod's volume, if there is one, is a host path, and which.
  \<open>vs_Name\<close> is what the library's \<^verbatim>\<open>Spec.Name()\<close> answers.\<close>

record pv_spec =
  ps_local :: "(string option \<times> string) option"
  ps_reclaim :: string

record volume_spec =
  vs_Name :: string
  vs_hostPath :: "string option option"
  vs_pv :: "pv_spec option"
  vs_ReadOnly :: bool

datatype volume_kind = HostPath string | Local "string option" string string | OtherVolume

text \<open>The case distinction every method of a mounter starts with.\<close>

definition volume_kind_of :: "volume_spec \<Rightarrow> volume_kind" where
  "volume_kind_of spec =
     (case vs_hostPath spec of
        Some (Some p) \<Rightarrow> HostPath p
      | _ \<Rightarrow> (case vs_pv spec of
                Some pv \<Rightarrow> (case ps_local pv of Some (fs, p) \<Rightarrow> Local fs p (ps_reclaim pv) | None \<Rightarrow> OtherVolume)
              | None \<Rightarrow> OtherVolume))"

definition CanSupport :: "volume_spec \<Rightarrow> bool" where
  "CanSupport spec \<longleftrightarrow>
     (if (case vs_hostPath spec of Some (Some _) \<Rightarrow> True | _ \<Rightarrow> False) then True
      else if (case vs_pv spec of Some pv \<Rightarrow> ps_local pv \<noteq> None | None \<Rightarrow> False) then True
      else False)"

section \<open>The plugin and its mounters\<close>

record mounter =
  mt_spec :: volume_spec
  mt_pod :: string

record 'h host =
  ho_volumeHost :: "'h once"
  ho_mounters :: "(string \<times> mounter) list"
  ho_unmounters :: "(string \<times> mounter) list"

definition NewHost :: "'h host" where
  "NewHost = \<lparr>ho_volumeHost = None, ho_mounters = [], ho_unmounters = []\<rparr>"

definition host_Init :: "'h \<Rightarrow> 'h host \<Rightarrow> 'h host" where
  "host_Init vh h = h\<lparr>ho_volumeHost := once_provide vh (ho_volumeHost h)\<rparr>"

interpretation volume_host: provided_once host_Init ho_volumeHost
  by unfold_locales (simp add: host_Init_def)

text \<open>\<^verbatim>\<open>sync.Map.LoadOrStore\<close>: the value that is there, or the given one, which is then stored.\<close>

definition load_or_store :: "'k \<Rightarrow> 'v \<Rightarrow> ('k \<times> 'v) list \<Rightarrow> 'v \<times> ('k \<times> 'v) list" where
  "load_or_store k v m = (case map_of m k of Some w \<Rightarrow> (w, m) | None \<Rightarrow> (v, AList.update k v m))"

definition mounter_key :: "string \<Rightarrow> string \<Rightarrow> string" where
  "mounter_key name uid = name @ ''-'' @ uid"

definition newMounter :: "volume_spec \<Rightarrow> string \<Rightarrow> ('h host, error + mounter) go" where
  "newMounter spec uid h =
     (case load_or_store (mounter_key (vs_Name spec) uid) \<lparr>mt_spec = spec, mt_pod = uid\<rparr> (ho_mounters h) of
        (m, ms) \<Rightarrow> (Ret (Inr m), h\<lparr>ho_mounters := ms\<rparr>))"

text \<open>The argument of \<^verbatim>\<open>LoadOrStore\<close> is evaluated first: it asserts the type of the mounter that was
  loaded, which panics when there is none.\<close>

definition newUnmounter :: "string \<Rightarrow> string \<Rightarrow> ('h host, error + mounter) go" where
  "newUnmounter name uid h =
     (case map_of (ho_mounters h) (mounter_key name uid) of
        None \<Rightarrow> (Panic ''interface conversion: interface is nil, not volume.Unmounter'', h)
      | Some m \<Rightarrow>
          (case load_or_store (mounter_key name uid) m (ho_unmounters h) of
             (u, us) \<Rightarrow> (Ret (Inr u), h\<lparr>ho_unmounters := us\<rparr>)))"

section \<open>What a mounter does\<close>

text \<open>\<open>B\<close> is \<^verbatim>\<open>ctx.Backend\<close>: the volume calls of the driver of a backend, by the backend's name.\<close>

record 's volume_calls =
  vc_create :: "(string \<times> string) option \<Rightarrow> ('s, error option) go"
  vc_delete :: "(string \<times> string) option \<Rightarrow> ('s, error option) go"

definition no_backend :: "string \<Rightarrow> error" where
  "no_backend fs = Errorf (''no backend found for local volume with fstype '' @ fs)"

definition nil_dereference :: "('s, 'a) go" where
  "nil_dereference = go_panic ''invalid memory address or nil pointer dereference''"

definition SetUp :: "(string \<Rightarrow> 's volume_calls option) \<Rightarrow> mounter \<Rightarrow> ('s, error option) go" where
  "SetUp B m =
     (case volume_kind_of (mt_spec m) of
        HostPath _ \<Rightarrow> go_ret None
      | Local None _ _ \<Rightarrow> nil_dereference
      | Local (Some fs) p _ \<Rightarrow>
          (case B fs of
             None \<Rightarrow> go_ret (Some (no_backend fs))
           | Some b \<Rightarrow> vc_create b (Some (fs, p)))
      | OtherVolume \<Rightarrow> go_panic ''unimplemented mounterimpl setup'')"

definition TearDown :: "(string \<Rightarrow> 's volume_calls option) \<Rightarrow> mounter \<Rightarrow> ('s, error option) go" where
  "TearDown B m =
     (case volume_kind_of (mt_spec m) of
        HostPath _ \<Rightarrow> go_ret None
      | Local None _ _ \<Rightarrow> nil_dereference
      | Local (Some fs) p reclaim \<Rightarrow>
          (case B fs of
             None \<Rightarrow> go_ret (Some (no_backend fs))
           | Some b \<Rightarrow> if reclaim = ''Retain'' then go_ret None else vc_delete b (Some (fs, p)))
      | OtherVolume \<Rightarrow> go_panic ''unimplemented mounterimpl teardown'')"

definition GetPath :: "mounter \<Rightarrow> string outcome" where
  "GetPath m =
     (case volume_kind_of (mt_spec m) of
        HostPath p \<Rightarrow> Ret p
      | Local _ p _ \<Rightarrow> Ret p
      | OtherVolume \<Rightarrow> Panic ''unimplemented mounterimpl getpath'')"

record attributes =
  at_ReadOnly :: bool
  at_Managed :: bool
  at_SELinuxRelabel :: bool

definition GetAttributes :: "mounter \<Rightarrow> attributes outcome" where
  "GetAttributes m =
     (case volume_kind_of (mt_spec m) of
        OtherVolume \<Rightarrow> Panic ''unimplemented mounterimpl getattributes''
      | _ \<Rightarrow> Ret \<lparr>at_ReadOnly = vs_ReadOnly (mt_spec m), at_Managed = True, at_SELinuxRelabel = False\<rparr>)"

definition GetMetrics :: "int \<Rightarrow> mounter \<Rightarrow> (error + int) outcome" where
  "GetMetrics now m =
     (case volume_kind_of (mt_spec m) of
        OtherVolume \<Rightarrow> Panic ''unimplemented mounterimpl getmetrics''
      | _ \<Rightarrow> Ret (Inr now))"

section \<open>Host utilities\<close>

text \<open>\<open>mkdir\<close>, \<open>stat\<close> and \<open>absent\<close> are \<^verbatim>\<open>os.MkdirAll\<close>, \<^verbatim>\<open>os.Stat\<close> and \<^verbatim>\<open>os.IsNotExist\<close>.\<close>

definition MkdirAll :: "(string \<Rightarrow> nat \<Rightarrow> 's \<Rightarrow> error option \<times> 's) \<Rightarrow> string \<Rightarrow> nat \<Rightarrow> 's \<Rightarrow> error option \<times> 's" where
  "MkdirAll mkdir path perm s = (if path = ''/var/log/containers'' then (None, s) else mkdir path perm s)"

definition SafeMakeDir :: "(string \<Rightarrow> nat \<Rightarrow> 's \<Rightarrow> error option \<times> 's) \<Rightarrow> string \<Rightarrow> string \<Rightarrow> nat \<Rightarrow> 's \<Rightarrow> error option \<times> 's" where
  "SafeMakeDir mkdir subdir base perm = mkdir (filepath_Join [base, subdir]) perm"

definition PathExists :: "(string \<Rightarrow> error + 'i) \<Rightarrow> (error \<Rightarrow> bool) \<Rightarrow> string \<Rightarrow> error + bool" where
  "PathExists stat absent path =
     (case stat path of
        Inr _ \<Rightarrow> Inr True
      | Inl e \<Rightarrow> if absent e then Inr False else Inl e)"

definition IsLikelyNotMountPoint :: "options \<Rightarrow> string \<Rightarrow> (error + bool) outcome" where
  "IsLikelyNotMountPoint o1 file =
     (if InDataDir o1 file then Ret (Inr True) else Panic ''unimplemented hostimpl islikelynotmountpoint'')"

definition MountSensitiveWithoutSystemd :: "string \<Rightarrow> string \<Rightarrow> error option outcome" where
  "MountSensitiveWithoutSystemd source fstype =
     (if source = ''tmpfs'' \<and> fstype = ''tmpfs'' then Ret None
      else Panic ''unimplemented hostimpl mountsensitivewithoutsystemd'')"

definition PrepareSafeSubpath :: "string \<Rightarrow> string" where
  "PrepareSafeSubpath path = path"

text \<open>The plugins in the order they are probed; the host itself comes first, the plugins of
  Kubernetes are given.\<close>

definition VolumePlugins :: "'p \<Rightarrow> 'p list list \<Rightarrow> 'p list once \<Rightarrow> 'p list \<times> 'p list once" where
  "VolumePlugins self probed c =
     (case once_provide (fold (\<lambda>ps acc. acc @ ps) probed [self]) c of
        Some ps \<Rightarrow> (ps, Some ps)
      | None \<Rightarrow> ([], None))"

section \<open>What is supported is implemented\<close>

lemma CanSupport_kind: "CanSupport spec \<longleftrightarrow> volume_kind_of spec \<noteq> OtherVolume"
  by (auto simp: CanSupport_def volume_kind_of_def split: option.splits)

text \<open>
  The plugin implements what it says it supports. For a volume it claims, no call of its mounter
  ends in one of the unimplemented panics: path, attributes and metrics are always returned, and
  mounting and unmounting panic only for a local volume without a file-system type, whose nil
  pointer is read. An unknown file-system type is an error, not a panic, and host paths are left
  alone. For any other volume all of them panic.
\<close>

theorem supported_volumes_work:
  "if CanSupport (mt_spec m)
   then (\<exists>p. GetPath m = Ret p) \<and> GetAttributes m = Ret \<lparr>at_ReadOnly = vs_ReadOnly (mt_spec m), at_Managed = True, at_SELinuxRelabel = False\<rparr> \<and>
     GetMetrics now m = Ret (Inr now) \<and>
     (case volume_kind_of (mt_spec m) of
        HostPath p \<Rightarrow> GetPath m = Ret p \<and> SetUp B m s = (Ret None, s) \<and> TearDown B m s = (Ret None, s)
      | Local None _ _ \<Rightarrow> (\<exists>e. SetUp B m s = (Panic e, s) \<and> TearDown B m s = (Panic e, s))
      | Local (Some fs) p r \<Rightarrow>
          (case B fs of
             None \<Rightarrow> SetUp B m s = (Ret (Some (no_backend fs)), s) \<and> TearDown B m s = (Ret (Some (no_backend fs)), s)
           | Some b \<Rightarrow> SetUp B m s = vc_create b (Some (fs, p)) s \<and>
               TearDown B m s = (if r = ''Retain'' then (Ret None, s) else vc_delete b (Some (fs, p)) s))
      | OtherVolume \<Rightarrow> False)
   else (\<exists>e1 e2 e3. GetPath m = Panic e1 \<and> SetUp B m s = (Panic e2, s) \<and> TearDown B m s = (Panic e3, s))"
  by (auto simp: CanSupport_kind GetPath_def GetAttributes_def GetMetrics_def SetUp_def TearDown_def nil_dereference_def
      split: volume_kind.splits option.splits)

section \<open>Mounters and unmounters\<close>

datatype 'h host_op = OpInit 'h | OpMount volume_spec string | OpUnmount string string

fun host_step :: "'h host_op \<Rightarrow> 'h host \<Rightarrow> 'h host" where
  "host_step (OpInit vh) h = host_Init vh h"
| "host_step (OpMount spec uid) h = snd (newMounter spec uid h)"
| "host_step (OpUnmount name uid) h = snd (newUnmounter name uid h)"

fun op_uid :: "'h host_op \<Rightarrow> string option" where
  "op_uid (OpMount _ uid) = Some uid"
| "op_uid (OpUnmount _ uid) = Some uid"
| "op_uid (OpInit _) = None"

text \<open>The specification: the first mount of a volume in a pod.\<close>

fun first_mount :: "'h host_op list \<Rightarrow> string \<Rightarrow> string \<Rightarrow> volume_spec option" where
  "first_mount [] name uid = None"
| "first_mount (OpMount spec u # ops) name uid =
     (if vs_Name spec = name \<and> u = uid then Some spec else first_mount ops name uid)"
| "first_mount (_ # ops) name uid = first_mount ops name uid"

lemma first_mount_append:
  "first_mount (xs @ ys) name uid = (case first_mount xs name uid of Some s \<Rightarrow> Some s | None \<Rightarrow> first_mount ys name uid)"
  by (induction xs name uid rule: first_mount.induct) auto

lemma mounter_key_inj: "length u = length v \<Longrightarrow> mounter_key n u = mounter_key m v \<longleftrightarrow> n = m \<and> u = v"
  by (auto simp: mounter_key_def)

definition host_inv :: "nat \<Rightarrow> 'h host_op list \<Rightarrow> 'h host \<Rightarrow> bool" where
  "host_inv n ops h \<longleftrightarrow>
     (\<forall>name uid. length uid = n \<longrightarrow>
        map_of (ho_mounters h) (mounter_key name uid) = map_option (\<lambda>spec. \<lparr>mt_spec = spec, mt_pod = uid\<rparr>) (first_mount ops name uid)) \<and>
     (\<forall>k u. map_of (ho_unmounters h) k = Some u \<longrightarrow> map_of (ho_mounters h) k = Some u)"

lemma map_of_load_or_store:
  "map_of (snd (load_or_store k v m)) = (\<lambda>k'. if k' = k \<and> map_of m k = None then Some v else map_of m k')"
  by (auto simp: load_or_store_def fun_eq_iff split: option.splits)

lemma newMounter_state:
  "ho_mounters (snd (newMounter spec u h)) =
     snd (load_or_store (mounter_key (vs_Name spec) u) \<lparr>mt_spec = spec, mt_pod = u\<rparr> (ho_mounters h))"
  "ho_unmounters (snd (newMounter spec u h)) = ho_unmounters h"
  by (simp_all add: newMounter_def split: prod.splits)

lemma newUnmounter_state:
  "ho_mounters (snd (newUnmounter name u h)) = ho_mounters h"
  "map_of (ho_unmounters (snd (newUnmounter name u h))) k =
     (if k = mounter_key name u \<and> map_of (ho_unmounters h) k = None then map_of (ho_mounters h) k else map_of (ho_unmounters h) k)"
  by (auto simp: newUnmounter_def load_or_store_def split: prod.splits option.splits)

lemma host_inv_mount:
  assumes "host_inv n ops h" "length u = n"
  shows "host_inv n (ops @ [OpMount spec u]) (snd (newMounter spec u h))"
proof -
  have "map_of (ho_mounters (snd (newMounter spec u h))) (mounter_key name uid) =
      map_option (\<lambda>spec. \<lparr>mt_spec = spec, mt_pod = uid\<rparr>) (first_mount (ops @ [OpMount spec u]) name uid)"
    if "length uid = n" for name uid
    using assms that
    by (cases "first_mount ops name uid")
       (auto simp: host_inv_def newMounter_state map_of_load_or_store mounter_key_inj first_mount_append)
  moreover have "map_of (ho_unmounters h) k = Some w \<Longrightarrow> map_of (ho_mounters (snd (newMounter spec u h))) k = Some w" for k w
    using assms(1) by (auto simp: host_inv_def newMounter_state map_of_load_or_store)
  ultimately show ?thesis by (simp add: host_inv_def newMounter_state)
qed

definition uid_length :: "nat \<Rightarrow> 'h host_op \<Rightarrow> bool" where
  "uid_length n op \<longleftrightarrow> (case op_uid op of None \<Rightarrow> True | Some u \<Rightarrow> length u = n)"

lemma host_inv_step:
  assumes "host_inv n ops h" "uid_length n op"
  shows "host_inv n (ops @ [op]) (host_step op h)"
proof (cases op)
  case (OpInit vh)
  with assms(1) show ?thesis by (simp add: host_inv_def host_Init_def first_mount_append option.case_eq_if)
next
  case (OpMount spec u)
  with assms show ?thesis by (simp add: host_inv_mount uid_length_def)
next
  case (OpUnmount name u)
  with assms(1) show ?thesis
    by (simp add: host_inv_def newUnmounter_state first_mount_append option.case_eq_if)
qed

lemma host_inv_fold: "list_all (uid_length n) ops \<Longrightarrow> host_inv n ops (fold host_step ops NewHost)"
proof (induction ops rule: rev_induct)
  case Nil
  then show ?case by (simp add: host_inv_def NewHost_def)
next
  case (snoc op ops)
  then show ?case by (auto intro: host_inv_step)
qed

text \<open>
  The plugin's two maps implement one: what a volume of a pod was first mounted with. After any
  sequence of calls with pod identifiers of one length (they are UUIDs), asking for a mounter
  gives the specification of the first mount of that volume name in that pod, or the given one
  when there was none, and asking for an unmounter gives the mounter of that first mount, whatever
  was asked since. Asking for an unmounter without a mount before panics and changes nothing: in
  a process that has just been started every unmounting does, since the maps are in memory only.
\<close>

theorem unmounter_is_first_mounter:
  assumes "list_all (uid_length (length uid)) ops" "h = fold host_step ops NewHost"
  shows "fst (newUnmounter name uid h) =
       (case first_mount ops name uid of
          Some spec \<Rightarrow> Ret (Inr \<lparr>mt_spec = spec, mt_pod = uid\<rparr>)
        | None \<Rightarrow> Panic ''interface conversion: interface is nil, not volume.Unmounter'') \<and>
    (first_mount ops name uid = None \<longrightarrow> snd (newUnmounter name uid h) = h) \<and>
    (vs_Name spec = name \<longrightarrow> fst (newMounter spec uid h) =
       Ret (Inr \<lparr>mt_spec = (case first_mount ops name uid of Some s \<Rightarrow> s | None \<Rightarrow> spec), mt_pod = uid\<rparr>))"
proof -
  have inv: "host_inv (length uid) ops h" unfolding assms(2) by (rule host_inv_fold [OF assms(1)])
  then have m: "map_of (ho_mounters h) (mounter_key name uid) = map_option (\<lambda>spec. \<lparr>mt_spec = spec, mt_pod = uid\<rparr>) (first_mount ops name uid)"
    by (simp add: host_inv_def)
  have u: "map_of (ho_unmounters h) (mounter_key name uid) = Some w \<Longrightarrow> map_of (ho_mounters h) (mounter_key name uid) = Some w" for w
    using inv by (simp add: host_inv_def)
  show ?thesis
    using m u
    by (auto simp: newUnmounter_def newMounter_def load_or_store_def split: option.splits)
qed

text \<open>An example: the volume \<open>data\<close> is mounted, then asked for with another specification.\<close>

definition example_spec :: "string \<Rightarrow> volume_spec" where
  "example_spec p = \<lparr>vs_Name = ''data'', vs_hostPath = Some (Some p), vs_pv = None, vs_ReadOnly = False\<rparr>"

theorem unmounter_is_first_mounter_witness:
  "fst (newUnmounter ''data'' ''u1'' (fold host_step [OpMount (example_spec ''/a'') ''u1'', OpMount (example_spec ''/b'') ''u1''] (NewHost :: unit host))) =
     Ret (Inr \<lparr>mt_spec = example_spec ''/a'', mt_pod = ''u1''\<rparr>) \<and>
   fst (newUnmounter ''data'' ''u1'' (NewHost :: unit host)) = Panic ''interface conversion: interface is nil, not volume.Unmounter''"
  using unmounter_is_first_mounter
      [of "''u1''" "[OpMount (example_spec ''/a'') ''u1'', OpMount (example_spec ''/b'') ''u1''] :: unit host_op list", OF _ refl, of "''data''" "example_spec ''/a''"]
    unmounter_is_first_mounter [of "''u1''" "[] :: unit host_op list", OF _ refl, of "''data''" "example_spec ''/a''"]
  by (simp add: example_spec_def uid_length_def)

section \<open>Unmounting a claimed volume\<close>

text \<open>The volume calls of a Docker driver, and the plugin's view of a volume object.\<close>

definition docker_volumes :: "'w drv \<Rightarrow> 'w driver volume_calls" where
  "docker_volumes D = \<lparr>vc_create = CreateVolume D, vc_delete = DeleteVolume D\<rparr>"

definition spec_of_pv :: "pv \<Rightarrow> volume_spec" where
  "spec_of_pv v = \<lparr>vs_Name = pv_name v, vs_hostPath = None,
     vs_pv = Some \<lparr>ps_local = map_option (\<lambda>(fs, p). (Some fs, p)) (pv_local v), ps_reclaim = pv_reclaim v\<rparr>, vs_ReadOnly = False\<rparr>"

text \<open>
  Unmounting a claimed volume removes it. A volume made for a claim has the reclaim policy
  \<open>Delete\<close>; when a pod that uses it goes away, its mounter removes the daemon's volume with its
  content, although the claim is still bound to it: the volume object is not touched and no
  release of the claim is asked for.
\<close>

theorem teardown_removes_claimed_volume:
  assumes "B b = Some (docker_volumes D)" "v = volume_for D b node c"
    "d_VolumeRemove (dv_api D) (fst (volume_tags D c)) (world (drv_network s)) = (None, w)"
  shows "TearDown B \<lparr>mt_spec = spec_of_pv v, mt_pod = uid\<rparr> s = (Ret None, s\<lparr>drv_network := (drv_network s)\<lparr>world := w\<rparr>\<rparr>)"
proof -
  have "volume_kind_of (spec_of_pv v) = Local (Some b) (fst (volume_tags D c)) ''Delete''"
    by (simp add: assms(2) spec_of_pv_def volume_kind_of_def volume_for_def split: prod.splits)
  then show ?thesis
    using assms(1,3) by (simp add: TearDown_def docker_volumes_def DeleteVolume_def unless_found_def go_bind_def api_apply)
qed

theorem teardown_removes_claimed_volume_witness:
  "TearDown (\<lambda>b. if b = ''docker'' then Some (docker_volumes vol_D) else None)
     \<lparr>mt_spec = spec_of_pv (volume_for vol_D ''docker'' ''n1'' (example_claim ''ns'' ''c'')), mt_pod = ''u1''\<rparr>
     (example_driver ([volume_for vol_D ''docker'' ''n1'' (example_claim ''ns'' ''c'')], [fst (volume_tags vol_D (example_claim ''ns'' ''c''))])) =
   (Ret None, example_driver ([volume_for vol_D ''docker'' ''n1'' (example_claim ''ns'' ''c'')], []))"
proof -
  let ?c = "example_claim ''ns'' ''c''"
  let ?n = "fst (volume_tags vol_D ?c)" and ?v = "volume_for vol_D ''docker'' ''n1'' ?c"
  have "d_VolumeRemove (dv_api vol_D) ?n (world (drv_network (example_driver ([?v], [?n])))) = (None, ([?v], []))"
    by (simp add: volume_daemon_def example_driver_def NewNetwork_def)
  from teardown_removes_claimed_volume [OF _ refl this, of "\<lambda>b. if b = ''docker'' then Some (docker_volumes vol_D) else None" "''docker''" "''n1''"]
  show ?thesis by (simp add: example_driver_def NewNetwork_def)
qed

end
