(* ===== verification/Nanokube.thy ===== *)
theory Nanokube
  imports Host Client Base64
begin

text \<open>
  The process-wide object of \<^verbatim>\<open>src/pkg/nanokube.go\<close>: cancellation, the identity and the certificate
  files kept in the data directory, the values handed over once (loopback configuration, informers,
  node reference), the detected backends and the kubeconfig of the loopback client; with the
  detection of the Docker backend (\<^verbatim>\<open>Detect\<close> and \<^verbatim>\<open>NewBackend\<close> of
  \<^verbatim>\<open>src/pkg/driver/docker/docker.go\<close>) and of the two stub backends, in the order \<^verbatim>\<open>src/main.go\<close> registers them.
\<close>

section \<open>The disk and the surroundings\<close>

text \<open>
  What the operating system and the libraries answer. A failing write may leave the file cut off:
  \<open>sy_write\<close> gives the error and what is then in the file, if it changed. \<open>sy_gen\<close> is the generator of
  self-signed certificates, \<open>sy_load\<close> the loader of a key pair, \<open>sy_kubeconfig\<close> the writer of a
  kubeconfig.
\<close>

record 'c sys =
  sy_read :: "string \<Rightarrow> error option"
  sy_write :: "string \<Rightarrow> (error \<times> string option) option"
  sy_remove :: "string \<Rightarrow> error option"
  sy_gen :: "string \<Rightarrow> string list \<Rightarrow> error + string \<times> string"
  sy_load :: "string \<Rightarrow> string \<Rightarrow> error + 'c"
  sy_kubeconfig :: "string \<Rightarrow> error option"
  sy_LocalHost :: string
  sy_CACerts :: "string list"

type_synonym disk = "(string \<times> string) list"

definition os_ReadFile :: "'c sys \<Rightarrow> string \<Rightarrow> disk \<Rightarrow> error + string" where
  "os_ReadFile Y path d =
     (case map_of d path of
        None \<Rightarrow> Inl (ErrNotFound path)
      | Some data \<Rightarrow> (case sy_read Y path of Some e \<Rightarrow> Inl e | None \<Rightarrow> Inr data))"

definition os_WriteFile :: "'c sys \<Rightarrow> string \<Rightarrow> string \<Rightarrow> disk \<Rightarrow> error option \<times> disk" where
  "os_WriteFile Y path data d =
     (case sy_write Y path of
        None \<Rightarrow> (None, AList.update path data d)
      | Some (e, None) \<Rightarrow> (Some e, d)
      | Some (e, Some rest) \<Rightarrow> (Some e, AList.update path rest d))"

definition os_Stat :: "string \<Rightarrow> disk \<Rightarrow> bool" where
  "os_Stat path d \<longleftrightarrow> map_of d path \<noteq> None"

text \<open>\<^verbatim>\<open>pem.Encode\<close> of a block without headers: base64 in lines of 64 characters.\<close>

function pem_lines :: "string \<Rightarrow> string" where
  "pem_lines s = (if s = [] then [] else take 64 s @ [newline] @ pem_lines (drop 64 s))"
  by auto
termination by (relation "measure length") auto

declare pem_lines.simps [simp del]

definition pem_Encode :: "string \<Rightarrow> string \<Rightarrow> string" where
  "pem_Encode ty bytes =
     ''-----BEGIN '' @ ty @ ''-----'' @ [newline] @ pem_lines (b64_encode bytes) @ ''-----END '' @ ty @ ''-----'' @ [newline]"

section \<open>The state\<close>

text \<open>A reference to an object: group, version, kind, namespace and name. The loopback configuration
  and the cluster entry made from it carry the TLS server name besides what a client uses.\<close>

record object_ref =
  or_group :: string
  or_version :: string
  or_kind :: string
  or_namespace :: string
  or_name :: string

record loopback_config = rest_config +
  rc_ServerName :: string

record tls_cluster = cluster +
  ku_TLSServerName :: string

record loopback_kubeconfig =
  lk_Clusters :: "(string \<times> tls_cluster) list"
  lk_AuthInfos :: "(string \<times> auth_info) list"
  lk_Contexts :: "(string \<times> kube_context) list"
  lk_CurrentContext :: string

record ('b, 'c) nano =
  nk_options :: options
  nk_disk :: disk
  nk_cancelErrs :: "error_impl list"
  nk_cause :: "error_impl once"
  nk_pidfileWritten :: bool
  nk_machineID :: string
  nk_machineIDOnce :: bool
  nk_certKeyOnce :: bool
  nk_rootCaOnce :: bool
  nk_cert :: "'c option"
  nk_certOnce :: bool
  nk_informers :: "string once"
  nk_loopback :: "loopback_config once"
  nk_nodeRef :: "object_ref once"
  nk_backends :: "(string \<times> 'b) list"
  nk_backendsOnce :: bool
  nk_kubeconfigs :: "(string \<times> loopback_kubeconfig) list"

definition NewNanokube :: "options \<Rightarrow> disk \<Rightarrow> ('b, 'c) nano" where
  "NewNanokube o1 d =
     \<lparr>nk_options = o1, nk_disk = d, nk_cancelErrs = [], nk_cause = None, nk_pidfileWritten = False,
      nk_machineID = [], nk_machineIDOnce = False, nk_certKeyOnce = False, nk_rootCaOnce = False,
      nk_cert = None, nk_certOnce = False, nk_informers = None, nk_loopback = None, nk_nodeRef = None,
      nk_backends = [], nk_backendsOnce = False, nk_kubeconfigs = []\<rparr>"

section \<open>Cancellation\<close>

text \<open>\<^verbatim>\<open>Options().FilePathAt\<close> as a call.\<close>

definition file_path :: "string \<Rightarrow> (('b, 'c) nano, string) go" where
  "file_path name s = (case FilePathAt name (nk_options s) of (p, o1) \<Rightarrow> (Ret p, s\<lparr>nk_options := o1\<rparr>))"

definition PidFile :: "options \<Rightarrow> string" where
  "PidFile o1 = opt_name o1 @ ''.pid''"

text \<open>The reason is a \<^verbatim>\<open>v1.Error\<close>, so \<^verbatim>\<open>errors.As\<close> always finds one and the goroutine ends. A context is
  cancelled by its first cancellation only. A pid file that cannot be removed is only logged.\<close>

definition nano_cancelled :: "'c sys \<Rightarrow> error_impl \<Rightarrow> ('b, 'c) nano \<Rightarrow> ('b, 'c) nano" where
  "nano_cancelled Y reason s =
     (let s1 = s\<lparr>nk_cancelErrs := nk_cancelErrs s @ [reason]\<rparr>;
          s2 = (if nk_pidfileWritten s1
                then (case file_path (PidFile (nk_options s1)) s1 of
                        (Ret p, t) \<Rightarrow> if sy_remove Y p = None then t\<lparr>nk_disk := AList.delete p (nk_disk t)\<rparr> else t
                      | (_, t) \<Rightarrow> t)
                else s1)
      in s2\<lparr>nk_cause := once_provide reason (nk_cause s2)\<rparr>)"

definition nano_Cancel :: "'c sys \<Rightarrow> error_impl \<Rightarrow> (('b, 'c) nano, 'a) go" where
  "nano_Cancel Y reason s = (Goexit, nano_cancelled Y reason s)"

definition CancelErr :: "'c sys \<Rightarrow> error \<Rightarrow> (('b, 'c) nano, 'a) go" where
  "CancelErr Y e = nano_Cancel Y (NewError (Some e))"

definition Errors :: "('b, 'c) nano \<Rightarrow> error_impl list option" where
  "Errors s = (if nk_cancelErrs s = [] then None else Some (nk_cancelErrs s))"

text \<open>\<^verbatim>\<open>sync.Once\<close>: the body runs in the first call, which counts however it ends.\<close>

definition once_do :: "('s \<Rightarrow> bool) \<Rightarrow> ('s \<Rightarrow> 's) \<Rightarrow> ('s, unit) go \<Rightarrow> ('s, unit) go" where
  "once_do flag mark body s = (if flag s then (Ret (), s) else (case body s of (r, t) \<Rightarrow> (r, mark t)))"

definition write_file :: "'c sys \<Rightarrow> string \<Rightarrow> string \<Rightarrow> string \<Rightarrow> (('b, 'c) nano, unit) go" where
  "write_file Y what path data s =
     (case os_WriteFile Y path data (nk_disk s) of
        (None, d) \<Rightarrow> (Ret (), s\<lparr>nk_disk := d\<rparr>)
      | (Some e, d) \<Rightarrow> CancelErr Y (Wrapf what e) (s\<lparr>nk_disk := d\<rparr>))"

section \<open>The machine's identity\<close>

definition machine_id_body :: "'c sys \<Rightarrow> string \<Rightarrow> (('b, 'c) nano, unit) go" where
  "machine_id_body Y uuid =
     go_bind (file_path ''machine-id'') (\<lambda>path s.
       let found = (case os_ReadFile Y path (nk_disk s) of Inr data \<Rightarrow> strings_TrimSpace data | Inl _ \<Rightarrow> [])
       in if found \<noteq> [] then (Ret (), s\<lparr>nk_machineID := found\<rparr>)
          else go_bind (write_file Y ''persist machine id'' path (uuid @ [newline])) (\<lambda>_ s.
                 (Ret (), s\<lparr>nk_machineID := uuid\<rparr>)) s)"

definition MachineID :: "'c sys \<Rightarrow> string \<Rightarrow> (('b, 'c) nano, string) go" where
  "MachineID Y uuid =
     go_bind (once_do nk_machineIDOnce (nk_machineIDOnce_update (\<lambda>_. True)) (machine_id_body Y uuid)) (\<lambda>_ s. (Ret (nk_machineID s), s))"

section \<open>Certificate, key and CA bundle\<close>

definition CertFile :: string where "CertFile = filepath_Join [''certs'', ''apiserver.crt'']"
definition KeyFile :: string where "KeyFile = filepath_Join [''certs'', ''apiserver.key'']"
definition CAFile :: string where "CAFile = filepath_Join [''certs'', ''ca.crt'']"
definition KubeconfigFile :: string where "KubeconfigFile = filepath_Join [''.kube'', ''config'']"

definition cert_key_body :: "'c sys \<Rightarrow> string \<Rightarrow> string \<Rightarrow> (('b, 'c) nano, unit) go" where
  "cert_key_body Y certPath keyPath s =
     (if os_Stat certPath (nk_disk s) \<and> os_Stat keyPath (nk_disk s) then (Ret (), s)
      else (case sy_gen Y ''localhost'' [sy_LocalHost Y, ''apiserver-loopback-client''] of
              Inl e \<Rightarrow> CancelErr Y (Wrapf ''generate self-signed cert'' e) s
            | Inr (certPEM, keyPEM) \<Rightarrow>
                go_bind (write_file Y (''write cert '' @ certPath) certPath certPEM) (\<lambda>_.
                  write_file Y (''write key '' @ keyPath) keyPath keyPEM) s))"

definition ensureCertKey :: "'c sys \<Rightarrow> (('b, 'c) nano, string \<times> string) go" where
  "ensureCertKey Y =
     go_bind (file_path CertFile) (\<lambda>certPath.
     go_bind (file_path KeyFile) (\<lambda>keyPath.
     go_bind (once_do nk_certKeyOnce (nk_certKeyOnce_update (\<lambda>_. True)) (cert_key_body Y certPath keyPath)) (\<lambda>_.
       go_ret (certPath, keyPath))))"

definition CertFilePath :: "'c sys \<Rightarrow> (('b, 'c) nano, string) go" where
  "CertFilePath Y = go_bind (ensureCertKey Y) (\<lambda>(certPath, _). go_ret certPath)"

definition KeyFilePath :: "'c sys \<Rightarrow> (('b, 'c) nano, string) go" where
  "KeyFilePath Y = go_bind (ensureCertKey Y) (\<lambda>(_, keyPath). go_ret keyPath)"

definition Cert :: "'c sys \<Rightarrow> (('b, 'c) nano, 'c option) go" where
  "Cert Y =
     go_bind (once_do nk_certOnce (nk_certOnce_update (\<lambda>_. True))
       (go_bind (ensureCertKey Y) (\<lambda>(certPath, keyPath) s.
          case sy_load Y certPath keyPath of
            Inl e \<Rightarrow> CancelErr Y (Wrapf ''load cert/key pair'' e) s
          | Inr c \<Rightarrow> (Ret (), s\<lparr>nk_cert := Some c\<rparr>)))) (\<lambda>_ s. (Ret (nk_cert s), s))"

definition root_ca_body :: "'c sys \<Rightarrow> string \<Rightarrow> (('b, 'c) nano, unit) go" where
  "root_ca_body Y path =
     go_bind (ensureCertKey Y) (\<lambda>(certPath, _) s.
       case os_ReadFile Y certPath (nk_disk s) of
         Inl e \<Rightarrow> CancelErr Y (Wrapf (''read apiserver cert '' @ certPath) e) s
       | Inr certPEM \<Rightarrow>
           write_file Y (''write CA bundle '' @ path) path
             (certPEM @ concat (map (pem_Encode ''CERTIFICATE'') (sy_CACerts Y))) s)"

definition RootCaFilePath :: "'c sys \<Rightarrow> (('b, 'c) nano, string) go" where
  "RootCaFilePath Y =
     go_bind (file_path CAFile) (\<lambda>path.
     go_bind (once_do nk_rootCaOnce (nk_rootCaOnce_update (\<lambda>_. True)) (root_ca_body Y path)) (\<lambda>_. go_ret path))"

section \<open>Values handed over once\<close>

definition WithLoopback :: "loopback_config \<Rightarrow> ('b, 'c) nano \<Rightarrow> ('b, 'c) nano" where
  "WithLoopback c s = s\<lparr>nk_loopback := once_provide c (nk_loopback s)\<rparr>"

definition provide_informers :: "string \<Rightarrow> ('b, 'c) nano \<Rightarrow> ('b, 'c) nano" where
  "provide_informers f s = s\<lparr>nk_informers := once_provide f (nk_informers s)\<rparr>"

definition SetSharedInformerFactory :: "string \<Rightarrow> (('b, 'c) nano, string option) go" where
  "SetSharedInformerFactory f s = (let t = provide_informers f s in (Ret (nk_informers t), t))"

interpretation nano_loopback: provided_once WithLoopback nk_loopback
  by unfold_locales (simp add: WithLoopback_def)

interpretation nano_informers: provided_once provide_informers nk_informers
  by unfold_locales (simp add: provide_informers_def)

text \<open>Waiting for such a value: until it is provided or the context ends, whichever comes first. A
  waiter that is released by the context goes on with a nil value.\<close>

definition await_cell :: "(('b, 'c) nano \<Rightarrow> 'x once) \<Rightarrow> (('b, 'c) nano, 'x option) go" where
  "await_cell cell s = (if cell s = None \<and> nk_cause s = None then (Blocked, s) else (Ret (cell s), s))"

definition SharedInformerFactory :: "(('b, 'c) nano, string option) go" where
  "SharedInformerFactory = await_cell nk_informers"

definition NodeRef :: "(('b, 'c) nano, object_ref option) go" where
  "NodeRef = await_cell nk_nodeRef"

definition loopback_kubeconfig :: "loopback_config \<Rightarrow> loopback_kubeconfig" where
  "loopback_kubeconfig c =
     \<lparr>lk_Clusters = [(rc_Host c, \<lparr>ku_Server = rc_Host c, ku_CAData = rc_CAData c, ku_Insecure = rc_Insecure c, ku_TLSServerName = rc_ServerName c\<rparr>)],
      lk_AuthInfos = [(rc_Host c, \<lparr>ku_CertData = rc_CertData c, ku_KeyData = rc_KeyData c, ku_Token = rc_BearerToken c\<rparr>)],
      lk_Contexts = [(rc_Host c, \<lparr>ku_Cluster = rc_Host c, ku_AuthInfo = rc_Host c\<rparr>)],
      lk_CurrentContext = rc_Host c\<rparr>"

definition KubeconfigPath :: "'c sys \<Rightarrow> (('b, 'c) nano, string) go" where
  "KubeconfigPath Y =
     go_bind (await_cell nk_loopback) (\<lambda>loopback.
       case loopback of
         None \<Rightarrow> nil_dereference
       | Some c \<Rightarrow>
           go_bind (file_path KubeconfigFile) (\<lambda>path s.
             case sy_kubeconfig Y path of
               Some e \<Rightarrow> CancelErr Y (Wrapf (''write kubeconfig '' @ path) e) s
             | None \<Rightarrow> (Ret path, s\<lparr>nk_kubeconfigs := AList.update path (loopback_kubeconfig c) (nk_kubeconfigs s)\<rparr>)))"

section \<open>Events\<close>

text \<open>An event on an object; \<open>ev_isRef\<close> says that the object is an \<^verbatim>\<open>ObjectReference\<close>. Logging and recording the
  event leave this state alone.\<close>

record event =
  ev_object :: object_ref
  ev_isRef :: bool
  ev_type :: string
  ev_reason :: string

definition Eventf :: "event \<Rightarrow> ('b, 'c) nano \<Rightarrow> ('b, 'c) nano" where
  "Eventf e s =
     (if or_group (ev_object e) = [] \<and> or_version (ev_object e) = ''v1'' \<and> or_kind (ev_object e) = ''Node'' \<and>
         ev_type e = ''Normal'' \<and> ev_reason e = ''NodeReady''
      then if ev_isRef e then s\<lparr>nk_nodeRef := once_provide (ev_object e) (nk_nodeRef s)\<rparr> else s
      else s)"

section \<open>Backends\<close>

text \<open>A detector is asked with what is on the machine: whether a path exists and what connecting to a
  socket and pinging it gives.\<close>

record 'b machine =
  ma_home :: string
  ma_exists :: "string \<Rightarrow> bool"
  ma_connect :: "string \<Rightarrow> error + unit"
  ma_ping :: "string \<Rightarrow> error + unit"
  ma_driver :: "string \<Rightarrow> 'b"
  ma_podman :: 'b

definition docker_sockets :: "string \<Rightarrow> string list" where
  "docker_sockets home =
     [''//./pipe/docker_engine'',
      filepath_Join [''/'', ''var'', ''run'', ''docker.sock''],
      filepath_Join [''/'', ''run'', ''docker.sock''],
      filepath_Join [home, ''.docker'', ''run'', ''docker.sock''],
      filepath_Join [home, ''.colima'', ''default'', ''docker.sock''],
      filepath_Join [home, ''.lima'', ''docker-actions-toolkit'', ''docker.sock''],
      filepath_Join [home, ''.rd'', ''docker.sock'']]"

definition docker_NewBackend :: "'b machine \<Rightarrow> string \<Rightarrow> error + string \<times> 'b" where
  "docker_NewBackend M socket =
     (case ma_connect M socket of
        Inl e \<Rightarrow> Inl e
      | Inr _ \<Rightarrow> (case ma_ping M socket of Inl e \<Rightarrow> Inl e | Inr _ \<Rightarrow> Inr (''docker'', ma_driver M socket)))"

fun detect_loop :: "(string \<Rightarrow> bool) \<Rightarrow> (string \<Rightarrow> error + string \<times> 'b) \<Rightarrow> string list \<Rightarrow> (string \<times> 'b) option" where
  "detect_loop exists new [] = None"
| "detect_loop exists new (socket # sockets) =
     (if \<not> exists socket then detect_loop exists new sockets
      else (case new socket of Inl _ \<Rightarrow> detect_loop exists new sockets | Inr b \<Rightarrow> Some b))"

definition docker_Detect :: "'b machine \<Rightarrow> (string \<times> 'b) option" where
  "docker_Detect M = detect_loop (ma_exists M) (docker_NewBackend M) (docker_sockets (ma_home M))"

text \<open>The stub of Podman looks at an empty list of sockets, the stub of AWS Lambda at nothing.\<close>

definition podman_NewBackend :: "'b machine \<Rightarrow> error + string \<times> 'b" where
  "podman_NewBackend M = Inr (''podman'', ma_podman M)"

definition podman_Detect :: "'b machine \<Rightarrow> (string \<times> 'b) option" where
  "podman_Detect M = detect_loop (ma_exists M) (\<lambda>_. podman_NewBackend M) []"

definition awslambda_Detect :: "'b machine \<Rightarrow> (string \<times> 'b) option" where
  "awslambda_Detect M = None"

definition main_Backends :: "('b machine \<Rightarrow> (string \<times> 'b) option) list" where
  "main_Backends = [docker_Detect, podman_Detect, awslambda_Detect]"

definition WithBackend :: "string \<Rightarrow> 'b \<Rightarrow> ('b, 'c) nano \<Rightarrow> ('b, 'c) nano" where
  "WithBackend name b s = s\<lparr>nk_backends := AList.update name b (nk_backends s)\<rparr>"

definition nano_Backend :: "string \<Rightarrow> ('b, 'c) nano \<Rightarrow> 'b option" where
  "nano_Backend name s = map_of (nk_backends s) name"

definition detect_all :: "'b machine \<Rightarrow> ('b machine \<Rightarrow> (string \<times> 'b) option) list \<Rightarrow> ('b, 'c) nano \<Rightarrow> ('b, 'c) nano" where
  "detect_all M ds s = fold (\<lambda>d s. case d M of None \<Rightarrow> s | Some (name, b) \<Rightarrow> WithBackend name b s) ds s"

definition Backends :: "'b machine \<Rightarrow> ('b machine \<Rightarrow> (string \<times> 'b) option) list \<Rightarrow> (('b, 'c) nano, (string \<times> 'b) list) go" where
  "Backends M ds =
     go_bind (once_do nk_backendsOnce (nk_backendsOnce_update (\<lambda>_. True)) (\<lambda>s. (Ret (), detect_all M ds s)))
       (\<lambda>_ s. (Ret (nk_backends s), s))"

text \<open>The first backend the map is ranged over in: \<open>pick\<close> is the order Go visits the map in.\<close>

definition DefaultBackend :: "'c sys \<Rightarrow> 'b machine \<Rightarrow> ('b machine \<Rightarrow> (string \<times> 'b) option) list \<Rightarrow>
    ((string \<times> 'b) list \<Rightarrow> (string \<times> 'b) list) \<Rightarrow> (('b, 'c) nano, 'b) go" where
  "DefaultBackend Y M ds pick =
     go_bind (Backends M ds) (\<lambda>bs.
       case pick bs of
         (_, b) # _ \<Rightarrow> go_ret b
       | [] \<Rightarrow> CancelErr Y (Errorf ''no backends detected''))"

section \<open>The files have different paths\<close>

lemma clean_elems_snoc:
  "f \<noteq> [] \<Longrightarrow> f \<noteq> ''.'' \<Longrightarrow> f \<noteq> ''..'' \<Longrightarrow> clean_elems r out (es @ [f]) = clean_elems r out es @ [f]"
  by (induction r out es rule: clean_elems.induct) (auto split: list.splits)

lemma Split_snoc: "c \<notin> set f \<Longrightarrow> strings_Split c (x @ c # f) = strings_Split c x @ [f]"
proof (induction x)
  case Nil
  then show ?case by (simp add: Split_Nil_sep)
next
  case (Cons a x)
  obtain y ys where "strings_Split c x = y # ys" using Split_not_Nil by (metis list.exhaust)
  with Cons show ?case by simp
qed

lemma Join_snoc: "\<exists>z. strings_Join s (xs @ [f]) = z @ f"
proof (induction s xs rule: strings_Join.induct)
  case (3 s x y ys)
  then show ?case by (metis append.assoc append_Cons strings_Join.simps(3))
qed auto

lemma Clean_ends:
  assumes "f \<noteq> []" "f \<noteq> ''.''" "f \<noteq> ''..''" "slash \<notin> set f"
  shows "\<exists>z. filepath_Clean (x @ slash # f) = z @ f"
proof -
  obtain z where "strings_Join [slash] (clean_elems (path_rooted (x @ slash # f)) [] (strings_Split slash x) @ [f]) = z @ f"
    using Join_snoc by blast
  then show ?thesis
    using assms by (auto simp: filepath_Clean_def Split_snoc clean_elems_snoc Let_def)
qed

lemma Join_ends:
  assumes "f \<noteq> []" "f \<noteq> ''.''" "f \<noteq> ''..''" "slash \<notin> set f"
  shows "\<exists>z. filepath_Join [d, x @ slash # f] = z @ f"
  using Clean_ends [OF assms, of x] Clean_ends [OF assms, of "d @ slash # x"] by (simp add: filepath_Join_def)

definition path_at :: "options \<Rightarrow> string \<Rightarrow> string" where
  "path_at o1 f = filepath_Join [opt_dataDir o1, f]"

lemma cert_paths:
  "path_at o1 CertFile \<noteq> path_at o1 KeyFile" "path_at o1 CertFile \<noteq> path_at o1 CAFile" "path_at o1 KeyFile \<noteq> path_at o1 CAFile"
proof -
  have f: "CertFile = ''certs'' @ slash # ''apiserver.crt''" "KeyFile = ''certs'' @ slash # ''apiserver.key''" "CAFile = ''certs'' @ slash # ''ca.crt''"
    by code_simp+
  obtain a b c where "path_at o1 CertFile = a @ ''apiserver.crt''" "path_at o1 KeyFile = b @ ''apiserver.key''" "path_at o1 CAFile = c @ ''ca.crt''"
    using Join_ends [of "''apiserver.crt''" "opt_dataDir o1" "''certs''"] Join_ends [of "''apiserver.key''" "opt_dataDir o1" "''certs''"]
      Join_ends [of "''ca.crt''" "opt_dataDir o1" "''certs''"]
    unfolding path_at_def f by auto
  then have r: "rev (path_at o1 CertFile) = rev ''apiserver.crt'' @ rev a" "rev (path_at o1 KeyFile) = rev ''apiserver.key'' @ rev b"
    "rev (path_at o1 CAFile) = rev ''ca.crt'' @ rev c"
    by simp_all
  show "path_at o1 CertFile \<noteq> path_at o1 KeyFile" using r(1,2) by (auto dest!: arg_cong [of _ _ rev])
  show "path_at o1 CertFile \<noteq> path_at o1 CAFile" using r(1,3) by (auto dest!: arg_cong [of _ _ rev])
  show "path_at o1 KeyFile \<noteq> path_at o1 CAFile" using r(2,3) by (auto dest!: arg_cong [of _ _ rev])
qed

lemma file_path_run:
  "file_path f s = (Ret (path_at (nk_options s) f), s\<lparr>nk_options := snd (FilePathAt f (nk_options s))\<rparr>)"
  by (simp add: file_path_def FilePathAt_def path_at_def Let_def)

lemma path_at_FilePathAt [simp]: "path_at (snd (FilePathAt f o1)) = path_at o1"
  by (simp add: FilePathAt_def path_at_def Let_def fun_eq_iff)

section \<open>Cancellation\<close>

lemma nano_cancelled_fields [simp]:
  "nk_cancelErrs (nano_cancelled Y r s) = nk_cancelErrs s @ [r]" "nk_cause (nano_cancelled Y r s) = once_provide r (nk_cause s)"
  "nk_machineID (nano_cancelled Y r s) = nk_machineID s" "nk_machineIDOnce (nano_cancelled Y r s) = nk_machineIDOnce s"
  by (auto simp: nano_cancelled_def file_path_run Let_def)

interpretation nano_cause: provided_once "nano_cancelled Y" nk_cause for Y
  by unfold_locales simp

lemma cancel_errs_fold: "nk_cancelErrs (fold (nano_cancelled Y) rs s) = nk_cancelErrs s @ rs"
  by (induction rs arbitrary: s) simp_all

text \<open>
  No cancellation is lost and none returns. Every call of \<open>Cancel\<close> ends its goroutine; after any
  sequence of them \<open>Errors\<close> lists all reasons in the order they came, and the cause of the context is
  the first of them. Before the first one there are no errors.
\<close>

theorem cancel_records_all:
  "let n = NewNanokube o1 d :: ('b, 'c) nano; t = fold (nano_cancelled Y) (r # rs) n
   in Errors n = None \<and> Errors t = Some (r # rs) \<and> nk_cause t = Some r \<and> nano_Cancel Y q t = (Goexit, nano_cancelled Y q t)"
proof -
  let ?n = "NewNanokube o1 d :: ('b, 'c) nano"
  have n: "nk_cancelErrs ?n = []" "nk_cause ?n = None" by (simp_all add: NewNanokube_def)
  show ?thesis
    unfolding Errors_def Let_def
    using nano_cause.first_provider_wins [of ?n Y r rs] cancel_errs_fold [of Y "r # rs" ?n]
    by (simp add: n nano_Cancel_def)
qed

section \<open>The identity is stable\<close>

lemma TrimSpace_line: "u \<noteq> [] \<Longrightarrow> \<forall>c \<in> set u. \<not> is_space c \<Longrightarrow> strings_TrimSpace (u @ [newline]) = u"
proof -
  assume u: "u \<noteq> []" "\<forall>c \<in> set u. \<not> is_space c"
  have "dropWhile is_space (u @ [newline]) = u @ [newline]" using u by (cases u) auto
  moreover have "dropWhile is_space (rev u) = rev u" using u by (cases u rule: rev_cases) auto
  moreover have "is_space newline" by code_simp
  ultimately show ?thesis by (simp add: strings_TrimSpace_def strings_TrimFunc_def)
qed

lemma MachineID_again: "nk_machineIDOnce s \<Longrightarrow> MachineID Y u s = (Ret (nk_machineID s), s)"
  by (simp add: MachineID_def once_do_def go_bind_def)

lemma MachineID_run:
  assumes "\<not> nk_machineIDOnce s"
  shows "machine_id_body Y u s = (Ret (), t) \<Longrightarrow> MachineID Y u s = (Ret (nk_machineID t), t\<lparr>nk_machineIDOnce := True\<rparr>)"
    "machine_id_body Y u s = (Goexit, t) \<Longrightarrow> MachineID Y u s = (Goexit, t\<lparr>nk_machineIDOnce := True\<rparr>)"
  using assms by (simp_all add: MachineID_def once_do_def go_bind_def)

text \<open>The identity on the disk, as the program reads it.\<close>

definition stored_id :: "options \<Rightarrow> disk \<Rightarrow> string" where
  "stored_id o1 d = (case map_of d (path_at o1 ''machine-id'') of None \<Rightarrow> [] | Some data \<Rightarrow> strings_TrimSpace data)"

lemma write_file_ok: "sy_write Y p = None \<Longrightarrow> write_file Y w p x s = (Ret (), s\<lparr>nk_disk := AList.update p x (nk_disk s)\<rparr>)"
  by (simp add: write_file_def os_WriteFile_def)

lemma write_file_fails:
  assumes "sy_write Y p = Some (e, r)"
  shows "\<exists>d. write_file Y w p x s = (Goexit, nano_cancelled Y (NewError (Some (Wrapf w e))) (s\<lparr>nk_disk := d\<rparr>))"
  using assms
  by (cases r) (auto simp: write_file_def os_WriteFile_def CancelErr_def nano_Cancel_def intro: exI [of _ "nk_disk s"])

lemma machine_id_body_stored:
  assumes "p = path_at (nk_options s) ''machine-id''" "sy_read Y p = None" "stored_id (nk_options s) (nk_disk s) \<noteq> []"
  shows "\<exists>o2. machine_id_body Y u s = (Ret (), s\<lparr>nk_options := o2, nk_machineID := stored_id (nk_options s) (nk_disk s)\<rparr>)"
  using assms
  by (auto simp: machine_id_body_def go_bind_def file_path_run os_ReadFile_def stored_id_def Let_def split: option.splits)

lemma machine_id_body_fresh:
  assumes "p = path_at (nk_options s) ''machine-id''" "stored_id (nk_options s) (nk_disk s) = []" "sy_write Y p = None"
  shows "\<exists>o2. machine_id_body Y u s = (Ret (), s\<lparr>nk_options := o2, nk_disk := AList.update p (u @ [newline]) (nk_disk s), nk_machineID := u\<rparr>)"
  using assms
  by (auto simp: machine_id_body_def go_bind_def file_path_run os_ReadFile_def stored_id_def Let_def write_file_ok
      split: option.splits sum.splits)

lemma machine_id_body_fails:
  assumes "p = path_at (nk_options s) ''machine-id''" "stored_id (nk_options s) (nk_disk s) = []" "sy_write Y p = Some (e, r)"
  shows "\<exists>o2 d. machine_id_body Y u s =
    (Goexit, nano_cancelled Y (NewError (Some (Wrapf ''persist machine id'' e))) (s\<lparr>nk_options := o2, nk_disk := d\<rparr>))"
proof -
  let ?s = "s\<lparr>nk_options := snd (FilePathAt ''machine-id'' (nk_options s))\<rparr>"
  obtain d where "write_file Y ''persist machine id'' p (u @ [newline]) ?s =
      (Goexit, nano_cancelled Y (NewError (Some (Wrapf ''persist machine id'' e))) (?s\<lparr>nk_disk := d\<rparr>))"
    using write_file_fails [OF assms(3)] by blast
  then show ?thesis
    using assms(1,2)
    by (auto simp: machine_id_body_def go_bind_def file_path_run os_ReadFile_def stored_id_def Let_def split: option.splits sum.splits)
qed

lemma MachineID_first:
  fixes n :: "('b, 'c) nano"
  assumes n_def: "n = NewNanokube o1 d" and "u \<noteq> []" "\<forall>c \<in> set u. \<not> is_space c" "p = path_at o1 ''machine-id''" "sy_read Y p = None" "sy_write Y p = None"
  shows "\<exists>i s. MachineID Y u n = (Ret i, s) \<and> i = (if stored_id o1 d = [] then u else stored_id o1 d) \<and>
    MachineID Y' u' s = (Ret i, s) \<and> stored_id o1 (nk_disk s) = i"
proof -
  have n: "nk_options n = o1" "nk_disk n = d" "\<not> nk_machineIDOnce n" by (simp_all add: n_def NewNanokube_def)
  show ?thesis
  proof (cases "stored_id o1 d = []")
    case True
    obtain o2 where b: "machine_id_body Y u n = (Ret (), n\<lparr>nk_options := o2, nk_disk := AList.update p (u @ [newline]) d, nk_machineID := u\<rparr>)"
      using machine_id_body_fresh [of p n Y u] assms(4,6) True by (auto simp: n)
    with True show ?thesis
      using MachineID_run(1) [OF n(3) b] by (simp add: MachineID_again stored_id_def assms(4) TrimSpace_line [OF assms(2,3)])
  next
    case False
    obtain o2 where b: "machine_id_body Y u n = (Ret (), n\<lparr>nk_options := o2, nk_machineID := stored_id o1 d\<rparr>)"
      using machine_id_body_stored [of p n Y u] assms(4,5) False by (auto simp: n)
    with False show ?thesis using MachineID_run(1) [OF n(3) b] by (simp add: MachineID_again n)
  qed
qed

lemma MachineID_restart:
  fixes n :: "('b, 'c) nano"
  assumes n_def: "n = NewNanokube o2 d2" and "path_at o2 ''machine-id'' = p" "sy_read Y p = None" "stored_id o2 d2 = i" "i \<noteq> []"
  shows "\<exists>s. MachineID Y u n = (Ret i, s)"
  using machine_id_body_stored [of p n Y u] assms(2-5)
  by (auto simp: MachineID_run(1) n_def NewNanokube_def)

lemma MachineID_fails:
  fixes n :: "('b, 'c) nano"
  assumes n_def: "n = NewNanokube o1 d" and "stored_id o1 d = []" "p = path_at o1 ''machine-id''" "sy_write Y p = Some (e, r)"
  shows "\<exists>s. MachineID Y u n = (Goexit, s) \<and> nk_cancelErrs s = [NewError (Some (Wrapf ''persist machine id'' e))] \<and>
    MachineID Y' u' s = (Ret [], s)"
proof -
  have n: "nk_options n = o1" "nk_disk n = d" "\<not> nk_machineIDOnce n" "nk_cancelErrs n = []" "nk_machineID n = []"
    by (simp_all add: n_def NewNanokube_def)
  obtain o2 d2 where "machine_id_body Y u n =
      (Goexit, nano_cancelled Y (NewError (Some (Wrapf ''persist machine id'' e))) (n\<lparr>nk_options := o2, nk_disk := d2\<rparr>))"
    using machine_id_body_fails [of p n Y e r u] assms(2-4) by (auto simp: n)
  from MachineID_run(2) [OF n(3) this] show ?thesis by (simp add: MachineID_again n)
qed

text \<open>
  C30. The machine's identity is stable. When it could be determined, it is not empty and is the one on
  the disk: the stored one if there was one, else the new one. Every later call in the process
  returns it without looking at the disk, and a process started later over the same data directory
  with that file returns it too, whatever fresh identifier it would have taken. When a fresh
  identity could not be stored, the call ends its goroutine with the error recorded, and every
  later call returns the empty identity as if nothing had happened.
\<close>

theorem machine_id_stable:
  assumes "u \<noteq> []" "\<forall>c \<in> set u. \<not> is_space c" "p = path_at o1 ''machine-id''" "sy_read Y p = None"
  shows "case sy_write Y p of
    None \<Rightarrow> (\<exists>i s. MachineID Y u (NewNanokube o1 d :: ('b, 'c) nano) = (Ret i, s) \<and> i \<noteq> [] \<and>
        i = (if stored_id o1 d = [] then u else stored_id o1 d) \<and> MachineID Y' u' s = (Ret i, s) \<and>
        (\<forall>o2 d2. path_at o2 ''machine-id'' = p \<and> map_of d2 p = map_of (nk_disk s) p \<longrightarrow>
           fst (MachineID Y u' (NewNanokube o2 d2 :: ('b, 'c) nano)) = Ret i))
  | Some (e, r) \<Rightarrow> stored_id o1 d = [] \<longrightarrow>
      (\<exists>s. MachineID Y u (NewNanokube o1 d :: ('b, 'c) nano) = (Goexit, s) \<and>
        nk_cancelErrs s = [NewError (Some (Wrapf ''persist machine id'' e))] \<and> MachineID Y' u' s = (Ret [], s))"
proof (cases "sy_write Y p")
  case None
  obtain i and s :: "('b, 'c) nano" where i: "MachineID Y u (NewNanokube o1 d) = (Ret i, s)" "i = (if stored_id o1 d = [] then u else stored_id o1 d)"
    "MachineID Y' u' s = (Ret i, s)" "stored_id o1 (nk_disk s) = i"
    using MachineID_first [OF refl assms None, of d Y' u'] by blast
  have ne: "i \<noteq> []" using i(2) assms(1) by simp
  have "fst (MachineID Y u' (NewNanokube o2 d2 :: ('b, 'c) nano)) = Ret i"
    if "path_at o2 ''machine-id'' = p" "map_of d2 p = map_of (nk_disk s) p" for o2 d2
  proof -
    have "stored_id o2 d2 = i" using that i(4) assms(3) by (simp add: stored_id_def)
    from MachineID_restart [OF refl that(1) assms(4) this ne, of u', where 'b = 'b] show ?thesis by auto
  qed
  with i ne None show ?thesis by auto
next
  case (Some er)
  then show ?thesis using MachineID_fails [OF refl _ assms(3), of d Y "fst er" "snd er"] by (cases er) auto
qed

text \<open>An environment in which nothing fails, and one in which no file can be written.\<close>

definition good_sys :: "unit sys" where
  "good_sys = \<lparr>sy_read = \<lambda>_. None, sy_write = \<lambda>_. None, sy_remove = \<lambda>_. None, sy_gen = \<lambda>_ _. Inr (''CERT'', ''KEY''),
     sy_load = \<lambda>_ _. Inr (), sy_kubeconfig = \<lambda>_. None, sy_LocalHost = ''h'', sy_CACerts = [''ca'']\<rparr>"

theorem machine_id_stable_witness:
  "fst (MachineID good_sys ''id1'' (NewNanokube (NewOptions ''/home/u'') [] :: (unit, unit) nano)) = Ret ''id1'' \<and>
   fst (MachineID (good_sys\<lparr>sy_write := \<lambda>_. Some (Errorf ''full'', None)\<rparr>) ''id1'' (NewNanokube (NewOptions ''/home/u'') [] :: (unit, unit) nano)) = Goexit"
proof -
  let ?p = "path_at (NewOptions ''/home/u'') ''machine-id''"
  have u: "\<forall>c \<in> set ''id1''. \<not> is_space c" by code_simp
  have "stored_id (NewOptions ''/home/u'') [] = []" by (simp add: stored_id_def)
  then show ?thesis
    using machine_id_stable [OF _ u, of ?p "NewOptions ''/home/u''" good_sys "[]" good_sys "''id2''", where 'b = unit]
      machine_id_stable [OF _ u, of ?p "NewOptions ''/home/u''" "good_sys\<lparr>sy_write := \<lambda>_. Some (Errorf ''full'', None)\<rparr>" "[]" good_sys "''id2''", where 'b = unit]
    by (auto simp: good_sys_def)
qed

section \<open>The certificate files\<close>

lemma ensureCertKey_kept:
  assumes "os_Stat (path_at (nk_options s) CertFile) (nk_disk s)" "os_Stat (path_at (nk_options s) KeyFile) (nk_disk s)"
  shows "\<exists>o2. path_at o2 = path_at (nk_options s) \<and>
    ensureCertKey Y s = (Ret (path_at (nk_options s) CertFile, path_at (nk_options s) KeyFile), s\<lparr>nk_options := o2, nk_certKeyOnce := True\<rparr>)"
  using assms
  by (intro exI [of _ "snd (FilePathAt KeyFile (snd (FilePathAt CertFile (nk_options s))))"])
     (simp add: ensureCertKey_def go_bind_def file_path_run once_do_def cert_key_body_def)

lemma ensureCertKey_fresh:
  assumes "\<not> (os_Stat (path_at (nk_options s) CertFile) (nk_disk s) \<and> os_Stat (path_at (nk_options s) KeyFile) (nk_disk s))"
    "\<not> nk_certKeyOnce s" "sy_gen Y ''localhost'' [sy_LocalHost Y, ''apiserver-loopback-client''] = Inr (cert, key)" "sy_write Y = (\<lambda>_. None)"
  shows "\<exists>o2. path_at o2 = path_at (nk_options s) \<and>
    ensureCertKey Y s = (Ret (path_at (nk_options s) CertFile, path_at (nk_options s) KeyFile),
      s\<lparr>nk_options := o2, nk_certKeyOnce := True,
        nk_disk := AList.update (path_at (nk_options s) KeyFile) key (AList.update (path_at (nk_options s) CertFile) cert (nk_disk s))\<rparr>)"
  using assms
  by (intro exI [of _ "snd (FilePathAt KeyFile (snd (FilePathAt CertFile (nk_options s))))"])
     (auto simp: ensureCertKey_def go_bind_def file_path_run once_do_def cert_key_body_def write_file_ok)

lemma NewNanokube_fields [simp]:
  "nk_options (NewNanokube o1 d) = o1" "nk_disk (NewNanokube o1 d) = d" "\<not> nk_rootCaOnce (NewNanokube o1 d)"
  "\<not> nk_certKeyOnce (NewNanokube o1 d)"
  by (simp_all add: NewNanokube_def)

text \<open>The bundle: the certificate of the server, then the roots of the tunnel.\<close>

definition ca_bundle :: "'c sys \<Rightarrow> string \<Rightarrow> string" where
  "ca_bundle Y cert = cert @ concat (map (pem_Encode ''CERTIFICATE'') (sy_CACerts Y))"

lemma RootCa_after:
  assumes "ensureCertKey Y (s\<lparr>nk_options := snd (FilePathAt CAFile (nk_options s))\<rparr>) = (Ret (path_at (nk_options s) CertFile, k), t)"
    "\<not> nk_rootCaOnce s" "sy_read Y (path_at (nk_options s) CertFile) = None" "sy_write Y (path_at (nk_options s) CAFile) = None"
    "map_of (nk_disk t) (path_at (nk_options s) CertFile) = Some cert"
  shows "RootCaFilePath Y s = (Ret (path_at (nk_options s) CAFile),
    t\<lparr>nk_rootCaOnce := True, nk_disk := AList.update (path_at (nk_options s) CAFile) (ca_bundle Y cert) (nk_disk t)\<rparr>)"
  using assms
  by (simp add: RootCaFilePath_def go_bind_def file_path_run once_do_def root_ca_body_def os_ReadFile_def write_file_ok ca_bundle_def)

text \<open>
  C32. The certificate pair is made once and the CA bundle trusts it. When no pair is stored and the
  files can be written, asking for the CA bundle stores the generated certificate and key and a
  bundle that starts with that certificate and goes on with the roots of the tunnel. A process
  started later over that disk does not generate another pair: certificate and key stay byte for
  byte, and the bundle it writes starts with the same certificate.
\<close>

theorem cert_pair_survives_restart:
  assumes "c = path_at o1 CertFile" "k = path_at o1 KeyFile" "a = path_at o1 CAFile" "\<not> (os_Stat c d \<and> os_Stat k d)"
    "sy_gen Y ''localhost'' [sy_LocalHost Y, ''apiserver-loopback-client''] = Inr (cert, key)" "sy_write Y = (\<lambda>_. None)"
    "sy_read Y c = None" "sy_read Y' c = None" "sy_write Y' a = None"
  shows "\<exists>s. RootCaFilePath Y (NewNanokube o1 d :: ('b, 'c) nano) = (Ret a, s) \<and>
    map_of (nk_disk s) c = Some cert \<and> map_of (nk_disk s) k = Some key \<and> map_of (nk_disk s) a = Some (ca_bundle Y cert) \<and>
    (\<exists>t. RootCaFilePath Y' (NewNanokube o1 (nk_disk s) :: ('b, 'c) nano) = (Ret a, t) \<and>
      map_of (nk_disk t) c = Some cert \<and> map_of (nk_disk t) k = Some key \<and> map_of (nk_disk t) a = Some (ca_bundle Y' cert))"
proof -
  note paths = cert_paths [of o1]
  let ?n = "NewNanokube o1 d :: ('b, 'c) nano"
  let ?n' = "?n\<lparr>nk_options := snd (FilePathAt CAFile o1)\<rparr>"
  obtain o2 where e: "ensureCertKey Y ?n' = (Ret (c, k), ?n'\<lparr>nk_options := o2, nk_certKeyOnce := True, nk_disk := AList.update k key (AList.update c cert d)\<rparr>)"
    using ensureCertKey_fresh [of ?n' Y cert key] assms(1-6) by auto
  let ?d = "AList.update a (ca_bundle Y cert) (AList.update k key (AList.update c cert d))"
  obtain s where s: "RootCaFilePath Y ?n = (Ret a, s)" "nk_disk s = ?d"
    using RootCa_after [of Y ?n k _ cert] e assms paths by auto
  have d: "map_of ?d c = Some cert" "map_of ?d k = Some key" "map_of ?d a = Some (ca_bundle Y cert)"
    using assms(1-3) paths by (auto simp: update_conv')
  let ?m = "NewNanokube o1 ?d :: ('b, 'c) nano"
  let ?m' = "?m\<lparr>nk_options := snd (FilePathAt CAFile o1)\<rparr>"
  obtain o3 where e': "ensureCertKey Y' ?m' = (Ret (c, k), ?m'\<lparr>nk_options := o3, nk_certKeyOnce := True\<rparr>)"
    using ensureCertKey_kept [of ?m' Y'] assms(1,2) d by (auto simp: os_Stat_def)
  obtain t where t: "RootCaFilePath Y' ?m = (Ret a, t)" "nk_disk t = AList.update a (ca_bundle Y' cert) ?d"
    using RootCa_after [of Y' ?m k _ cert] e' assms d by auto
  show ?thesis
    using s t d assms(1-3) paths by (auto simp: update_conv')
qed

theorem cert_pair_survives_restart_witness:
  "\<exists>s. RootCaFilePath good_sys (NewNanokube (NewOptions ''/home/u'') [] :: (unit, unit) nano) = (Ret (path_at (NewOptions ''/home/u'') CAFile), s) \<and>
     map_of (nk_disk s) (path_at (NewOptions ''/home/u'') CertFile) = Some ''CERT''"
  using cert_pair_survives_restart [OF refl refl refl, of "NewOptions ''/home/u''" "[]" good_sys "''CERT''" "''KEY''" good_sys, where 'b = unit]
  by (auto simp: good_sys_def os_Stat_def)

section \<open>The first ready node\<close>

definition is_node_ready :: "event \<Rightarrow> bool" where
  "is_node_ready e \<longleftrightarrow> ev_isRef e \<and> or_group (ev_object e) = [] \<and> or_version (ev_object e) = ''v1'' \<and>
     or_kind (ev_object e) = ''Node'' \<and> ev_type e = ''Normal'' \<and> ev_reason e = ''NodeReady''"

lemma Eventf_nodeRef:
  "nk_nodeRef (Eventf e s) = (if is_node_ready e then once_provide (ev_object e) (nk_nodeRef s) else nk_nodeRef s)"
  "nk_cause (Eventf e s) = nk_cause s"
  by (auto simp: Eventf_def is_node_ready_def)

lemma Eventf_fold:
  "nk_nodeRef (fold Eventf es s) = (case nk_nodeRef s of Some r \<Rightarrow> Some r | None \<Rightarrow> map_option ev_object (find is_node_ready es))"
  "nk_cause (fold Eventf es s) = nk_cause s"
  by (induction es arbitrary: s) (auto simp: Eventf_nodeRef once_provide_def split: option.splits)

text \<open>
  The node the start hooks wait for is the first that is reported ready. After any events, asking
  for the node gives the object of the first one that reports a node of the core group as ready by
  reference, and nothing else does: without one, the caller waits for ever while the context is
  alive, and gets no node when it has ended.
\<close>

theorem node_ref_first_ready:
  assumes "nk_nodeRef s = None"
  shows "fst (NodeRef (fold Eventf es s)) =
    (case find is_node_ready es of
       Some e \<Rightarrow> Ret (Some (ev_object e))
     | None \<Rightarrow> if nk_cause s = None then Blocked else Ret None)"
  using assms by (auto simp: NodeRef_def await_cell_def Eventf_fold split: option.splits)

definition node_event :: "string \<Rightarrow> string \<Rightarrow> event" where
  "node_event name reason =
     \<lparr>ev_object = \<lparr>or_group = [], or_version = ''v1'', or_kind = ''Node'', or_namespace = [], or_name = name\<rparr>,
      ev_isRef = True, ev_type = ''Normal'', ev_reason = reason\<rparr>"

theorem node_ref_first_ready_witness:
  "fst (NodeRef (fold Eventf [node_event ''a'' ''NodeNotReady'', node_event ''b'' ''NodeReady'', node_event ''c'' ''NodeReady'']
       (NewNanokube (NewOptions ''/h'') [] :: (unit, unit) nano))) = Ret (Some (ev_object (node_event ''b'' ''NodeReady'')))"
  using node_ref_first_ready [of "NewNanokube (NewOptions ''/h'') [] :: (unit, unit) nano"
      "[node_event ''a'' ''NodeNotReady'', node_event ''b'' ''NodeReady'', node_event ''c'' ''NodeReady'']"]
  by (simp add: NewNanokube_def node_event_def is_node_ready_def)

section \<open>The default backend\<close>

definition usable :: "'b machine \<Rightarrow> string \<Rightarrow> bool" where
  "usable M socket \<longleftrightarrow> ma_exists M socket \<and> ma_connect M socket = Inr () \<and> ma_ping M socket = Inr ()"

lemma NewBackend_usable:
  "ma_exists M socket \<Longrightarrow> docker_NewBackend M socket = (if usable M socket then Inr (''docker'', ma_driver M socket) else docker_NewBackend M socket) \<and>
    (\<not> usable M socket \<longrightarrow> (\<exists>e. docker_NewBackend M socket = Inl e))"
  by (auto simp: docker_NewBackend_def usable_def split: sum.splits)

lemma detect_loop_find:
  "detect_loop (ma_exists M) (docker_NewBackend M) ss = map_option (\<lambda>socket. (''docker'', ma_driver M socket)) (find (usable M) ss)"
proof (induction ss)
  case (Cons x ss)
  then show ?case
    using NewBackend_usable [of M x] by (cases "ma_exists M x"; cases "usable M x") (auto simp: usable_def)
qed simp

text \<open>
  The default backend is Docker on the first usable socket. With the backends the program
  registers, it is the driver of the first socket of the list that exists and answers a ping,
  whatever order the map of backends is visited in, and \<open>Backend\<close> finds it by the name \<open>docker\<close> from
  then on; the answer stays when the machine changes later. When no socket is usable the caller's
  goroutine ends with the error recorded.
\<close>

theorem default_backend_first_socket:
  assumes "\<forall>bs. set (pick bs) = set bs" "nk_backends s = []" "\<not> nk_backendsOnce s"
  shows "case find (usable M) (docker_sockets (ma_home M)) of
      Some socket \<Rightarrow> (\<exists>t. DefaultBackend Y M main_Backends pick s = (Ret (ma_driver M socket), t) \<and>
        nano_Backend ''docker'' t = Some (ma_driver M socket) \<and> DefaultBackend Y M' main_Backends pick t = (Ret (ma_driver M socket), t))
    | None \<Rightarrow> (\<exists>t. DefaultBackend Y M main_Backends pick s = (Goexit, t) \<and>
        nk_cancelErrs t = nk_cancelErrs s @ [NewError (Some (Errorf ''no backends detected''))])"
proof -
  have pick1: "\<exists>r. pick [x] = x # r" and pick0: "pick [] = []" for x
    using assms(1) by (metis list.set_intros(1) list.simps(15) list.set(1) neq_Nil_conv set_empty singletonD,
      metis list.set(1) set_empty)
  show ?thesis
  proof (cases "find (usable M) (docker_sockets (ma_home M))")
    case None
    then show ?thesis
      using assms(2,3) pick0
      by (simp add: DefaultBackend_def Backends_def once_do_def go_bind_def detect_all_def main_Backends_def docker_Detect_def
          podman_Detect_def awslambda_Detect_def detect_loop_find CancelErr_def nano_Cancel_def)
  next
    case (Some socket)
    obtain r where "pick [(''docker'', ma_driver M socket)] = (''docker'', ma_driver M socket) # r" using pick1 by blast
    with Some show ?thesis
      using assms(2,3)
      by (simp add: DefaultBackend_def Backends_def once_do_def go_bind_def detect_all_def main_Backends_def docker_Detect_def
          podman_Detect_def awslambda_Detect_def detect_loop_find WithBackend_def nano_Backend_def)
  qed
qed

definition example_machine :: "string machine" where
  "example_machine = \<lparr>ma_home = ''/home/u'', ma_exists = \<lambda>s. s \<in> {''/var/run/docker.sock'', ''/run/docker.sock''},
     ma_connect = \<lambda>_. Inr (), ma_ping = \<lambda>s. if s = ''/run/docker.sock'' then Inr () else Inl (Errorf ''refused''),
     ma_driver = \<lambda>s. s, ma_podman = []\<rparr>"

theorem default_backend_first_socket_witness:
  "fst (DefaultBackend good_sys example_machine main_Backends (\<lambda>bs. bs) (NewNanokube (NewOptions ''/home/u'') [])) = Ret ''/run/docker.sock''"
proof -
  have f: "find (usable example_machine) (docker_sockets (ma_home example_machine)) = Some ''/run/docker.sock''" by code_simp
  have d: "ma_driver example_machine x = x" for x by (simp add: example_machine_def)
  have n: "nk_backends (NewNanokube o1 e) = []" "\<not> nk_backendsOnce (NewNanokube o1 e)" for o1 e by (simp_all add: NewNanokube_def)
  show ?thesis
    using default_backend_first_socket [where pick = "\<lambda>bs. bs" and s = "NewNanokube (NewOptions ''/home/u'') [] :: (string, unit) nano"
        and M = example_machine and Y = good_sys and M' = example_machine, OF _ n]
    unfolding f by (auto simp: d)
qed

section \<open>The loopback kubeconfig\<close>

text \<open>
  The loopback kubeconfig waits for its configuration, but not past the end of the context. Once
  provided, the file has one context, whose cluster is the host with its TLS settings and whose
  user has its credentials, and a configuration provided later does not change what is written.
  While none is provided the caller waits; when the context ends first, the caller goes on and
  reads a nil configuration, which is a panic.
\<close>

theorem kubeconfig_needs_loopback:
  assumes "sy_kubeconfig Y (path_at (nk_options s) KubeconfigFile) = None"
  shows "case (nk_loopback s, nk_cause s) of
      (Some c, _) \<Rightarrow> (\<exists>t. KubeconfigPath Y (WithLoopback c' s) = (Ret (path_at (nk_options s) KubeconfigFile), t) \<and>
        (\<exists>k. map_of (nk_kubeconfigs t) (path_at (nk_options s) KubeconfigFile) = Some k \<and> lk_CurrentContext k = rc_Host c \<and>
          map_of (lk_Contexts k) (rc_Host c) = Some \<lparr>ku_Cluster = rc_Host c, ku_AuthInfo = rc_Host c\<rparr> \<and>
          map_option ku_Server (map_of (lk_Clusters k) (rc_Host c)) = Some (rc_Host c) \<and>
          map_option ku_TLSServerName (map_of (lk_Clusters k) (rc_Host c)) = Some (rc_ServerName c) \<and>
          map_option ku_Token (map_of (lk_AuthInfos k) (rc_Host c)) = Some (rc_BearerToken c)))
    | (None, None) \<Rightarrow> KubeconfigPath Y s = (Blocked, s)
    | (None, Some _) \<Rightarrow> (\<exists>e. KubeconfigPath Y s = (Panic e, s))"
proof (cases "nk_loopback s")
  case None
  then show ?thesis
    by (simp add: KubeconfigPath_def go_bind_def await_cell_def nil_dereference_def split: option.splits)
next
  case (Some c)
  then have "nk_loopback (WithLoopback c' s) = Some c" by (rule nano_loopback.provide_again)
  moreover have "nk_options (WithLoopback c' s) = nk_options s" by (simp add: WithLoopback_def)
  ultimately show ?thesis
    using assms Some
    by (simp add: KubeconfigPath_def go_bind_def await_cell_def file_path_run loopback_kubeconfig_def)
qed

theorem kubeconfig_needs_loopback_witness:
  "KubeconfigPath good_sys (NewNanokube (NewOptions ''/home/u'') [] :: (unit, unit) nano) = (Blocked, NewNanokube (NewOptions ''/home/u'') [])"
  using kubeconfig_needs_loopback [of good_sys "NewNanokube (NewOptions ''/home/u'') [] :: (unit, unit) nano"]
  by (simp add: good_sys_def NewNanokube_def)

end
