(* ===== verification/Command.thy ===== *)
theory Command
  imports Nanokube
begin

text \<open>
  The command of \<^verbatim>\<open>src/pkg/command.go\<close>: the Kubernetes components it takes in with their flags, how
  they are found again, the labels of the kubelet's node and the hook that gives the components their
  kubeconfig. Building and running the components is library code.
\<close>

section \<open>Components and their flags\<close>

text \<open>A command of the library: its name and its flags. Setting a flag it does not have is an error the
  program ignores.\<close>

record cobra =
  cb_name :: string
  cb_flags :: strmap

definition set_flag :: "string \<Rightarrow> string \<Rightarrow> cobra \<Rightarrow> cobra" where
  "set_flag n v c = (if n \<in> fst ` set (cb_flags c) then c\<lparr>cb_flags := AList.update n v (cb_flags c)\<rparr> else c)"

record ('b, 'c) command =
  co_nano :: "('b, 'c) nano"
  co_subs :: "cobra list"
  co_featureGatesOnce :: bool
  co_once :: "string list"
  co_provided :: "string list"
  co_kubeconfigReady :: bool

definition NewNanokubeCommand :: "('b, 'c) nano \<Rightarrow> ('b, 'c) command" where
  "NewNanokubeCommand n = \<lparr>co_nano = n, co_subs = [], co_featureGatesOnce = False, co_once = [], co_provided = [],
     co_kubeconfigReady = False\<rparr>"

definition featureGates :: "string list" where
  "featureGates =
     [''kube:ExtendWebSocketsToKubelet=false'', ''kube:PortForwardWebsockets=false'',
      ''kube:TranslateStreamCloseWebsocketRequests=false'', ''kube:WatchList=false'', ''kube:WatchListClient=false'',
      ''kube:KubeletInUserNamespace=true'', ''kube:GracefulNodeShutdown=false'', ''kube:WindowsGracefulNodeShutdown=false'',
      ''kube:GracefulNodeShutdownBasedOnPodPriority=false'', ''kube:ControllerManagerReleaseLeaderElectionLockOnExit=true'']"

definition on_nano :: "(('b, 'c) nano, 'a) go \<Rightarrow> (('b, 'c) command, 'a) go" where
  "on_nano m s = (case m (co_nano s) of (r, n) \<Rightarrow> (r, s\<lparr>co_nano := n\<rparr>))"

definition data_dir :: "string \<Rightarrow> (('b, 'c) nano, string) go" where
  "data_dir name s = (case DataDirAt name (nk_options s) of (p, o1) \<Rightarrow> (Ret p, s\<lparr>nk_options := o1\<rparr>))"

definition DataDirVolumePlugins :: string where "DataDirVolumePlugins = filepath_Join [''kubelet'', ''volume-plugins'']"

text \<open>The flags of each component, in the order they are set; some values are files the program makes
  first.\<close>

type_synonym ('b, 'c) settings = "(string \<times> (('b, 'c) command, string) go) list"

definition controller_manager_flags :: "'c sys \<Rightarrow> ('b, 'c) settings" where
  "controller_manager_flags Y =
     [(''authentication-skip-lookup'', go_ret ''true''), (''controller-shutdown-timeout'', go_ret ''0''),
      (''flex-volume-plugin-dir'', on_nano (data_dir DataDirVolumePlugins)), (''leader-elect'', go_ret ''true''),
      (''root-ca-file'', on_nano (RootCaFilePath Y)), (''service-account-private-key-file'', on_nano (KeyFilePath Y)),
      (''secure-port'', go_ret ''0''), (''use-service-account-credentials'', go_ret ''false'')]"

definition scheduler_flags :: "('b, 'c) settings" where
  "scheduler_flags =
     [(''authentication-skip-lookup'', go_ret ''true''), (''leader-elect'', go_ret ''true''), (''secure-port'', go_ret ''0'')]"

definition apiserver_flags :: "'c sys \<Rightarrow> ('b, 'c) settings" where
  "apiserver_flags Y =
     [(''allow-privileged'', go_ret ''true''), (''api-audiences'', go_ret ''https://kubernetes.default.svc''),
      (''authorization-mode'', go_ret ''RBAC,Node''),
      (''etcd-servers'', go_bind (on_nano (data_dir ''etcd'')) (\<lambda>d. go_ret (''embed://'' @ d))),
      (''kubelet-preferred-address-types'', go_ret ''ExternalDNS''),
      (''service-account-key-file'', on_nano (KeyFilePath Y)), (''service-account-signing-key-file'', on_nano (KeyFilePath Y)),
      (''service-account-issuer'', go_ret ''https://kubernetes.default.svc''), (''shutdown-delay-duration'', go_ret ''10s''),
      (''shutdown-send-retry-after'', go_ret ''true''), (''shutdown-watch-termination-grace-period'', go_ret ''10s''),
      (''storage-media-type'', go_ret ''application/json''), (''tls-cert-file'', on_nano (CertFilePath Y)),
      (''tls-private-key-file'', on_nano (KeyFilePath Y))]"

definition kubelet_flags :: "'c sys \<Rightarrow> ('b, 'c) settings" where
  "kubelet_flags Y =
     [(''cloud-provider'', go_ret ''external''), (''enable-server'', go_ret ''false''), (''read-only-port'', go_ret ''0''),
      (''root-dir'', on_nano (data_dir ''kubelet'')), (''tls-cert-file'', on_nano (CertFilePath Y)),
      (''tls-private-key-file'', on_nano (KeyFilePath Y)), (''volume-plugin-dir'', on_nano (data_dir DataDirVolumePlugins))]"

definition settings_of :: "'c sys \<Rightarrow> string \<Rightarrow> ('b, 'c) settings option" where
  "settings_of Y name =
     (if name = ''kube-controller-manager'' then Some (controller_manager_flags Y)
      else if name = ''kube-scheduler'' then Some scheduler_flags
      else if name = ''kube-apiserver'' then Some (apiserver_flags Y)
      else if name = ''kubelet'' then Some (kubelet_flags Y)
      else None)"

fun set_all :: "('b, 'c) settings \<Rightarrow> cobra \<Rightarrow> (('b, 'c) command, cobra) go" where
  "set_all [] c = go_ret c"
| "set_all ((n, v) # rest) c = go_bind v (\<lambda>x. set_all rest (set_flag n x c))"

definition provide_sub :: "cobra \<Rightarrow> (('b, 'c) command, unit) go" where
  "provide_sub c s = (Ret (), s\<lparr>co_subs := co_subs s @ [c], co_provided := co_provided s @ [cb_name c]\<rparr>)"

definition add_component :: "('b, 'c) settings \<Rightarrow> cobra \<Rightarrow> (('b, 'c) command, unit) go" where
  "add_component fs c =
     once_do (\<lambda>s. cb_name c \<in> set (co_once s)) (\<lambda>s. s\<lparr>co_once := co_once s @ [cb_name c]\<rparr>)
       (go_bind (set_all fs c) provide_sub)"

definition With :: "'c sys \<Rightarrow> cobra \<Rightarrow> (('b, 'c) command, unit) go" where
  "With Y c s =
     (let c1 = (if co_featureGatesOnce s then c else set_flag ''feature-gates'' (strings_Join '','' featureGates) c);
          c2 = set_flag ''logging-format'' ''nanokube'' c1;
          s1 = s\<lparr>co_featureGatesOnce := True\<rparr>
      in case settings_of Y (cb_name c) of
           None \<Rightarrow> (Ret (), s1)
         | Some fs \<Rightarrow> add_component fs c2 s1)"

text \<open>\<^verbatim>\<open>ApiServerCommand\<close>, \<^verbatim>\<open>ControllerManagerCommand\<close>, \<^verbatim>\<open>SchedulerCommand\<close> and \<^verbatim>\<open>KubeletCommand\<close> differ in the
  name only: wait for the component, then look it up.\<close>

definition component_command :: "string \<Rightarrow> (('b, 'c) command, cobra) go" where
  "component_command name s =
     (if name \<notin> set (co_provided s) then (Blocked, s)
      else (case find (\<lambda>c. cb_name c = name) (co_subs s) of
              Some c \<Rightarrow> (Ret c, s)
            | None \<Rightarrow> (Panic (name @ '' command not found''), s)))"

text \<open>Before a command runs, the verbosity given to the root is passed to every component that has it.\<close>

definition propagate_v :: "string option \<Rightarrow> ('b, 'c) command \<Rightarrow> ('b, 'c) command" where
  "propagate_v v s = (case v of None \<Rightarrow> s | Some x \<Rightarrow> s\<lparr>co_subs := map (set_flag ''v'' x) (co_subs s)\<rparr>)"

text \<open>The kubelet is started with the identity of the machine among its labels.\<close>

definition MachineIDLabel :: string where
  "MachineIDLabel = ''nanokube.io/machine-id''"

definition kubelet_labels :: "'c sys \<Rightarrow> string \<Rightarrow> strmap \<Rightarrow> (('b, 'c) command, strmap) go" where
  "kubelet_labels Y uuid labels = go_bind (on_nano (MachineID Y uuid)) (\<lambda>i. go_ret (AList.update MachineIDLabel i labels))"

section \<open>The kubeconfig hook\<close>

text \<open>Setting a flag of a component changes the one command object, which every lookup finds.\<close>

definition set_component_flag :: "string \<Rightarrow> string \<Rightarrow> string \<Rightarrow> (('b, 'c) command, unit) go" where
  "set_component_flag name n v =
     go_bind (component_command name) (\<lambda>_ s.
       (Ret (), s\<lparr>co_subs := map (\<lambda>c. if cb_name c = name then set_flag n v c else c) (co_subs s)\<rparr>))"

definition kubeconfig_flags :: "(string \<times> string) list" where
  "kubeconfig_flags =
     [(''kube-controller-manager'', ''kubeconfig''), (''kube-controller-manager'', ''authorization-kubeconfig''),
      (''kube-controller-manager'', ''authentication-kubeconfig''), (''kube-scheduler'', ''kubeconfig''),
      (''kube-scheduler'', ''authorization-kubeconfig''), (''kube-scheduler'', ''authentication-kubeconfig''),
      (''kubelet'', ''kubeconfig'')]"

text \<open>The polls that happen before the hook's context ends, each with whether the service was found and
  whether the user's kubeconfig could be written.\<close>

fun poll_ready :: "(bool \<times> bool) list \<Rightarrow> (('b, 'c) command, error option) go" where
  "poll_ready [] s = (Ret (Some ErrCanceled), s)"
| "poll_ready ((svc, written) # ps) s =
     (if svc \<and> written then (Ret None, s\<lparr>co_kubeconfigReady := True\<rparr>) else poll_ready ps s)"

definition updateKubeconfig :: "'c sys \<Rightarrow> loopback_config \<Rightarrow> (bool \<times> bool) list \<Rightarrow> (('b, 'c) command, error option) go" where
  "updateKubeconfig Y loopback polls =
     go_bind (on_nano (\<lambda>n. (Ret (), WithLoopback loopback n))) (\<lambda>_.
     go_bind (on_nano (KubeconfigPath Y)) (\<lambda>path.
     go_bind (go_each (\<lambda>(name, n). set_component_flag name n path) kubeconfig_flags) (\<lambda>_. poll_ready polls)))"

section \<open>Components are found\<close>

text \<open>A computation that touches nothing of the command but the process-wide object.\<close>

definition only_nano :: "(('b, 'c) command, 'a) go \<Rightarrow> bool" where
  "only_nano m \<longleftrightarrow> (\<forall>s. \<exists>n. snd (m s) = s\<lparr>co_nano := n\<rparr>)"

named_theorems only_nano_intros \<open>computations that touch only the process-wide object\<close>

lemma only_nano_ret [only_nano_intros]: "only_nano (go_ret a)"
  unfolding only_nano_def by (metis command.surjective command.update_convs(1) go_ret_apply snd_conv)

lemma only_nano_on_nano [only_nano_intros]: "only_nano (on_nano m)"
  by (auto simp: only_nano_def on_nano_def split: prod.splits)

lemma only_nano_bind [only_nano_intros]:
  assumes m: "only_nano m" and f: "\<And>a. only_nano (f a)"
  shows "only_nano (go_bind m f)"
  unfolding only_nano_def
proof (rule allI)
  fix s
  obtain n where n: "snd (m s) = s\<lparr>co_nano := n\<rparr>" using m by (auto simp: only_nano_def)
  show "\<exists>n. snd (go_bind m f s) = s\<lparr>co_nano := n\<rparr>"
  proof (cases "fst (m s)")
    case (Ret a)
    obtain k where "snd (f a (s\<lparr>co_nano := n\<rparr>)) = s\<lparr>co_nano := n\<rparr>\<lparr>co_nano := k\<rparr>" using f unfolding only_nano_def by blast
    moreover have "m s = (Ret a, s\<lparr>co_nano := n\<rparr>)" using n Ret by (metis prod.collapse)
    ultimately show ?thesis by (auto simp: go_bind_def)
  qed (use n in \<open>auto simp: go_bind_def split: prod.splits\<close>)
qed

lemma only_nano_set_all: "\<forall>p \<in> set fs. only_nano (snd p) \<Longrightarrow> only_nano (set_all fs c)"
  by (induction fs c rule: set_all.induct) (auto intro: only_nano_intros)

lemma settings_only_nano: "settings_of Y name = Some fs \<Longrightarrow> p \<in> set fs \<Longrightarrow> only_nano (snd p)"
  by (auto simp: settings_of_def controller_manager_flags_def scheduler_flags_def apiserver_flags_def kubelet_flags_def
      only_nano_ret only_nano_on_nano only_nano_bind split: if_splits)

definition flag_names :: "cobra \<Rightarrow> string set" where
  "flag_names c = fst ` set (cb_flags c)"

lemma set_flag_simps [simp]:
  "cb_name (set_flag n v c) = cb_name c" "flag_names (set_flag n v c) = flag_names c"
  by (auto simp: set_flag_def flag_names_def dom_update insert_absorb)

lemma mget_set_flag:
  "mget (cb_flags (set_flag n v c)) k = (if k = n \<and> n \<in> flag_names c then v else mget (cb_flags c) k)"
  by (simp add: set_flag_def flag_names_def)

lemma set_all_result:
  "set_all fs c s = (Ret d, t) \<Longrightarrow> cb_name d = cb_name c \<and> flag_names d = flag_names c \<and>
     (k \<notin> fst ` set fs \<longrightarrow> mget (cb_flags d) k = mget (cb_flags c) k)"
proof (induction fs c arbitrary: s rule: set_all.induct)
  case (2 n v rest c)
  then obtain x s' where "v s = (Ret x, s')" "set_all rest (set_flag n x c) s' = (Ret d, t)" by auto
  with "2.IH" show ?case by (auto simp: mget_set_flag)
qed simp

lemma logging_not_set: "settings_of Y name = Some fs \<Longrightarrow> ''logging-format'' \<notin> fst ` set fs"
  by (auto simp: settings_of_def controller_manager_flags_def scheduler_flags_def apiserver_flags_def kubelet_flags_def
      split: if_splits)

text \<open>What is kept about the commands that were taken in: \<open>cs\<close> are the commands given so far.\<close>

definition sub_ok :: "cobra list \<Rightarrow> cobra \<Rightarrow> bool" where
  "sub_ok cs d \<longleftrightarrow> (\<exists>c. find (\<lambda>c. cb_name c = cb_name d) cs = Some c \<and> flag_names d = flag_names c \<and>
     (''logging-format'' \<in> flag_names c \<longrightarrow> mget (cb_flags d) ''logging-format'' = ''nanokube''))"

definition is_component :: "string \<Rightarrow> bool" where
  "is_component name \<longleftrightarrow> name \<in> {''kube-controller-manager'', ''kube-scheduler'', ''kube-apiserver'', ''kubelet''}"

definition command_inv :: "cobra list \<Rightarrow> ('b, 'c) command \<Rightarrow> bool" where
  "command_inv cs s \<longleftrightarrow> list_all (sub_ok cs) (co_subs s) \<and> map cb_name (co_subs s) = co_provided s \<and>
     set (co_provided s) \<subseteq> set (co_once s) \<and> distinct (co_provided s) \<and>
     (\<forall>c \<in> set cs. is_component (cb_name c) \<longrightarrow> cb_name c \<in> set (co_once s))"

lemma settings_of_component: "settings_of Y name = None \<longleftrightarrow> \<not> is_component name"
  by (simp add: settings_of_def is_component_def)

lemma find_append: "find P (xs @ ys) = (case find P xs of Some x \<Rightarrow> Some x | None \<Rightarrow> find P ys)"
  by (induction xs) auto

lemma sub_ok_later: "sub_ok cs d \<Longrightarrow> sub_ok (cs @ [c]) d"
proof -
  assume "sub_ok cs d"
  then obtain x where x: "find (\<lambda>c. cb_name c = cb_name d) cs = Some x" "flag_names d = flag_names x"
    "''logging-format'' \<in> flag_names x \<longrightarrow> mget (cb_flags d) ''logging-format'' = ''nanokube''"
    unfolding sub_ok_def by blast
  then have "find (\<lambda>c. cb_name c = cb_name d) (cs @ [c]) = Some x" by (simp add: find_append)
  with x(2,3) show ?thesis unfolding sub_ok_def by blast
qed

lemma sub_ok_new:
  assumes "\<forall>x \<in> set cs. cb_name x \<noteq> cb_name c" "settings_of Y (cb_name c) = Some fs" "flag_names c' = flag_names c" "cb_name c' = cb_name c"
    "set_all fs (set_flag ''logging-format'' ''nanokube'' c') s = (Ret d, t)"
  shows "sub_ok (cs @ [c]) d \<and> cb_name d = cb_name c"
proof -
  have "find (\<lambda>x. cb_name x = cb_name c) cs = None" using assms(1) by (auto simp: find_None_iff)
  moreover have "cb_name d = cb_name c" "flag_names d = flag_names c"
    "mget (cb_flags d) ''logging-format'' = mget (cb_flags (set_flag ''logging-format'' ''nanokube'' c')) ''logging-format''"
    using set_all_result [OF assms(5)] logging_not_set [OF assms(2)] assms(3,4) by auto
  ultimately show ?thesis using assms(3) by (simp add: sub_ok_def find_append mget_set_flag)
qed

lemma With_unknown: "\<not> is_component (cb_name c) \<Longrightarrow> snd (With Y c s) = s\<lparr>co_featureGatesOnce := True\<rparr>"
  by (simp add: With_def Let_def settings_of_component [THEN iffD2])

lemma With_again:
  "cb_name c \<in> set (co_once s) \<Longrightarrow> snd (With Y c s) = s\<lparr>co_featureGatesOnce := True\<rparr>"
  by (auto simp: With_def Let_def add_component_def once_do_def split: option.splits)

lemma With_new:
  fixes s :: "('b, 'c) command" and fs :: "('b, 'c) settings"
  assumes "settings_of Y (cb_name c) = Some fs" "cb_name c \<notin> set (co_once s)" "\<forall>x \<in> set cs. cb_name x \<noteq> cb_name c"
  defines "u \<equiv> snd (With Y c s)"
  shows "co_once u = co_once s @ [cb_name c] \<and>
    (co_subs u = co_subs s \<and> co_provided u = co_provided s \<or>
     (\<exists>d. co_subs u = co_subs s @ [d] \<and> co_provided u = co_provided s @ [cb_name c] \<and> sub_ok (cs @ [c]) d \<and> cb_name d = cb_name c))"
proof -
  let ?s = "s\<lparr>co_featureGatesOnce := True\<rparr>"
  obtain c' where c': "c' = (if co_featureGatesOnce s then c else set_flag ''feature-gates'' (strings_Join '','' featureGates) c)"
    "flag_names c' = flag_names c" "cb_name c' = cb_name c" by simp
  let ?c = "set_flag ''logging-format'' ''nanokube'' c'"
  obtain r t where rt: "set_all fs ?c ?s = (r, t)" by (cases "set_all fs ?c ?s")
  have "only_nano (set_all fs ?c)" using settings_only_nano [OF assms(1)] by (intro only_nano_set_all) auto
  then obtain n where n: "t = ?s\<lparr>co_nano := n\<rparr>" using rt unfolding only_nano_def by (metis snd_conv)
  have w: "With Y c s = add_component fs ?c ?s" using assms(1) c'(1) by (simp add: With_def Let_def)
  show ?thesis
  proof (cases r)
    case (Ret d)
    have "sub_ok (cs @ [c]) d \<and> cb_name d = cb_name c" using sub_ok_new [OF assms(3,1) c'(2,3)] rt Ret by blast
    then show ?thesis
      using w rt n Ret assms(2) c'(3) by (auto simp: u_def add_component_def once_do_def go_bind_def provide_sub_def)
  qed (use w rt n assms(2) c'(3) in \<open>auto simp: u_def add_component_def once_do_def go_bind_def\<close>)
qed

lemma command_inv_With:
  fixes s :: "('b, 'c) command"
  assumes "command_inv cs s"
  shows "command_inv (cs @ [c]) (snd (With Y c s))"
proof (cases "settings_of Y (cb_name c) :: ('b, 'c) settings option")
  case None
  then have "\<not> is_component (cb_name c)" using settings_of_component by blast
  then show ?thesis
    using assms by (auto simp: With_unknown command_inv_def list_all_iff sub_ok_later)
next
  case (Some fs)
  show ?thesis
  proof (cases "cb_name c \<in> set (co_once s)")
    case True
    then show ?thesis
      using assms Some by (auto simp: With_again command_inv_def list_all_iff sub_ok_later)
  next
    case False
    have "is_component (cb_name c)" using Some settings_of_component by (metis option.distinct(1))
    then have new: "\<forall>x \<in> set cs. cb_name x \<noteq> cb_name c"
      using assms False unfolding command_inv_def by metis
    have "cb_name c \<notin> set (co_provided s)" using assms False by (auto simp: command_inv_def)
    with With_new [OF Some False new] show ?thesis
      using assms by (auto simp: command_inv_def list_all_iff sub_ok_later)
  qed
qed

lemma command_inv_fold: "command_inv cs (fold (\<lambda>c s. snd (With Y c s)) cs (NewNanokubeCommand n))"
proof (induction cs rule: rev_induct)
  case Nil
  then show ?case by (simp add: command_inv_def NewNanokubeCommand_def)
next
  case (snoc c cs)
  then show ?case by (simp add: command_inv_With)
qed

text \<open>
  A component is either awaited or found. After any sequence of commands taken in, also when
  making their files failed, asking for one of the components either waits (it has not been taken
  in) or returns a command of that name and never panics. What is returned has the flags of the
  first command given under that name, and logs in the program's own format if it can choose one.
\<close>

theorem component_found_or_awaited:
  assumes "s = fold (\<lambda>c s. snd (With Y c s)) cs (NewNanokubeCommand n)"
  shows "component_command name s = (Blocked, s) \<or>
    (\<exists>d c. component_command name s = (Ret d, s) \<and> cb_name d = name \<and> find (\<lambda>c. cb_name c = name) cs = Some c \<and>
      flag_names d = flag_names c \<and>
      (''logging-format'' \<in> flag_names c \<longrightarrow> mget (cb_flags d) ''logging-format'' = ''nanokube''))"
proof (cases "name \<in> set (co_provided s)")
  case True
  have inv: "command_inv cs s" unfolding assms by (rule command_inv_fold)
  then have "name \<in> cb_name ` set (co_subs s)" using True by (metis command_inv_def list.set_map)
  then obtain d where d: "find (\<lambda>c. cb_name c = name) (co_subs s) = Some d"
    by (cases "find (\<lambda>c. cb_name c = name) (co_subs s)") (auto simp: find_None_iff)
  with find_SomeD [OF d] have "cb_name d = name" "sub_ok cs d" using inv by (auto simp: command_inv_def list_all_iff)
  with d True show ?thesis by (auto simp: component_command_def sub_ok_def)
qed (simp add: component_command_def)

theorem component_found_or_awaited_witness:
  "fst (component_command ''kube-scheduler'' (fold (\<lambda>c s. snd (With good_sys c s))
     [\<lparr>cb_name = ''kube-scheduler'', cb_flags = [(''v'', ''0'')]\<rparr>] (NewNanokubeCommand (NewNanokube (NewOptions ''/h'') [] :: (unit, unit) nano)))) =
   Ret \<lparr>cb_name = ''kube-scheduler'', cb_flags = [(''v'', ''0'')]\<rparr>"
  using component_found_or_awaited [OF refl, of "''kube-scheduler''" good_sys "[\<lparr>cb_name = ''kube-scheduler'', cb_flags = [(''v'', ''0'')]\<rparr>]"
      "NewNanokube (NewOptions ''/h'') [] :: (unit, unit) nano"]
  by (simp add: With_def settings_of_def scheduler_flags_def add_component_def once_do_def NewNanokubeCommand_def set_flag_def go_bind_def
      provide_sub_def component_command_def)

end
