(* ===== verification/Cluster_Hooks.thy ===== *)
theory Cluster_Hooks
  imports Command
begin

text \<open>
  What the hooks of \<^verbatim>\<open>src/pkg/command.go\<close> do to the cluster (untainting and draining the node, its status,
  the service-account token, the roles) and the export of the log file. How the hooks run beside each
  other is in \<open>Start_Hooks\<close>. The Kubernetes API is a parameter with a state of its own; the two helpers of its client
  library the hooks use, \<^verbatim>\<open>retry.RetryOnConflict\<close> and \<^verbatim>\<open>wait.PollUntilContextCancel\<close>, are loops with the
  number of rounds they get as a parameter.
\<close>

section \<open>The Kubernetes API\<close>

record taint =
  ta_key :: string
  ta_value :: string
  ta_effect :: string

record node =
  nd_name :: string
  nd_taints :: "taint list"
  nd_unschedulable :: bool

record kube_pod =
  kp_name :: string
  kp_namespace :: string
  kp_annotations :: strmap
  kp_owners :: "string list"

record cluster_role =
  cr_name :: string
  cr_labels :: strmap
  cr_rules :: "(string list \<times> string list) list"
  cr_aggregate :: "strmap option"

text \<open>The subject of a binding: its group, kind, namespace and name.\<close>

record role_binding =
  rb_name :: string
  rb_role :: string
  rb_group :: string
  rb_kind :: string
  rb_namespace :: string
  rb_subject :: string

record 'w kube_api =
  ka_node_get :: "string \<Rightarrow> 'w \<Rightarrow> (error + node) \<times> 'w"
  ka_node_update :: "node \<Rightarrow> 'w \<Rightarrow> error option \<times> 'w"
  ka_node_cordon :: "string \<Rightarrow> 'w \<Rightarrow> error option \<times> 'w"
  ka_node_not_ready :: "string \<Rightarrow> string \<Rightarrow> 'w \<Rightarrow> error option \<times> 'w"
  ka_node_addresses :: "string \<Rightarrow> (string \<times> string) list \<Rightarrow> 'w \<Rightarrow> error option \<times> 'w"
  ka_node_list :: "string \<Rightarrow> 'w \<Rightarrow> (error + string list) \<times> 'w"
  ka_pod_list :: "string \<Rightarrow> 'w \<Rightarrow> (error + kube_pod list) \<times> 'w"
  ka_pod_get :: "string \<Rightarrow> string \<Rightarrow> 'w \<Rightarrow> error option \<times> 'w"
  ka_evict :: "string \<Rightarrow> string \<Rightarrow> 'w \<Rightarrow> error option \<times> 'w"
  ka_role_apply :: "cluster_role \<Rightarrow> 'w \<Rightarrow> error option \<times> 'w"
  ka_binding_apply :: "role_binding \<Rightarrow> 'w \<Rightarrow> error option \<times> 'w"
  ka_sa_apply :: "string \<Rightarrow> string \<Rightarrow> 'w \<Rightarrow> error option \<times> 'w"
  ka_token :: "string \<Rightarrow> string \<Rightarrow> int \<Rightarrow> 'w \<Rightarrow> (error + string) \<times> 'w"

definition call :: "('w \<Rightarrow> 'a \<times> 'w) \<Rightarrow> ('w, 'a) go" where
  "call f w = (case f w of (r, w') \<Rightarrow> (Ret r, w'))"

text \<open>Stop at the first error, wrapped.\<close>

definition step_or :: "string \<Rightarrow> ('w, error option) go \<Rightarrow> ('w, error option) go \<Rightarrow> ('w, error option) go" where
  "step_or what m k = go_bind m (\<lambda>e. case e of Some e \<Rightarrow> go_ret (Some (Wrapf what e)) | None \<Rightarrow> k)"

section \<open>The node after start and restart\<close>

fun retry_on_conflict :: "nat \<Rightarrow> ('w, error option) go \<Rightarrow> ('w, error option) go" where
  "retry_on_conflict 0 f = go_ret None"
| "retry_on_conflict (Suc n) f =
     go_bind f (\<lambda>e. case e of
       None \<Rightarrow> go_ret None
     | Some e \<Rightarrow> if IsConflict e \<and> n \<noteq> 0 then retry_on_conflict n f else go_ret (Some e))"

definition cloud_taint :: string where
  "cloud_taint = ''node.cloudprovider.kubernetes.io/uninitialized''"

definition untaint :: "string \<Rightarrow> node \<Rightarrow> node" where
  "untaint key n = n\<lparr>nd_taints := filter (\<lambda>t. ta_key t \<noteq> key) (nd_taints n), nd_unschedulable := False\<rparr>"

definition untaint_once :: "'w kube_api \<Rightarrow> string \<Rightarrow> string \<Rightarrow> ('w, error option) go" where
  "untaint_once K key name =
     go_bind (call (ka_node_get K name)) (\<lambda>r. case r of
       Inl e \<Rightarrow> go_ret (Some e)
     | Inr n \<Rightarrow> call (ka_node_update K (untaint key n)))"

definition no_node_ref :: error where
  "no_node_ref = Errorf ''node reference not found''"

definition untaintNode :: "'w kube_api \<Rightarrow> nat \<Rightarrow> object_ref option \<Rightarrow> ('w, error option) go" where
  "untaintNode K steps nodeRef =
     (case nodeRef of
        None \<Rightarrow> go_ret (Some no_node_ref)
      | Some r \<Rightarrow>
          step_or ''failed to remove taints from node'' (retry_on_conflict steps (untaint_once K cloud_taint (or_name r))) (go_ret None))"

text \<open>\<open>host\<close> is \<^verbatim>\<open>os.Hostname\<close>, \<open>external\<close> the name of the tunnel.\<close>

definition node_addresses :: "string \<Rightarrow> string \<Rightarrow> (string \<times> string) list" where
  "node_addresses host external =
     [(''Hostname'', fst (strings_Cut dot host)), (''InternalDNS'', host), (''ExternalDNS'', external)]"

definition updateStatus :: "'w kube_api \<Rightarrow> nat \<Rightarrow> string \<Rightarrow> string \<Rightarrow> object_ref option \<Rightarrow> ('w, error option) go" where
  "updateStatus K steps host external nodeRef =
     (case nodeRef of
        None \<Rightarrow> go_ret (Some no_node_ref)
      | Some r \<Rightarrow>
          step_or ''failed to update node status''
            (retry_on_conflict steps (call (ka_node_addresses K (or_name r) (node_addresses host external)))) (go_ret None))"

definition nodeStartup :: "'w kube_api \<Rightarrow> string \<Rightarrow> ('w, error option) go" where
  "nodeStartup K machineID =
     go_bind (call (ka_node_list K (MachineIDLabel @ ''='' @ machineID))) (\<lambda>r. case r of
       Inl _ \<Rightarrow> go_ret None
     | Inr names \<Rightarrow>
         if names = [] then go_ret None
         else go_bind (go_each (\<lambda>name. go_bind (call (ka_node_not_ready K name ''NanokubeStartup'')) (\<lambda>_. go_ret ())) names)
                (\<lambda>_. go_ret None))"

section \<open>Draining\<close>

definition mirror_key :: string where
  "mirror_key = ''kubernetes.io/config.mirror''"

definition evictable :: "kube_pod \<Rightarrow> bool" where
  "evictable p \<longleftrightarrow> mget (kp_annotations p) mirror_key = [] \<and> ''DaemonSet'' \<notin> set (kp_owners p)"

fun evict_all :: "'w kube_api \<Rightarrow> kube_pod list \<Rightarrow> ('w, kube_pod list) go" where
  "evict_all K [] = go_ret []"
| "evict_all K (p # ps) =
     (if \<not> evictable p then evict_all K ps
      else go_bind (call (ka_evict K (kp_namespace p) (kp_name p))) (\<lambda>e. case e of
             Some _ \<Rightarrow> evict_all K ps
           | None \<Rightarrow> go_bind (evict_all K ps) (\<lambda>pending. go_ret (p # pending))))"

fun still_there :: "'w kube_api \<Rightarrow> kube_pod list \<Rightarrow> ('w, kube_pod list) go" where
  "still_there K [] = go_ret []"
| "still_there K (p # ps) =
     go_bind (call (ka_pod_get K (kp_namespace p) (kp_name p))) (\<lambda>e.
     go_bind (still_there K ps) (\<lambda>rest.
       go_ret (if (case e of Some e \<Rightarrow> IsNotFound e | None \<Rightarrow> False) then rest else p # rest)))"

fun drain_wait :: "'w kube_api \<Rightarrow> nat \<Rightarrow> kube_pod list \<Rightarrow> ('w, kube_pod list) go" where
  "drain_wait K 0 pending = go_ret pending"
| "drain_wait K (Suc polls) pending =
     go_bind (still_there K pending) (\<lambda>rest. if rest = [] then go_ret [] else drain_wait K polls rest)"

text \<open>The state is that of the API and whether \<^verbatim>\<open>drainDone\<close> has been closed, which the deferred call does
  however the function ends. \<open>polls\<close> is the number of polls within the time limit.\<close>

definition drain_body :: "'w kube_api \<Rightarrow> nat \<Rightarrow> object_ref option \<Rightarrow> ('w, error option) go" where
  "drain_body K polls nodeRef =
     (case nodeRef of
        None \<Rightarrow> go_ret (Some no_node_ref)
      | Some r \<Rightarrow>
          step_or ''cordon node'' (call (ka_node_cordon K (or_name r)))
            (go_bind (call (ka_pod_list K (or_name r))) (\<lambda>l. case l of
               Inl e \<Rightarrow> go_ret (Some (Wrapf ''list pods on node'' e))
             | Inr pods \<Rightarrow>
                 go_bind (evict_all K pods) (\<lambda>pending.
                 go_bind (drain_wait K polls pending) (\<lambda>_.
                 go_bind (call (ka_node_not_ready K (or_name r) ''NanokubeShutdown'')) (\<lambda>_. go_ret None))))))"

definition drainNode :: "'w kube_api \<Rightarrow> nat \<Rightarrow> object_ref option \<Rightarrow> ('w \<times> bool, error option) go" where
  "drainNode K polls nodeRef = (\<lambda>(w, _). case drain_body K polls nodeRef w of (r, w') \<Rightarrow> (r, (w', True)))"

section \<open>Token and roles\<close>

definition token_prefix :: string where
  "token_prefix = ''system:serviceaccount:''"

definition token_binding :: "string \<Rightarrow> string \<Rightarrow> role_binding" where
  "token_binding ns name =
     \<lparr>rb_name = ''nanokube:'' @ ns @ '':'' @ name, rb_role = ''cluster-admin'', rb_group = [], rb_kind = ''ServiceAccount'',
      rb_namespace = ns, rb_subject = name\<rparr>"

text \<open>Up to the token; the hook then keeps it and publishes a kubeconfig with it through discovery, which is
  \<open>publish\<close>. The state is that of the API and the token.\<close>

definition mint_token :: "'w kube_api \<Rightarrow> string \<Rightarrow> ('w, error + string) go" where
  "mint_token K subject =
     (if \<not> strings_HasPrefix subject token_prefix
      then go_ret (Inl (Errorf (''updateToken: subject '' @ strconv_Quote subject @ '' is not a service account'')))
      else (case strings_Cut colon (strings_TrimPrefix subject token_prefix) of
              (ns, name, ok) \<Rightarrow>
                if \<not> ok \<or> ns = [] \<or> name = []
                then go_ret (Inl (Errorf (''updateToken: malformed service account subject '' @ strconv_Quote subject)))
                else go_bind (call (ka_sa_apply K ns name)) (\<lambda>e. case e of
                       Some e \<Rightarrow> go_ret (Inl (Wrapf (''apply service account '' @ ns @ ''/'' @ name) e))
                     | None \<Rightarrow>
                         go_bind (call (ka_binding_apply K (token_binding ns name))) (\<lambda>e. case e of
                           Some e \<Rightarrow> go_ret (Inl (Wrapf (''apply cluster role binding '' @ strconv_Quote (rb_name (token_binding ns name))) e))
                         | None \<Rightarrow>
                             go_try_with (Wrapf (''create token for '' @ subject)) (call (ka_token K ns name 31536000)) (\<lambda>t. go_ret (Inr t))))))"

definition updateToken :: "'w kube_api \<Rightarrow> (string \<Rightarrow> 'w \<Rightarrow> 'w) \<Rightarrow> string \<Rightarrow> ('w \<times> string, error option) go" where
  "updateToken K publish subject = (\<lambda>(w, token).
     case mint_token K subject w of
       (Ret (Inr t), w') \<Rightarrow> (Ret None, (publish t w', t))
     | (Ret (Inl e), w') \<Rightarrow> (Ret (Some e), (w', token))
     | (Panic m, w') \<Rightarrow> (Panic m, (w', token))
     | (Goexit, w') \<Rightarrow> (Goexit, (w', token))
     | (Blocked, w') \<Rightarrow> (Blocked, (w', token)))"

definition aggregate_role :: string where "aggregate_role = ''system:kubelet''"
definition aggregate_key :: string where "aggregate_key = ''rbac.nanokube.io/aggregate-to-kubelet''"

text \<open>\<open>kebab\<close> is the library's \<^verbatim>\<open>strcase.KebabCase\<close>.\<close>

definition path_role :: "(string \<Rightarrow> string) \<Rightarrow> string \<Rightarrow> cluster_role" where
  "path_role kebab p =
     (let base = strings_TrimSuffix p ''/'';
          segments = map kebab (strings_Split slash (strings_TrimPrefix base ''/''))
      in \<lparr>cr_name = aggregate_role @ '':'' @ strings_Join '':'' segments, cr_labels = [(aggregate_key, ''true'')],
          cr_rules = [([''*''], [base, base @ ''/*''])], cr_aggregate = None\<rparr>)"

definition kubelet_role :: cluster_role where
  "kubelet_role = \<lparr>cr_name = aggregate_role, cr_labels = [], cr_rules = [], cr_aggregate = Some [(aggregate_key, ''true'')]\<rparr>"

definition kubelet_binding :: "string \<Rightarrow> role_binding" where
  "kubelet_binding subject =
     \<lparr>rb_name = aggregate_role @ '':'' @ strings_TrimPrefix subject ''system:'', rb_role = aggregate_role,
      rb_group = ''rbac.authorization.k8s.io'', rb_kind = ''User'', rb_namespace = [], rb_subject = subject\<rparr>"

fun apply_roles :: "'w kube_api \<Rightarrow> cluster_role list \<Rightarrow> ('w, error option) go \<Rightarrow> ('w, error option) go" where
  "apply_roles K [] k = k"
| "apply_roles K (r # rs) k =
     step_or (''apply cluster role '' @ strconv_Quote (cr_name r)) (call (ka_role_apply K r)) (apply_roles K rs k)"

definition updateRBAC :: "'w kube_api \<Rightarrow> (string \<Rightarrow> string) \<Rightarrow> string \<Rightarrow> string list \<Rightarrow> ('w, error option) go" where
  "updateRBAC K kebab subject paths =
     apply_roles K (map (path_role kebab) paths)
       (step_or (''apply aggregate cluster role '' @ strconv_Quote aggregate_role) (call (ka_role_apply K kubelet_role))
         (step_or (''apply cluster role binding '' @ strconv_Quote (rb_name (kubelet_binding subject)))
            (call (ka_binding_apply K (kubelet_binding subject))) (go_ret None)))"

section \<open>Exporting the log\<close>

text \<open>\<open>status\<close> is the output of the program's own \<^verbatim>\<open>status\<close> command, decoded to the path of the log file,
  \<open>copy\<close> what copying a file gives and \<open>close_file\<close> what closing the copy does.\<close>

definition exportLogs :: "(string \<Rightarrow> error option) \<Rightarrow> error + (error + string) \<Rightarrow> (string \<Rightarrow> error option) \<Rightarrow>
    (string \<Rightarrow> error option) \<Rightarrow> (string \<Rightarrow> string \<Rightarrow> error option) \<Rightarrow> (string \<Rightarrow> error option) \<Rightarrow> string \<Rightarrow> error option" where
  "exportLogs mkdir status open_log create copy close_file dir =
     (case mkdir dir of
        Some e \<Rightarrow> Some (Wrapf (''create '' @ dir) e)
      | None \<Rightarrow>
          (case status of
             Inl e \<Rightarrow> Some (Wrapf ''query daemon status'' e)
           | Inr (Inl e) \<Rightarrow> Some (Wrapf ''parse daemon status'' e)
           | Inr (Inr src) \<Rightarrow>
               if src = [] then None
               else (case open_log src of
                       Some e \<Rightarrow> Some (Wrapf (''open log '' @ src) e)
                     | None \<Rightarrow>
                         let dst = filepath_Join [dir, filepath_Base src]
                         in (case create dst of
                               Some e \<Rightarrow> Some (Wrapf (''create '' @ dst) e)
                             | None \<Rightarrow> (case copy src dst of Some e \<Rightarrow> Some (Wrapf (''copy log to '' @ dst) e) | None \<Rightarrow> close_file dst)))))"

section \<open>Conflicts while untainting\<close>

lemma call_apply [simp]: "f w = (r, w') \<Longrightarrow> call f w = (Ret r, w')"
  by (simp add: call_def)

text \<open>Conflicts are retried, with a fresh run each time, while rounds are left.\<close>

lemma retry_after_conflicts:
  assumes "\<And>i. i < k \<Longrightarrow> \<exists>c. f (ws i) = (Ret (Some c), ws (Suc i)) \<and> IsConflict c" "f (ws k) = (Ret None, w')" "k < steps"
  shows "retry_on_conflict steps f (ws 0) = (Ret None, w')"
  using assms
proof (induction k arbitrary: ws steps)
  case 0
  then show ?case by (cases steps) (simp_all add: go_bind_def)
next
  case (Suc k)
  obtain c where "f (ws 0) = (Ret (Some c), ws 1)" "IsConflict c" using Suc.prems(1) [of 0] by auto
  moreover obtain n where n: "steps = Suc n" "k < n" using Suc.prems(3) by (cases steps) auto
  moreover have "retry_on_conflict n f (ws 1) = (Ret None, w')"
    using Suc.IH [of "\<lambda>i. ws (Suc i)" n] Suc.prems(1,2) n(2) by auto
  ultimately show ?case by (simp add: go_bind_def)
qed

text \<open>
  Untainting survives conflicting writers. When other controllers change the node between reading
  and writing it, the hook reads it again: after \<open>k\<close> conflicts, with more rounds than that, it
  succeeds with the write of the node as last read. What it writes differs from what it read only
  in that the taint of the cloud provider is gone and the node is schedulable; exactly the other
  taints are kept.
\<close>

theorem untaint_survives_conflicts:
  assumes "\<And>i. i < k \<Longrightarrow> ka_node_get K (or_name r) (ws i) = (Inr (ns i), us i)"
    "\<And>i. i < k \<Longrightarrow> ka_node_update K (untaint cloud_taint (ns i)) (us i) = (Some (ErrConflict m), ws (Suc i))"
    "ka_node_get K (or_name r) (ws k) = (Inr n, u)" "ka_node_update K (untaint cloud_taint n) u = (None, w')" "k < steps"
  shows "untaintNode K steps (Some r) (ws 0) = (Ret None, w') \<and>
    \<not> nd_unschedulable (untaint cloud_taint n) \<and> nd_name (untaint cloud_taint n) = nd_name n \<and>
    (\<forall>t. t \<in> set (nd_taints (untaint cloud_taint n)) \<longleftrightarrow> t \<in> set (nd_taints n) \<and> ta_key t \<noteq> cloud_taint)"
proof -
  let ?f = "untaint_once K cloud_taint (or_name r)"
  have "?f (ws i) = (Ret (Some (ErrConflict m)), ws (Suc i))" if "i < k" for i
    using assms(1,2) [OF that] by (simp add: untaint_once_def go_bind_def)
  then have c: "i < k \<Longrightarrow> \<exists>c. ?f (ws i) = (Ret (Some c), ws (Suc i)) \<and> IsConflict c" for i
    using IsConflict_simps(1) by blast
  have "?f (ws k) = (Ret None, w')"
    using assms(3,4) by (simp add: untaint_once_def go_bind_def)
  from retry_after_conflicts [where f = ?f and ws = ws, OF c this assms(5)]
  show ?thesis by (auto simp: untaintNode_def step_or_def go_bind_def untaint_def)
qed

section \<open>Draining\<close>

text \<open>A call that returns and keeps a property of the API's state.\<close>

definition keeps :: "('w \<Rightarrow> bool) \<Rightarrow> ('w, 'a) go \<Rightarrow> bool" where
  "keeps P m \<longleftrightarrow> (\<forall>w. P w \<longrightarrow> (\<exists>a w'. m w = (Ret a, w') \<and> P w'))"

named_theorems keeps_intros \<open>calls that return and keep a property\<close>

lemma keeps_ret [keeps_intros]: "keeps P (go_ret a)"
  by (simp add: keeps_def)

lemma keeps_bind [keeps_intros]: "keeps P m \<Longrightarrow> (\<And>a. keeps P (f a)) \<Longrightarrow> keeps P (go_bind m f)"
  unfolding keeps_def by (metis go_bind_Ret)

lemma keeps_call: "keeps P (call f) \<longleftrightarrow> (\<forall>w. P w \<longrightarrow> P (snd (f w)))"
  by (simp add: keeps_def call_def case_prod_beta)

lemma keeps_option [keeps_intros]: "keeps P m \<Longrightarrow> (\<And>x. keeps P (f x)) \<Longrightarrow> keeps P (case e of None \<Rightarrow> m | Some x \<Rightarrow> f x)"
  by (cases e) auto

lemma keeps_sum [keeps_intros]: "(\<And>x. keeps P (f x)) \<Longrightarrow> (\<And>y. keeps P (g y)) \<Longrightarrow> keeps P (case e of Inl x \<Rightarrow> f x | Inr y \<Rightarrow> g y)"
  by (cases e) auto

lemma keeps_if [keeps_intros]: "keeps P m \<Longrightarrow> keeps P n \<Longrightarrow> keeps P (if c then m else n)"
  by simp

lemma keeps_evict_all:
  "(\<And>p. evictable p \<Longrightarrow> keeps P (call (ka_evict K (kp_namespace p) (kp_name p)))) \<Longrightarrow> keeps P (evict_all K ps)"
  by (induction ps) (auto intro!: keeps_intros)

lemma keeps_still_there: "(\<And>ns n. keeps P (call (ka_pod_get K ns n))) \<Longrightarrow> keeps P (still_there K ps)"
  by (induction ps) (auto intro!: keeps_bind keeps_ret)

lemma keeps_drain_wait: "(\<And>ns n. keeps P (call (ka_pod_get K ns n))) \<Longrightarrow> keeps P (drain_wait K polls ps)"
proof (induction polls arbitrary: ps)
  case (Suc polls)
  then show ?case by (auto intro!: keeps_intros keeps_still_there)
qed (simp add: keeps_ret)


text \<open>An API over the pods that exist, of which nothing fails.\<close>

definition pods_api :: "(string \<times> string) list kube_api" where
  "pods_api =
     \<lparr>ka_node_get = \<lambda>n w. (Inr \<lparr>nd_name = n, nd_taints = [\<lparr>ta_key = cloud_taint, ta_value = [], ta_effect = ''NoSchedule''\<rparr>], nd_unschedulable = True\<rparr>, w),
      ka_node_update = \<lambda>_ w. (None, w), ka_node_cordon = \<lambda>_ w. (None, w), ka_node_not_ready = \<lambda>_ _ w. (None, w),
      ka_node_addresses = \<lambda>_ _ w. (None, w), ka_node_list = \<lambda>_ w. (Inr [], w),
      ka_pod_list = \<lambda>_ w. (Inr (map (\<lambda>(ns, n). \<lparr>kp_name = n, kp_namespace = ns, kp_annotations = [], kp_owners = []\<rparr>) w), w),
      ka_pod_get = \<lambda>ns n w. (if (ns, n) \<in> set w then None else Some (ErrNotFound n), w),
      ka_evict = \<lambda>ns n w. (None, removeAll (ns, n) w),
      ka_role_apply = \<lambda>_ w. (None, w), ka_binding_apply = \<lambda>_ w. (None, w), ka_sa_apply = \<lambda>_ _ w. (None, w),
      ka_token = \<lambda>ns n t w. (Inr (ns @ n), w)\<rparr>"

definition example_node :: object_ref where
  "example_node = \<lparr>or_group = [], or_version = ''v1'', or_kind = ''Node'', or_namespace = [], or_name = ''n1''\<rparr>"

theorem untaint_survives_conflicts_witness:
  "untaintNode pods_api 5 (Some example_node) [] = (Ret None, [])"
proof -
  let ?n = "\<lparr>nd_name = ''n1'', nd_taints = [\<lparr>ta_key = cloud_taint, ta_value = [], ta_effect = ''NoSchedule''\<rparr>], nd_unschedulable = True\<rparr>"
  have "ka_node_get pods_api (or_name example_node) [] = (Inr ?n, [])" by (simp add: pods_api_def example_node_def)
  moreover have "ka_node_update pods_api (untaint cloud_taint ?n) [] = (None, [])" by (simp add: pods_api_def)
  ultimately show ?thesis
    using untaint_survives_conflicts [where k = 0 and K = pods_api and r = example_node and ws = "\<lambda>_. []" and n = ?n and u = "[]" and w' = "[]" and steps = 5]
    by simp
qed


section \<open>How long a drain waits\<close>

lemma still_there_found:
  assumes "p \<in> set ps" "\<forall>w. fst (ka_pod_get K (kp_namespace p) (kp_name p) w) = None" "still_there K ps w = (Ret r, w')"
  shows "p \<in> set r"
  using assms
proof (induction ps arbitrary: w r w')
  case (Cons q ps)
  obtain e w1 where e: "ka_pod_get K (kp_namespace q) (kp_name q) w = (e, w1)" by (cases "ka_pod_get K (kp_namespace q) (kp_name q) w")
  with Cons.prems(3) obtain rest where r: "still_there K ps w1 = (Ret rest, w')"
    "r = (if (case e of Some e \<Rightarrow> IsNotFound e | None \<Rightarrow> False) then rest else q # rest)"
    by auto
  show ?case
  proof (cases "q = p")
    case True
    then have "e = None" using Cons.prems(2) e by (metis fst_conv)
    with r True show ?thesis by simp
  next
    case False
    then have "p \<in> set rest" using Cons.IH [OF _ Cons.prems(2) r(1)] Cons.prems(1) by simp
    with r(2) show ?thesis by simp
  qed
qed simp

lemma still_there_gone:
  assumes "\<forall>p \<in> set ps. \<forall>w. \<exists>m w'. ka_pod_get K (kp_namespace p) (kp_name p) w = (Some (ErrNotFound m), w')"
  shows "\<exists>w'. still_there K ps w = (Ret [], w')"
  using assms
proof (induction ps arbitrary: w)
  case (Cons q ps)
  obtain m w1 where "ka_pod_get K (kp_namespace q) (kp_name q) w = (Some (ErrNotFound m), w1)" using Cons.prems by (metis list.set_intros(1))
  moreover obtain w2 where "still_there K ps w1 = (Ret [], w2)" using Cons.IH [of w1] Cons.prems by auto
  ultimately show ?case by (simp add: go_bind_def)
qed simp

text \<open>
  A drain waits for names, not for pods. Once every evicted pod is gone the next poll ends the wait.
  But a pod that is replaced under its own name, as the pods of a stateful set are, is found at every
  poll even though the evicted one is gone: the wait then uses up all its polls and still lists it.
\<close>

theorem drain_waits_for_names:
  assumes "p \<in> set ps" "drain_wait K polls ps w = (Ret r, w')"
  shows "((\<forall>w. fst (ka_pod_get K (kp_namespace p) (kp_name p) w) = None) \<longrightarrow> p \<in> set r) \<and>
    ((\<forall>p \<in> set ps. \<forall>w. \<exists>m w'. ka_pod_get K (kp_namespace p) (kp_name p) w = (Some (ErrNotFound m), w')) \<and> polls \<noteq> 0 \<longrightarrow> r = [])"
proof (rule conjI; rule impI)
  assume "\<forall>w. fst (ka_pod_get K (kp_namespace p) (kp_name p) w) = None"
  then show "p \<in> set r"
    using assms
  proof (induction polls arbitrary: ps w)
    case (Suc polls)
    then obtain rest w1 where "still_there K ps w = (Ret rest, w1)"
      "(if rest = [] then go_ret [] else drain_wait K polls rest) w1 = (Ret r, w')" by auto
    moreover from this(1) have "p \<in> set rest" using still_there_found Suc.prems by metis
    ultimately show ?case using Suc by (auto split: if_splits)
  qed simp
next
  assume g: "(\<forall>p \<in> set ps. \<forall>w. \<exists>m w'. ka_pod_get K (kp_namespace p) (kp_name p) w = (Some (ErrNotFound m), w')) \<and> polls \<noteq> 0"
  then obtain n where n: "polls = Suc n" by (cases polls) auto
  obtain w1 where "still_there K ps w = (Ret [], w1)" using still_there_gone g by metis
  with assms(2) n show "r = []" by (simp add: go_bind_def)
qed

theorem drain_waits_for_names_witness:
  "\<exists>r w. drain_wait (pods_api\<lparr>ka_pod_get := \<lambda>_ _ w. (None, w)\<rparr>) 3
      [\<lparr>kp_name = ''web-0'', kp_namespace = ''ns'', kp_annotations = [], kp_owners = [''StatefulSet'']\<rparr>] [] = (Ret r, w) \<and> r \<noteq> []"
proof -
  let ?p = "\<lparr>kp_name = ''web-0'', kp_namespace = ''ns'', kp_annotations = [], kp_owners = [''StatefulSet'']\<rparr>"
  let ?K = "pods_api\<lparr>ka_pod_get := \<lambda>_ _ w. (None, w)\<rparr>"
  have "\<exists>r. drain_wait ?K 3 [?p] [] = (Ret r, [])" by (simp add: numeral_3_eq_3 call_def go_bind_def)
  moreover have "drain_wait ?K 3 [?p] [] = (Ret r, []) \<Longrightarrow> ?p \<in> set r" for r
    using drain_waits_for_names [of ?p "[?p]" ?K 3 "[]" r "[]"] by simp
  ultimately show ?thesis by fastforce
qed

section \<open>Service-account subjects\<close>

lemma Cut_sep: "c \<notin> set x \<Longrightarrow> strings_Cut c (x @ c # y) = (x, y, True)"
  by (induction x) auto

lemma Cut_some: "strings_Cut c s = (x, y, True) \<Longrightarrow> s = x @ c # y \<and> c \<notin> set x"
proof (induction s arbitrary: x)
  case (Cons a s)
  then show ?case by (cases "a = c"; cases "strings_Cut c s") auto
qed simp

definition valid_subject :: "string \<Rightarrow> string \<Rightarrow> string \<Rightarrow> bool" where
  "valid_subject subject ns name \<longleftrightarrow> subject = token_prefix @ ns @ '':'' @ name \<and> ns \<noteq> [] \<and> name \<noteq> [] \<and> colon \<notin> set ns"

lemma mint_token_valid:
  assumes "ka_sa_apply K ns name w = (e1, w1)" "ka_binding_apply K (token_binding ns name) w1 = (e2, w2)"
    "ka_token K ns name (365 * 24 * 60 * 60) w2 = (r, w3)" "valid_subject subject ns name"
  shows "mint_token K subject w =
        (case e1 of
           Some e \<Rightarrow> (Ret (Inl (Wrapf (''apply service account '' @ ns @ ''/'' @ name) e)), w1)
         | None \<Rightarrow> (case e2 of
             Some e \<Rightarrow> (Ret (Inl (Wrapf (''apply cluster role binding '' @ strconv_Quote (''nanokube:'' @ ns @ '':'' @ name)) e)), w2)
           | None \<Rightarrow> (case r of
               Inl e \<Rightarrow> (Ret (Inl (Wrapf (''create token for '' @ subject) e)), w3)
             | Inr t \<Rightarrow> (Ret (Inr t), w3))))"
proof -
  have "strings_HasPrefix subject token_prefix" "strings_TrimPrefix subject token_prefix = ns @ colon # name"
    using assms(4) by (simp_all add: valid_subject_def strings_TrimPrefix_def strings_HasPrefix_def)
  moreover have "strings_Cut colon (ns @ colon # name) = (ns, name, True)" using assms(4) by (simp add: Cut_sep valid_subject_def)
  ultimately show ?thesis
    using assms
    by (auto simp: mint_token_def valid_subject_def go_bind_def go_try_with_def token_binding_def split: option.splits sum.splits)
qed

lemma mint_token_invalid:
  assumes "\<forall>ns name. \<not> valid_subject subject ns name"
  shows "\<exists>e. mint_token K subject w = (Ret (Inl e), w)"
proof (cases "strings_HasPrefix subject token_prefix")
  case True
  then obtain z where z: "subject = token_prefix @ z" by (auto simp: strings_HasPrefix_def) (metis append_take_drop_id)
  obtain a b ok where c: "strings_Cut colon z = (a, b, ok)" by (cases "strings_Cut colon z")
  have "\<not> ok \<or> a = [] \<or> b = []"
  proof (rule ccontr)
    assume "\<not> (\<not> ok \<or> a = [] \<or> b = [])"
    with c Cut_some [of colon z a b] z have "valid_subject subject a b" by (auto simp: valid_subject_def)
    with assms show False by blast
  qed
  with True z c show ?thesis by (auto simp: mint_token_def strings_TrimPrefix_def)
qed (simp add: mint_token_def)

text \<open>
  A token is minted exactly for service-account subjects. For the subject of a service account the
  hook makes sure the account and its binding to the cluster administrator exist, in that order, and
  asks for a token of a year for that account, which it keeps and publishes; the first call that fails
  ends it with its error, nothing after it happens and the token that was there stays. For any other
  string nothing is called and an error is returned.
\<close>

theorem token_for_service_accounts_only:
  assumes "ka_sa_apply K ns name w = (e1, w1)" "ka_binding_apply K (token_binding ns name) w1 = (e2, w2)"
    "ka_token K ns name (365 * 24 * 60 * 60) w2 = (r, w3)"
  shows "(valid_subject subject ns name \<longrightarrow>
      updateToken K publish subject (w, old) =
        (case e1 of
           Some e \<Rightarrow> (Ret (Some (Wrapf (''apply service account '' @ ns @ ''/'' @ name) e)), (w1, old))
         | None \<Rightarrow> (case e2 of
             Some e \<Rightarrow> (Ret (Some (Wrapf (''apply cluster role binding '' @ strconv_Quote (''nanokube:'' @ ns @ '':'' @ name)) e)), (w2, old))
           | None \<Rightarrow> (case r of
               Inl e \<Rightarrow> (Ret (Some (Wrapf (''create token for '' @ subject) e)), (w3, old))
             | Inr t \<Rightarrow> (Ret None, (publish t w3, t)))))) \<and>
    ((\<forall>ns name. \<not> valid_subject subject ns name) \<longrightarrow> (\<exists>e. updateToken K publish subject (w, old) = (Ret (Some e), (w, old))))"
  using mint_token_valid [OF assms, of subject] mint_token_invalid [of subject K w]
  by (auto simp: updateToken_def split: option.splits sum.splits)

theorem token_for_service_accounts_only_witness:
  "updateToken pods_api (\<lambda>_ w. w) ''system:serviceaccount:kube-system:nanokube'' ([], []) = (Ret None, ([], ''kube-systemnanokube''))"
proof -
  have "valid_subject ''system:serviceaccount:kube-system:nanokube'' ''kube-system'' ''nanokube''" by code_simp
  then show ?thesis
    using token_for_service_accounts_only [of pods_api "''kube-system''" "''nanokube''" "[]" None "[]" None "[]" "Inr ''kube-systemnanokube''" "[]"
        "''system:serviceaccount:kube-system:nanokube''" "\<lambda>_ w. w" "[]"]
    by (simp add: pods_api_def)
qed

section \<open>Roles\<close>

lemma TrimSuffix_slash: "p = strings_TrimSuffix p ''/'' \<or> p = strings_TrimSuffix p ''/'' @ ''/''"
  by (cases p rule: rev_cases) (auto simp: strings_TrimSuffix_def strings_HasSuffix_def strings_HasPrefix_def)

lemma apply_roles_all:
  assumes "\<forall>r \<in> set rs. \<forall>w. fst (ka_role_apply K r w) = None"
  shows "apply_roles K rs k w = k (fold (\<lambda>r w. snd (ka_role_apply K r w)) rs w)"
  using assms
proof (induction rs arbitrary: w)
  case (Cons r rs)
  have "ka_role_apply K r w = (None, snd (ka_role_apply K r w))" using Cons.prems by (metis list.set_intros(1) prod.collapse)
  then have "call (ka_role_apply K r) w = (Ret None, snd (ka_role_apply K r w))" by simp
  with Cons show ?case by (simp add: step_or_def go_bind_def)
qed simp



end
