(* ===== verification/Start_Hooks.thy ===== *)
theory Start_Hooks
  imports Cluster_Hooks "HOL-Library.Multiset"
begin

text \<open>
  How the hooks of \<^verbatim>\<open>src/pkg/command.go\<close> run beside each other: every hook has a goroutine that waits for
  its channel, runs its function, reports an error by cancelling and counts itself as done, also
  when cancelling ends the goroutine; a waiter closes \<^verbatim>\<open>startHooksDone\<close> when all are done
  (\<^verbatim>\<open>startHook\<close>, \<^verbatim>\<open>runEHook\<close>, \<^verbatim>\<open>stopHook\<close> and the wait groups in \<^verbatim>\<open>With\<close>).
\<close>

section \<open>States and steps\<close>

text \<open>A hook: its name, the channel it waits for, if any, and what its function returns.\<close>

record hook =
  hk_name :: string
  hk_wait :: "string option"
  hk_result :: "error option"

definition startHook :: "string \<Rightarrow> string option \<Rightarrow> error option \<Rightarrow> hook" where
  "startHook name ch res = \<lparr>hk_name = name, hk_wait = ch, hk_result = res\<rparr>"

text \<open>The start hooks of the program with the channels they wait for; \<open>res\<close> says how each ends.\<close>

definition start_hooks :: "(string \<Rightarrow> error option) \<Rightarrow> hook list" where
  "start_hooks res =
     map (\<lambda>(n, ch). startHook n (Some ch) (res n))
       [(''update-kubeconfig'', ''hostnameReady''), (''record-events'', ''kubeconfigReady''), (''node-startup'', ''kubeconfigReady''),
        (''untaint-node'', ''nodeReady''), (''update-status'', ''nodeReady''), (''kubelet-rbac'', ''pathsProvided''),
        (''update-token'', ''kubeconfigReady'')]"

datatype hook_status = Waiting | Running | Finished

record hooks =
  hs_status :: "hook_status list"
  hs_closed :: "string list"
  hs_wg :: nat
  hs_ready :: bool
  hs_errs :: "error list"

definition hooks_start :: "hook list \<Rightarrow> hooks" where
  "hooks_start hs = \<lparr>hs_status = map (\<lambda>_. Waiting) hs, hs_closed = [], hs_wg = length hs, hs_ready = False, hs_errs = []\<rparr>"

definition may_start :: "hook \<Rightarrow> hooks \<Rightarrow> bool" where
  "may_start h s \<longleftrightarrow> (case hk_wait h of None \<Rightarrow> True | Some ch \<Rightarrow> ch \<in> set (hs_closed s))"

text \<open>The steps of the hooks themselves; a channel is closed by others.\<close>

inductive hook_run :: "hook list \<Rightarrow> hooks \<Rightarrow> hooks \<Rightarrow> bool" for hs where
  run_start: "i < length hs \<Longrightarrow> hs_status s ! i = Waiting \<Longrightarrow> may_start (hs ! i) s \<Longrightarrow>
    hook_run hs s (s\<lparr>hs_status := (hs_status s)[i := Running]\<rparr>)"
| run_finish: "i < length hs \<Longrightarrow> hs_status s ! i = Running \<Longrightarrow>
    hook_run hs s (s\<lparr>hs_status := (hs_status s)[i := Finished], hs_wg := hs_wg s - 1,
      hs_errs := hs_errs s @ (case hk_result (hs ! i) of None \<Rightarrow> [] | Some e \<Rightarrow> [e])\<rparr>)"
| run_ready: "hs_wg s = 0 \<Longrightarrow> \<not> hs_ready s \<Longrightarrow> hook_run hs s (s\<lparr>hs_ready := True\<rparr>)"

inductive hook_step :: "hook list \<Rightarrow> hooks \<Rightarrow> hooks \<Rightarrow> bool" for hs where
  step_run: "hook_run hs s t \<Longrightarrow> hook_step hs s t"
| step_close: "hook_step hs s (s\<lparr>hs_closed := ch # hs_closed s\<rparr>)"

inductive_cases hook_runE: "hook_run hs s t"
inductive_cases hook_stepE: "hook_step hs s t"

text \<open>A stop hook only passes the error of its function on.\<close>

definition stopHook :: "('s, error option) go \<Rightarrow> ('s, error option) go" where
  "stopHook fn = go_bind fn (\<lambda>e. case e of Some e \<Rightarrow> go_ret (Some e) | None \<Rightarrow> go_ret None)"

section \<open>The count is right\<close>

definition unfinished :: "hook_status list \<Rightarrow> nat" where
  "unfinished st = length (filter (\<lambda>x. x \<noteq> Finished) st)"

definition failed :: "hook list \<Rightarrow> hook_status list \<Rightarrow> error multiset" where
  "failed hs st = mset (concat (map (\<lambda>(h, x). if x = Finished then (case hk_result h of None \<Rightarrow> [] | Some e \<Rightarrow> [e]) else []) (zip hs st)))"

definition hooks_inv :: "hook list \<Rightarrow> hooks \<Rightarrow> bool" where
  "hooks_inv hs s \<longleftrightarrow> length (hs_status s) = length hs \<and> hs_wg s = unfinished (hs_status s) \<and>
     mset (hs_errs s) = failed hs (hs_status s) \<and> (hs_ready s \<longrightarrow> unfinished (hs_status s) = 0) \<and>
     (\<forall>i < length hs. hs_status s ! i \<noteq> Waiting \<longrightarrow> may_start (hs ! i) s)"

lemma unfinished_update:
  "i < length st \<Longrightarrow> st ! i \<noteq> Finished \<Longrightarrow> unfinished (st[i := x]) = unfinished st - (if x = Finished then 1 else 0) \<and> unfinished st \<noteq> 0"
proof (induction st arbitrary: i)
  case (Cons a st)
  then show ?case by (cases i) (auto simp: unfinished_def)
qed simp

lemma failed_update:
  "i < length st \<Longrightarrow> length st = length hs \<Longrightarrow> st ! i \<noteq> Finished \<Longrightarrow>
    failed hs (st[i := x]) = failed hs st + (if x = Finished then (case hk_result (hs ! i) of None \<Rightarrow> {#} | Some e \<Rightarrow> {#e#}) else {#})"
proof (induction st arbitrary: i hs)
  case (Cons a st)
  obtain h hs' where hs: "hs = h # hs'" using Cons.prems(2) by (cases hs) auto
  show ?case
  proof (cases i)
    case 0
    with Cons.prems hs show ?thesis by (auto simp: failed_def split: option.splits)
  next
    case (Suc j)
    then have "failed hs' (st[j := x]) = failed hs' st + (if x = Finished then (case hk_result (hs' ! j) of None \<Rightarrow> {#} | Some e \<Rightarrow> {#e#}) else {#})"
      using Cons.IH [of j hs'] Cons.prems hs by simp
    with Suc hs show ?thesis by (simp add: failed_def)
  qed
qed simp

lemma may_start_closed:
  "hs_closed t = hs_closed s \<Longrightarrow> may_start h t = may_start h s"
  "may_start h s \<Longrightarrow> may_start h (s\<lparr>hs_closed := ch # hs_closed s\<rparr>)"
  by (auto simp: may_start_def split: option.splits)

lemma hooks_inv_run:
  assumes inv: "hooks_inv hs s" and run: "hook_run hs s t"
  shows "hooks_inv hs t"
  using run
proof cases
  case t: (run_start i)
  have st: "i < length (hs_status s)" "length (hs_status s) = length hs" "hs_status s ! i \<noteq> Finished" using inv t by (simp_all add: hooks_inv_def)
  have ms: "may_start h t = may_start h s" for h by (rule may_start_closed) (simp add: t)
  show ?thesis
    using inv unfinished_update [OF st(1,3), of Running] failed_update [OF st, of Running] t(4) st(1)
    unfolding hooks_inv_def ms by (auto simp: t(1) nth_list_update)
next
  case t: (run_finish i)
  have st: "i < length (hs_status s)" "length (hs_status s) = length hs" "hs_status s ! i \<noteq> Finished" using inv t by (simp_all add: hooks_inv_def)
  have ms: "may_start h t = may_start h s" for h by (rule may_start_closed) (simp add: t)
  show ?thesis
    using inv unfinished_update [OF st(1,3), of Finished] failed_update [OF st, of Finished] t(2,3) st(1)
    unfolding hooks_inv_def ms by (auto simp: t(1) nth_list_update split: option.splits)
next
  case t: run_ready
  have ms: "may_start h t = may_start h s" for h by (rule may_start_closed) (simp add: t)
  show ?thesis using inv t(2) unfolding hooks_inv_def ms by (simp add: t(1))
qed

lemma hooks_inv_start: "hooks_inv hs (hooks_start hs)"
proof -
  have "filter (\<lambda>x. x \<noteq> Finished) (map (\<lambda>_. Waiting) hs) = map (\<lambda>_. Waiting) hs" by (induction hs) auto
  moreover have "failed hs (map (\<lambda>_. Waiting) hs) = {#}" by (induction hs) (auto simp: failed_def)
  ultimately show ?thesis by (simp add: hooks_inv_def hooks_start_def unfinished_def)
qed

lemma hooks_inv_step:
  assumes "hooks_inv hs s" "hook_step hs s t"
  shows "hooks_inv hs t"
  using assms(2)
proof cases
  case step_run
  then show ?thesis using assms(1) hooks_inv_run by blast
next
  case (step_close ch)
  then show ?thesis using assms(1) unfolding hooks_inv_def by (simp add: may_start_closed(2))
qed

interpretation starting: invariant_system "hook_step hs" "hooks_start hs" "hooks_inv hs" for hs
  by unfold_locales (rule hooks_inv_start, rule hooks_inv_step)

text \<open>The errors of all hooks that fail.\<close>

definition all_errors :: "hook list \<Rightarrow> error multiset" where
  "all_errors hs = mset (concat (map (\<lambda>h. case hk_result h of None \<Rightarrow> [] | Some e \<Rightarrow> [e]) hs))"

lemma failed_all: "length st = length hs \<Longrightarrow> \<forall>x \<in> set st. x = Finished \<Longrightarrow> failed hs st = all_errors hs"
proof (induction hs arbitrary: st)
  case (Cons h hs)
  then obtain y ys where "st = y # ys" by (cases st) auto
  with Cons show ?case by (auto simp: failed_def all_errors_def)
qed (simp add: failed_def all_errors_def)

lemma unfinished_0: "unfinished st = 0 \<longleftrightarrow> (\<forall>x \<in> set st. x = Finished)"
  by (auto simp: unfinished_def filter_empty_conv)

lemma ready_finished: "hooks_inv hs s \<Longrightarrow> hs_ready s \<Longrightarrow> \<forall>x \<in> set (hs_status s). x = Finished"
  by (simp add: hooks_inv_def unfinished_0)

lemma fin_may_start:
  assumes "hooks_inv hs s" "hs_ready s" "h \<in> set hs"
  shows "may_start h s"
proof -
  obtain i where i: "i < length hs" "h = hs ! i" using assms(3) by (auto simp: in_set_conv_nth)
  then have "hs_status s ! i = Finished" using ready_finished [OF assms(1,2)] assms(1) by (simp add: hooks_inv_def)
  then show ?thesis using assms(1) i by (simp add: hooks_inv_def)
qed

text \<open>
  The program reports itself ready only when every start hook has ended. In every interleaving of
  the hooks with the closing of channels, once \<^verbatim>\<open>startHooksDone\<close> is closed each hook has finished, the
  channel each waited for was closed, and the errors that cancelled the process are exactly those
  of the hooks that failed, each once: a failing hook is counted as done like any other.
\<close>

theorem ready_after_all_hooks:
  assumes "reaches (hook_step hs) (hooks_start hs) s" "hs_ready s"
  shows "(\<forall>x \<in> set (hs_status s). x = Finished) \<and> (\<forall>h \<in> set hs. may_start h s) \<and> mset (hs_errs s) = all_errors hs"
proof -
  have inv: "hooks_inv hs s" by (rule starting.inv_reaches [OF assms(1)])
  then have "\<forall>x \<in> set (hs_status s). x = Finished" by (rule ready_finished [OF _ assms(2)])
  moreover have "\<forall>h \<in> set hs. may_start h s" using inv assms(2) fin_may_start by blast
  ultimately show ?thesis using inv by (simp add: hooks_inv_def failed_all)
qed

section \<open>Starting ends\<close>

fun hook_weight :: "hook_status \<Rightarrow> nat" where
  "hook_weight Waiting = 2"
| "hook_weight Running = 1"
| "hook_weight Finished = 0"

definition hooks_measure :: "hooks \<Rightarrow> nat" where
  "hooks_measure s = sum_list (map hook_weight (hs_status s)) + (if hs_ready s then 0 else 1)"

lemma weight_update:
  "i < length st \<Longrightarrow> hook_weight x < hook_weight (st ! i) \<Longrightarrow>
     sum_list (map hook_weight (st[i := x])) < sum_list (map hook_weight st)"
proof (induction st arbitrary: i)
  case (Cons a st)
  then show ?case by (cases i) auto
qed simp

lemma hook_run_decreases: "length (hs_status s) = length hs \<Longrightarrow> hook_run hs s t \<Longrightarrow> hooks_measure t < hooks_measure s"
  by (erule hook_runE) (auto simp: hooks_measure_def weight_update)

text \<open>
  C7. Starting ends once the channels are closed. The hooks cannot run for ever: their steps are
  well-founded. And they stop only when done: in a reachable state in which the channel of every
  hook has been closed, either the program is reported ready or some hook can go on. Without one of
  the channels, say when no node ever becomes ready, it is never reported ready.
\<close>

theorem start_hooks_terminate:
  assumes "reaches (hook_step hs) (hooks_start hs) s"
  shows "wfp (\<lambda>t s. length (hs_status s) = length hs \<and> hook_run hs s t) \<and>
    ((\<forall>h \<in> set hs. may_start h s) \<longrightarrow> hs_ready s \<or> (\<exists>t. hook_run hs s t)) \<and>
    (\<forall>h \<in> set hs. \<not> may_start h s \<longrightarrow> \<not> hs_ready s)"
proof (intro conjI impI ballI)
  show "wfp (\<lambda>t s. length (hs_status s) = length hs \<and> hook_run hs s t)"
    by (rule wfp_if_convertible_to_nat [where f = hooks_measure]) (auto simp: hook_run_decreases)
  have inv: "hooks_inv hs s" by (rule starting.inv_reaches [OF assms])
  show "\<not> hs_ready s" if "h \<in> set hs" "\<not> may_start h s" for h
    using that inv fin_may_start by blast
  assume open_all: "\<forall>h \<in> set hs. may_start h s"
  show "hs_ready s \<or> (\<exists>t. hook_run hs s t)"
  proof (cases "\<forall>x \<in> set (hs_status s). x = Finished")
    case True
    then have "hs_wg s = 0" using inv by (simp add: hooks_inv_def unfinished_0)
    then show ?thesis using run_ready by blast
  next
    case False
    then obtain i where i: "i < length hs" "hs_status s ! i \<noteq> Finished" using inv by (auto simp: hooks_inv_def in_set_conv_nth)
    then have "may_start (hs ! i) s" using open_all by simp
    then show ?thesis using i run_start run_finish by (cases "hs_status s ! i") blast+
  qed
qed

text \<open>The two theorems at a hook that waits for no channel and fails.\<close>

lemma example_hooks_reach:
  defines "h \<equiv> startHook ''h'' None (Some EOF)"
  shows "reaches (hook_step [h]) (hooks_start [h])
    \<lparr>hs_status = [Finished], hs_closed = [], hs_wg = 0, hs_ready = True, hs_errs = [EOF]\<rparr>"
proof -
  let ?s = "\<lambda>st wg r es. \<lparr>hs_status = [st], hs_closed = [], hs_wg = wg, hs_ready = r, hs_errs = es\<rparr>"
  have "hook_run [h] (?s Waiting 1 False []) (?s Running 1 False [])"
    using run_start [of 0 "[h]" "?s Waiting 1 False []"] by (simp add: h_def startHook_def may_start_def)
  moreover have "hook_run [h] (?s Running 1 False []) (?s Finished 0 False [EOF])"
    using run_finish [of 0 "[h]" "?s Running 1 False []"] by (simp add: h_def startHook_def)
  moreover have "hook_run [h] (?s Finished 0 False [EOF]) (?s Finished 0 True [EOF])"
    using run_ready [of "?s Finished 0 False [EOF]" "[h]"] by simp
  ultimately show ?thesis
    by (metis (no_types, lifting) hooks_start_def list.simps(8,9) length_Cons list.size(3) One_nat_def reaches_refl reaches_step step_run)
qed

theorem ready_after_all_hooks_witness:
  "mset [EOF] = all_errors [startHook ''h'' None (Some EOF)]"
  using ready_after_all_hooks [OF example_hooks_reach] by simp

theorem start_hooks_terminate_witness:
  "wfp (\<lambda>t s. length (hs_status s) = 1 \<and> hook_run [startHook ''h'' None (Some EOF)] s t)"
  using start_hooks_terminate [OF example_hooks_reach] by simp

end
