(* ===== verification/Lifecycle.thy ===== *)
theory Lifecycle
  imports Start_Hooks
begin

text \<open>
  The life of the process around the API server (\<^verbatim>\<open>apiserver.Run\<close> inside \<^verbatim>\<open>With\<close>, \<^verbatim>\<open>runEHook\<close> and \<^verbatim>\<open>RunE\<close> of
  \<^verbatim>\<open>src/pkg/command.go\<close>): the start hooks, the three components started beside the server, the
  goroutine that injects handlers and registers the stop hook, the channels they wait for, the
  shutdown of the server and the end of the storage. \<open>Start_Hooks\<close> looks at the start hooks alone, with
  channels closed from outside; here the channels are closed by the program itself. A state is what
  the goroutines share, a step is one goroutine getting on, and an interleaving is a path.
\<close>

section \<open>States and steps\<close>

datatype chan = HostnameReady | KubeconfigReady | NodeReady | PathsProvided | KubeletServer | DrainDone | StartHooksDone

datatype phase = Serving | Draining | Stopped | Returned

record life =
  lf_start :: "hook_status list"
  lf_run :: "hook_status list"
  lf_closed :: "chan set"
  lf_startWg :: nat
  lf_runWg :: nat
  lf_errs :: "error list"
  lf_ctx :: bool
  lf_injected :: bool
  lf_paths :: "string list"
  lf_stopHook :: bool
  lf_phase :: phase
  lf_storage :: bool

text \<open>The start hooks in the order of \<^verbatim>\<open>RunE\<close> with the channels they wait for; the first is \<^verbatim>\<open>update-kubeconfig\<close>.
  The components are the controller manager, the scheduler and the kubelet; they wait for the kubeconfig.\<close>

definition start_waits :: "chan list" where
  "start_waits = [HostnameReady, KubeconfigReady, KubeconfigReady, NodeReady, NodeReady, PathsProvided, KubeconfigReady]"

definition life_start :: life where
  "life_start = \<lparr>lf_start = replicate 7 Waiting, lf_run = replicate 3 Waiting, lf_closed = {}, lf_startWg = 7, lf_runWg = 3,
     lf_errs = [], lf_ctx = False, lf_injected = False, lf_paths = [], lf_stopHook = False, lf_phase = Serving, lf_storage = False\<rparr>"

text \<open>The end of a hook or component: an error is reported by cancelling the process, and the wait group
  counts down in any case.\<close>

definition report :: "error option \<Rightarrow> life \<Rightarrow> life" where
  "report r s = (case r of None \<Rightarrow> s | Some e \<Rightarrow> s\<lparr>lf_errs := lf_errs s @ [e], lf_ctx := True\<rparr>)"

definition close_chan :: "chan \<Rightarrow> life \<Rightarrow> life" where
  "close_chan ch s = s\<lparr>lf_closed := insert ch (lf_closed s)\<rparr>"

definition hook_ends :: "nat \<Rightarrow> error option \<Rightarrow> life \<Rightarrow> life" where
  "hook_ends i r s = report r (s\<lparr>lf_start := (lf_start s)[i := Finished], lf_startWg := lf_startWg s - 1\<rparr>)"

definition component_ends :: "nat \<Rightarrow> error option \<Rightarrow> life \<Rightarrow> life" where
  "component_ends j r s = report r (s\<lparr>lf_run := (lf_run s)[j := Finished], lf_runWg := lf_runWg s - 1\<rparr>)"

text \<open>The paths served beside those of the API server: those of the storage, the fixed ones of the kubelet, and
  the roots of the backends' services. \<open>storage\<close> and \<open>services\<close> are what those two report. The channel is
  closed when the goroutine ends. A stop hook can be registered until the server calls them.\<close>

definition kubelet_paths :: "string list" where
  "kubelet_paths = [''/attach/'', ''/checkpoint/'', ''/containerLogs/'', ''/debug/'', ''/exec/'', ''/logs/'', ''/metrics/'', ''/pods/'',
     ''/portForward/'', ''/run/'', ''/runningpods/'', ''/stats/'']"

definition inject_handlers :: "string list \<Rightarrow> string list \<Rightarrow> life \<Rightarrow> life" where
  "inject_handlers storage services s =
     close_chan PathsProvided (s\<lparr>lf_paths := lf_paths s @ storage @ kubelet_paths @ services, lf_injected := True,
       lf_stopHook := lf_stopHook s \<or> lf_phase s = Serving\<rparr>)"

text \<open>Getting ready: what the program does of itself while nothing fails. \<^verbatim>\<open>update-kubeconfig\<close> closes its
  channel before it returns without an error; the kubelet provides its server when it starts and
  later reports its node ready.\<close>

inductive life_go :: "life \<Rightarrow> life \<Rightarrow> bool" where
  hook_begin: "i < 7 \<Longrightarrow> lf_start s ! i = Waiting \<Longrightarrow> start_waits ! i \<in> lf_closed s \<Longrightarrow>
    life_go s (s\<lparr>lf_start := (lf_start s)[i := Running]\<rparr>)"
| kubeconfig_ready: "lf_start s ! 0 = Running \<Longrightarrow> KubeconfigReady \<notin> lf_closed s \<Longrightarrow> life_go s (close_chan KubeconfigReady s)"
| hook_end: "i < 7 \<Longrightarrow> lf_start s ! i = Running \<Longrightarrow> (i = 0 \<longrightarrow> KubeconfigReady \<in> lf_closed s) \<Longrightarrow> life_go s (hook_ends i None s)"
| hooks_done: "lf_startWg s = 0 \<Longrightarrow> StartHooksDone \<notin> lf_closed s \<Longrightarrow> life_go s (close_chan StartHooksDone s)"
| component_begin: "j < 3 \<Longrightarrow> lf_run s ! j = Waiting \<Longrightarrow> KubeconfigReady \<in> lf_closed s \<Longrightarrow>
    life_go s (s\<lparr>lf_run := (lf_run s)[j := Running]\<rparr>)"
| kubelet_serves: "lf_run s ! 2 = Running \<Longrightarrow> KubeletServer \<notin> lf_closed s \<Longrightarrow> life_go s (close_chan KubeletServer s)"
| node_ready: "lf_run s ! 2 = Running \<Longrightarrow> KubeletServer \<in> lf_closed s \<Longrightarrow> NodeReady \<notin> lf_closed s \<Longrightarrow> life_go s (close_chan NodeReady s)"
| inject: "\<not> lf_injected s \<Longrightarrow> KubeletServer \<in> lf_closed s \<or> lf_ctx s \<Longrightarrow> life_go s (inject_handlers storage services s)"

text \<open>All steps: also what comes from outside (the tunnel has its name, a signal ends the context, the
  server fails), hooks that fail (\<^verbatim>\<open>update-kubeconfig\<close> only without having closed its channel),
  components that end, and the shutdown: the server runs the stop hook, whose drain closes its channel on
  every path, its \<^verbatim>\<open>Run\<close> returns, and once both wait groups are down the storage is cancelled.\<close>

inductive life_step :: "life \<Rightarrow> life \<Rightarrow> bool" where
  go: "life_go s t \<Longrightarrow> life_step s t"
| hostname_ready: "life_step s (close_chan HostnameReady s)"
| context_ends: "life_step s (s\<lparr>lf_ctx := True\<rparr>)"
| hook_fails: "i < 7 \<Longrightarrow> lf_start s ! i = Running \<Longrightarrow> (i = 0 \<longrightarrow> KubeconfigReady \<notin> lf_closed s) \<Longrightarrow> life_step s (hook_ends i (Some e) s)"
| component_end: "j < 3 \<Longrightarrow> lf_run s ! j = Running \<Longrightarrow> life_step s (component_ends j r s)"
| server_fails: "lf_phase s = Serving \<Longrightarrow> life_step s (s\<lparr>lf_phase := Stopped\<rparr>)"
| shutdown: "lf_phase s = Serving \<Longrightarrow> lf_ctx s \<Longrightarrow> life_step s (s\<lparr>lf_phase := Draining\<rparr>)"
| drained: "lf_phase s = Draining \<Longrightarrow>
    life_step s ((if lf_stopHook s then close_chan DrainDone s else s)\<lparr>lf_phase := Stopped\<rparr>)"
| run_returns: "lf_phase s = Stopped \<Longrightarrow> lf_startWg s = 0 \<Longrightarrow> lf_runWg s = 0 \<Longrightarrow>
    life_step s (s\<lparr>lf_phase := Returned, lf_storage := True\<rparr>)"

section \<open>What holds throughout\<close>

text \<open>A goroutine that is past its wait saw its channel closed.\<close>

definition passed :: "chan list \<Rightarrow> hook_status list \<Rightarrow> chan set \<Rightarrow> bool" where
  "passed chs st cl \<longleftrightarrow> (\<forall>i < length st. st ! i \<noteq> Waiting \<longrightarrow> chs ! i \<in> cl)"

definition life_inv :: "life \<Rightarrow> bool" where
  "life_inv s \<longleftrightarrow> length (lf_start s) = 7 \<and> length (lf_run s) = 3 \<and>
     lf_startWg s = unfinished (lf_start s) \<and> lf_runWg s = unfinished (lf_run s) \<and>
     passed start_waits (lf_start s) (lf_closed s) \<and> passed (replicate 3 KubeconfigReady) (lf_run s) (lf_closed s) \<and>
     (lf_start s ! 0 = Finished \<longrightarrow> KubeconfigReady \<in> lf_closed s \<or> lf_ctx s) \<and>
     (PathsProvided \<in> lf_closed s \<longleftrightarrow> lf_injected s) \<and> (lf_injected s \<longrightarrow> set kubelet_paths \<subseteq> set (lf_paths s)) \<and>
     (NodeReady \<in> lf_closed s \<longrightarrow> KubeletServer \<in> lf_closed s) \<and> (KubeletServer \<in> lf_closed s \<longrightarrow> KubeconfigReady \<in> lf_closed s) \<and>
     (KubeconfigReady \<in> lf_closed s \<longrightarrow> HostnameReady \<in> lf_closed s) \<and>
     (lf_storage s \<longleftrightarrow> lf_phase s = Returned) \<and> (lf_phase s = Returned \<longrightarrow> unfinished (lf_start s) = 0 \<and> unfinished (lf_run s) = 0)"

lemma report_simps [simp]:
  "lf_start (report r s) = lf_start s" "lf_run (report r s) = lf_run s" "lf_closed (report r s) = lf_closed s"
  "lf_startWg (report r s) = lf_startWg s" "lf_runWg (report r s) = lf_runWg s" "lf_injected (report r s) = lf_injected s"
  "lf_phase (report r s) = lf_phase s" "lf_storage (report r s) = lf_storage s" "lf_ctx (report r s) \<longleftrightarrow> lf_ctx s \<or> r \<noteq> None"
  by (simp_all add: report_def split: option.splits)

lemma passed_insert: "passed chs st cl \<Longrightarrow> passed chs st (insert ch cl)"
  by (auto simp: passed_def)

lemma passed_update: "passed chs st cl \<Longrightarrow> chs ! i \<in> cl \<Longrightarrow> passed chs (st[i := x]) cl"
  unfolding passed_def by (metis length_list_update nth_list_update_eq nth_list_update_neq)

lemma passedD: "passed chs st cl \<Longrightarrow> i < length st \<Longrightarrow> st ! i \<noteq> Waiting \<Longrightarrow> chs ! i \<in> cl"
  by (simp add: passed_def)

lemma start_waits_0 [simp]: "start_waits ! 0 = HostnameReady"
  by (simp add: start_waits_def)

text \<open>Closing a channel and starting or ending a goroutine keep the invariant.\<close>

lemma inv_close:
  assumes "life_inv s" "ch \<noteq> PathsProvided" "ch = NodeReady \<longrightarrow> KubeletServer \<in> lf_closed s" "ch = KubeletServer \<longrightarrow> KubeconfigReady \<in> lf_closed s"
    "ch = KubeconfigReady \<longrightarrow> HostnameReady \<in> lf_closed s"
  shows "life_inv (close_chan ch s)"
  using assms by (simp add: life_inv_def close_chan_def passed_insert)

lemma inv_hook:
  assumes "life_inv s" "i < 7" "lf_start s ! i \<noteq> Finished" "start_waits ! i \<in> lf_closed s"
    "i = 0 \<longrightarrow> x = Finished \<longrightarrow> KubeconfigReady \<in> lf_closed s \<or> c"
  shows "life_inv (s\<lparr>lf_start := (lf_start s)[i := x], lf_startWg := lf_startWg s - (if x = Finished then 1 else 0), lf_errs := es, lf_ctx := lf_ctx s \<or> c\<rparr>)"
proof -
  have len: "i < length (lf_start s)" using assms(1,2) by (simp add: life_inv_def)
  have "passed start_waits ((lf_start s)[i := x]) (lf_closed s)" using assms(1,4) passed_update by (simp add: life_inv_def)
  with assms unfinished_update [OF len assms(3), of x] show ?thesis by (auto simp: life_inv_def nth_list_update)
qed

lemma inv_component:
  assumes "life_inv s" "j < 3" "lf_run s ! j \<noteq> Finished" "KubeconfigReady \<in> lf_closed s"
  shows "life_inv (s\<lparr>lf_run := (lf_run s)[j := x], lf_runWg := lf_runWg s - (if x = Finished then 1 else 0), lf_errs := es, lf_ctx := lf_ctx s \<or> c\<rparr>)"
proof -
  have len: "j < length (lf_run s)" using assms(1,2) by (simp add: life_inv_def)
  have "replicate 3 KubeconfigReady ! j \<in> lf_closed s" using assms(2,4) by simp
  then have "passed (replicate 3 KubeconfigReady) ((lf_run s)[j := x]) (lf_closed s)" using assms(1) passed_update by (simp add: life_inv_def)
  with assms unfinished_update [OF len assms(3), of x] show ?thesis by (auto simp: life_inv_def)
qed

lemma running_saw:
  assumes "life_inv s"
  shows "i < 7 \<Longrightarrow> lf_start s ! i \<noteq> Waiting \<Longrightarrow> start_waits ! i \<in> lf_closed s"
    "j < 3 \<Longrightarrow> lf_run s ! j \<noteq> Waiting \<Longrightarrow> KubeconfigReady \<in> lf_closed s"
  using assms passedD [of start_waits "lf_start s" "lf_closed s" i] passedD [of "replicate 3 KubeconfigReady" "lf_run s" "lf_closed s" j]
  by (auto simp: life_inv_def)

lemma hook_ends_alt:
  "hook_ends i r s = s\<lparr>lf_start := (lf_start s)[i := Finished], lf_startWg := lf_startWg s - (if Finished = Finished then 1 else 0),
     lf_errs := lf_errs s @ (case r of None \<Rightarrow> [] | Some e \<Rightarrow> [e]), lf_ctx := lf_ctx s \<or> r \<noteq> None\<rparr>"
  by (simp add: hook_ends_def report_def split: option.splits)

lemma component_ends_alt:
  "component_ends j r s = s\<lparr>lf_run := (lf_run s)[j := Finished], lf_runWg := lf_runWg s - (if Finished = Finished then 1 else 0),
     lf_errs := lf_errs s @ (case r of None \<Rightarrow> [] | Some e \<Rightarrow> [e]), lf_ctx := lf_ctx s \<or> r \<noteq> None\<rparr>"
  by (simp add: component_ends_def report_def split: option.splits)

lemma inv_go:
  assumes inv: "life_inv s" and "life_go s t"
  shows "life_inv t"
  using assms(2)
proof cases
  case (hook_begin i)
  then show ?thesis using inv_hook [OF inv, where i = i and x = Running and c = False and es = "lf_errs s"] by simp
next
  case kubeconfig_ready
  then show ?thesis using inv_close [OF inv] running_saw(1) [OF inv, of 0] by simp
next
  case (hook_end i)
  then show ?thesis using inv_hook [OF inv, where i = i and x = Finished and c = False and es = "lf_errs s"] running_saw(1) [OF inv, of i] by (simp add: hook_ends_alt)
next
  case hooks_done
  then show ?thesis using inv_close [OF inv] by simp
next
  case (component_begin j)
  then show ?thesis using inv_component [OF inv, where j = j and x = Running and es = "lf_errs s" and c = False] by simp
next
  case kubelet_serves
  then show ?thesis using inv_close [OF inv] running_saw(2) [OF inv, of 2] by simp
next
  case node_ready
  then show ?thesis using inv_close [OF inv] by simp
next
  case (inject storage services)
  moreover have "set kubelet_paths \<subseteq> set (lf_paths s @ storage @ kubelet_paths @ services)" by auto
  ultimately show ?thesis using inv by (simp add: life_inv_def inject_handlers_def close_chan_def passed_insert)
qed

lemma life_inv_step:
  assumes inv: "life_inv s" and "life_step s t"
  shows "life_inv t"
  using assms(2)
proof cases
  case go
  then show ?thesis using inv inv_go by blast
next
  case hostname_ready
  then show ?thesis using inv_close [OF inv] by simp
next
  case (hook_fails i e)
  then show ?thesis using inv_hook [OF inv, where i = i and x = Finished and c = True] running_saw(1) [OF inv, of i] by (simp add: hook_ends_alt)
next
  case (component_end j r)
  then show ?thesis using inv_component [OF inv, where j = j and x = Finished and c = "r \<noteq> None"] running_saw(2) [OF inv, of j] by (simp add: component_ends_alt)
next
  case drained
  then show ?thesis using inv inv_close [OF inv, of DrainDone] by (simp add: life_inv_def close_chan_def)
qed (use inv in \<open>auto simp: life_inv_def\<close>)

lemma life_inv_start: "life_inv life_start"
  by (simp add: life_inv_def life_start_def unfinished_def passed_def)

interpretation living: invariant_system life_step life_start life_inv
  by unfold_locales (rule life_inv_start, rule life_inv_step)

section \<open>The storage outlives its users\<close>

lemma all_passed:
  assumes "passed chs st cl" "unfinished st = 0" "length st = length chs"
  shows "set chs \<subseteq> cl"
proof
  fix ch assume "ch \<in> set chs"
  then obtain i where "i < length st" "ch = chs ! i" using assms(3) by (auto simp: in_set_conv_nth)
  moreover from this have "st ! i = Finished" using assms(2) by (simp add: unfinished_0)
  ultimately show "ch \<in> cl" using assms(1) passedD [of chs st cl i] by simp
qed

text \<open>
  C18. The storage is cancelled last. In every interleaving, once the storage of the API server has been
  cancelled, the server's own \<^verbatim>\<open>Run\<close> has returned and every start hook and every component beside the
  server has ended, so none of them sees its objects disappear; and every start hook had started,
  so the tunnel had its name, the kubeconfig was written, the node had become ready and the paths
  were known.
\<close>

theorem storage_outlives_components:
  assumes "reaches life_step life_start s" "lf_storage s"
  shows "lf_phase s = Returned \<and> (\<forall>x \<in> set (lf_start s) \<union> set (lf_run s). x = Finished) \<and> set start_waits \<subseteq> lf_closed s"
proof -
  have inv: "life_inv s" by (rule living.inv_reaches [OF assms(1)])
  then have u: "unfinished (lf_start s) = 0" "unfinished (lf_run s) = 0" "lf_phase s = Returned" using assms(2) by (simp_all add: life_inv_def)
  moreover have "set start_waits \<subseteq> lf_closed s"
    using inv u(1) by (intro all_passed [of _ "lf_start s"]) (simp_all add: life_inv_def start_waits_def)
  ultimately show ?thesis by (auto simp: unfinished_0)
qed

section \<open>Starting does not deadlock\<close>

definition life_measure :: "life \<Rightarrow> nat" where
  "life_measure s = sum_list (map hook_weight (lf_start s)) + sum_list (map hook_weight (lf_run s)) +
     length (filter (\<lambda>ch. ch \<notin> lf_closed s) [KubeconfigReady, NodeReady, KubeletServer, StartHooksDone, PathsProvided]) + (if lf_injected s then 0 else 1)"

lemma go_decreases:
  assumes "life_inv s" "life_go s t"
  shows "life_measure t < life_measure s"
proof -
  have len: "length (lf_start s) = 7" "length (lf_run s) = 3" using assms(1) by (simp_all add: life_inv_def)
  show ?thesis using assms(2)
  proof cases
    case (hook_begin i)
    then show ?thesis using weight_update [of i "lf_start s" Running] len by (simp add: life_measure_def)
  next
    case (hook_end i)
    then show ?thesis using weight_update [of i "lf_start s" Finished] len by (simp add: life_measure_def hook_ends_alt)
  next
    case (component_begin j)
    then show ?thesis using weight_update [of j "lf_run s" Running] len by (simp add: life_measure_def)
  qed (simp_all add: life_measure_def close_chan_def inject_handlers_def)
qed

text \<open>While nothing fails the program can always go on until it is ready.\<close>

definition starting_well :: "life \<Rightarrow> bool" where
  "starting_well s \<longleftrightarrow> life_inv s \<and> \<not> lf_ctx s \<and> HostnameReady \<in> lf_closed s \<and> lf_run s ! 2 \<noteq> Finished"

lemma channels_come:
  assumes "starting_well s" "\<nexists>t. life_go s t"
  shows "set start_waits \<subseteq> lf_closed s"
proof -
  have inv: "life_inv s" "\<not> lf_ctx s" "HostnameReady \<in> lf_closed s" "lf_run s ! 2 \<noteq> Finished" using assms(1) by (simp_all add: starting_well_def)
  have k: "KubeconfigReady \<in> lf_closed s"
  proof (cases "lf_start s ! 0")
    case Waiting
    then show ?thesis using hook_begin [of 0 s] inv(3) assms(2) by auto
  next
    case Running
    then show ?thesis using kubeconfig_ready [of s] assms(2) by auto
  next
    case Finished
    then show ?thesis using inv(1,2) by (simp add: life_inv_def)
  qed
  then have r: "lf_run s ! 2 = Running" using component_begin [of 2 s] assms(2) inv(4) by (cases "lf_run s ! 2") auto
  have ks: "KubeletServer \<in> lf_closed s" using kubelet_serves [OF r] assms(2) by blast
  moreover have "NodeReady \<in> lf_closed s" using node_ready [OF r ks] assms(2) by blast
  moreover have "PathsProvided \<in> lf_closed s" using inject [of s] ks assms(2) inv(1) unfolding life_inv_def by blast
  ultimately show ?thesis using k inv(3) by (simp add: start_waits_def)
qed

lemma ready_or_go:
  assumes "starting_well s"
  shows "StartHooksDone \<in> lf_closed s \<or> (\<exists>t. life_go s t)"
proof (rule ccontr)
  assume stuck: "\<not> ?thesis"
  then have ch: "set start_waits \<subseteq> lf_closed s" using channels_come [OF assms] by blast
  have inv: "life_inv s" using assms by (simp add: starting_well_def)
  have "lf_start s ! i = Finished" if "i < 7" for i
  proof (rule ccontr)
    have "start_waits ! i \<in> lf_closed s" using ch that nth_mem [of i start_waits] by (auto simp: start_waits_def)
    moreover have "i = 0 \<longrightarrow> KubeconfigReady \<in> lf_closed s" using ch by (simp add: start_waits_def)
    moreover assume "lf_start s ! i \<noteq> Finished"
    ultimately show False using hook_begin [of i s] hook_end [of i s] that stuck by (cases "lf_start s ! i") auto
  qed
  then have "lf_startWg s = 0" using inv by (auto simp: life_inv_def unfinished_0 in_set_conv_nth)
  then show False using hooks_done stuck by blast
qed

text \<open>A goroutine that moves does not change one in another state.\<close>

lemma update_keeps: "st ! i \<noteq> st ! k \<Longrightarrow> st[i := x] ! k = st ! k"
  by (cases "i = k") auto

lemma starting_well_go:
  assumes "starting_well s" "life_go s t"
  shows "starting_well t"
proof -
  have s: "life_inv s" "\<not> lf_ctx s" "HostnameReady \<in> lf_closed s" "lf_run s ! 2 \<noteq> Finished" using assms(1) by (simp_all add: starting_well_def)
  have len: "length (lf_run s) = 3" using s(1) by (simp add: life_inv_def)
  have "\<not> lf_ctx t \<and> HostnameReady \<in> lf_closed t \<and> lf_run t ! 2 \<noteq> Finished"
    using assms(2)
  proof cases
    case (component_begin j)
    then show ?thesis using s(2-4) len by (cases "j = 2") simp_all
  qed (use s(2-4) in \<open>simp_all add: close_chan_def hook_ends_alt inject_handlers_def\<close>)
  then show ?thesis using inv_go [OF s(1) assms(2)] by (simp add: starting_well_def)
qed

lemma starting_well_reaches: "reaches life_go s t \<Longrightarrow> starting_well s \<Longrightarrow> starting_well t"
  by (induction rule: reaches.induct) (auto intro: starting_well_go)


section \<open>A failed start\<close>

text \<open>Without the kubeconfig the second hook waits, whatever else happens.\<close>

definition no_kubeconfig :: "life \<Rightarrow> bool" where
  "no_kubeconfig s \<longleftrightarrow> life_inv s \<and> lf_start s ! 0 = Finished \<and> KubeconfigReady \<notin> lf_closed s"

lemma no_kubeconfig_waits:
  assumes "no_kubeconfig s"
  shows "lf_start s ! 1 = Waiting \<and> lf_startWg s \<noteq> 0 \<and> lf_phase s \<noteq> Returned \<and> \<not> lf_storage s"
proof -
  have inv: "life_inv s" using assms by (simp add: no_kubeconfig_def)
  have w: "lf_start s ! 1 = Waiting" using running_saw(1) [OF inv, of 1] assms by (auto simp: no_kubeconfig_def start_waits_def)
  have "1 < length (lf_start s)" using inv by (simp add: life_inv_def)
  with w have "unfinished (lf_start s) \<noteq> 0" using nth_mem [of 1 "lf_start s"] by (auto simp: unfinished_0)
  with w inv show ?thesis unfolding life_inv_def by simp
qed

lemma no_kubeconfig_step:
  assumes "no_kubeconfig s" "life_step s t"
  shows "no_kubeconfig t"
proof -
  have inv: "life_inv s" "lf_start s ! 0 = Finished" "KubeconfigReady \<notin> lf_closed s" using assms(1) by (simp_all add: no_kubeconfig_def)
  have "life_inv t" by (rule life_inv_step [OF inv(1) assms(2)])
  moreover have "lf_start t ! 0 = Finished \<and> KubeconfigReady \<notin> lf_closed t" using assms(2)
  proof cases
    case go
    then show ?thesis using inv(2,3) update_keeps [of "lf_start s" _ 0]
      by cases (auto simp: close_chan_def hook_ends_alt inject_handlers_def)
  next
    case (hook_fails i e)
    then show ?thesis using inv(2,3) update_keeps [of "lf_start s" i 0] by (simp add: hook_ends_alt)
  qed (use inv(2,3) in \<open>auto simp: close_chan_def component_ends_alt\<close>)
  ultimately show ?thesis by (simp add: no_kubeconfig_def)
qed

lemma no_kubeconfig_reaches: "reaches life_step s t \<Longrightarrow> no_kubeconfig s \<Longrightarrow> no_kubeconfig t"
  by (induction rule: reaches.induct) (auto intro: no_kubeconfig_step)

text \<open>
  C40. A start that fails before the kubeconfig is written never ends. When \<^verbatim>\<open>update-kubeconfig\<close> has ended
  without closing its channel, because the context ended while it was polling, then in every
  continuation the hooks behind it wait for ever: they do not look at the context. The wait group is
  never down, so the API server's \<^verbatim>\<open>Run\<close> does not return even after the server itself was shut down, and
  the storage is never cancelled.
\<close>

theorem failed_start_never_returns:
  assumes "reaches life_step life_start s" "lf_start s ! 0 = Finished" "KubeconfigReady \<notin> lf_closed s" "reaches life_step s t"
  shows "lf_start t ! 1 = Waiting \<and> lf_startWg t \<noteq> 0 \<and> lf_phase t \<noteq> Returned \<and> \<not> lf_storage t"
proof -
  have "no_kubeconfig s" using assms(2,3) living.inv_reaches [OF assms(1)] by (simp add: no_kubeconfig_def)
  then show ?thesis using no_kubeconfig_reaches [OF assms(4)] no_kubeconfig_waits by blast
qed

section \<open>The paths the roles are made for\<close>

lemma paths_final_step:
  assumes "life_inv s" "lf_injected s" "life_step s t"
  shows "lf_injected t \<and> lf_paths t = lf_paths s"
  using assms(3)
proof cases
  case go
  then show ?thesis using assms(2) by cases (simp_all add: close_chan_def hook_ends_alt)
qed (use assms(2) in \<open>simp_all add: close_chan_def hook_ends_alt component_ends_alt\<close>)

lemma paths_final: "reaches life_step s t \<Longrightarrow> life_inv s \<Longrightarrow> lf_injected s \<Longrightarrow> life_inv t \<and> lf_injected t \<and> lf_paths t = lf_paths s"
proof (induction rule: reaches.induct)
  case (reaches_step t u)
  then show ?case using paths_final_step [of t u] life_inv_step [of t u] by simp
qed simp


section \<open>Running the life\<close>

text \<open>The steps as a function of who moves, to follow a given interleaving.\<close>

datatype life_act = HookBegin nat | KubeconfigWritten | HookEnd nat "error option" | HooksDone | ComponentBegin nat | KubeletServes
  | NodeBecomesReady | Inject "string list" "string list" | HostnameKnown | ContextEnds | ComponentEnd nat "error option" | ServerFails | Shutdown | Drained | RunReturns

fun life_exec :: "life_act \<Rightarrow> life \<Rightarrow> life option" where
  "life_exec (HookBegin i) s =
     (if i < 7 \<and> lf_start s ! i = Waiting \<and> start_waits ! i \<in> lf_closed s then Some (s\<lparr>lf_start := (lf_start s)[i := Running]\<rparr>) else None)"
| "life_exec KubeconfigWritten s =
     (if lf_start s ! 0 = Running \<and> KubeconfigReady \<notin> lf_closed s then Some (close_chan KubeconfigReady s) else None)"
| "life_exec (HookEnd i r) s =
     (if i < 7 \<and> lf_start s ! i = Running \<and> (i = 0 \<longrightarrow> (r = None \<longleftrightarrow> KubeconfigReady \<in> lf_closed s)) then Some (hook_ends i r s) else None)"
| "life_exec HooksDone s = (if lf_startWg s = 0 \<and> StartHooksDone \<notin> lf_closed s then Some (close_chan StartHooksDone s) else None)"
| "life_exec (ComponentBegin j) s =
     (if j < 3 \<and> lf_run s ! j = Waiting \<and> KubeconfigReady \<in> lf_closed s then Some (s\<lparr>lf_run := (lf_run s)[j := Running]\<rparr>) else None)"
| "life_exec KubeletServes s = (if lf_run s ! 2 = Running \<and> KubeletServer \<notin> lf_closed s then Some (close_chan KubeletServer s) else None)"
| "life_exec NodeBecomesReady s =
     (if lf_run s ! 2 = Running \<and> KubeletServer \<in> lf_closed s \<and> NodeReady \<notin> lf_closed s then Some (close_chan NodeReady s) else None)"
| "life_exec (Inject storage services) s = (if \<not> lf_injected s \<and> (KubeletServer \<in> lf_closed s \<or> lf_ctx s) then Some (inject_handlers storage services s) else None)"
| "life_exec HostnameKnown s = Some (close_chan HostnameReady s)"
| "life_exec ContextEnds s = Some (s\<lparr>lf_ctx := True\<rparr>)"
| "life_exec (ComponentEnd j r) s = (if j < 3 \<and> lf_run s ! j = Running then Some (component_ends j r s) else None)"
| "life_exec ServerFails s = (if lf_phase s = Serving then Some (s\<lparr>lf_phase := Stopped\<rparr>) else None)"
| "life_exec Shutdown s = (if lf_phase s = Serving \<and> lf_ctx s then Some (s\<lparr>lf_phase := Draining\<rparr>) else None)"
| "life_exec Drained s =
     (if lf_phase s = Draining then Some ((if lf_stopHook s then close_chan DrainDone s else s)\<lparr>lf_phase := Stopped\<rparr>) else None)"
| "life_exec RunReturns s =
     (if lf_phase s = Stopped \<and> lf_startWg s = 0 \<and> lf_runWg s = 0 then Some (s\<lparr>lf_phase := Returned, lf_storage := True\<rparr>) else None)"

lemma life_exec_sound: "life_exec a s = Some t \<Longrightarrow> life_step s t"
proof (cases a)
  case (HookEnd i r)
  assume "life_exec a s = Some t"
  then show ?thesis using HookEnd by (cases r) (auto split: if_splits intro: go life_go.intros life_step.intros)
next
  case Drained
  assume "life_exec a s = Some t"
  then show ?thesis using Drained drained [of s] by (auto split: if_splits)
qed (auto split: if_splits intro: go life_go.intros life_step.intros)

lemma life_exec_complete: "life_step s t \<Longrightarrow> \<exists>a. life_exec a s = Some t"
proof (induction rule: life_step.induct)
  case (go s t)
  then show ?case
  proof cases
    case (hook_begin i)
    then show ?thesis by (intro exI [of _ "HookBegin i"]) simp
  next
    case kubeconfig_ready
    then show ?thesis by (intro exI [of _ KubeconfigWritten]) simp
  next
    case (hook_end i)
    then show ?thesis by (intro exI [of _ "HookEnd i None"]) simp
  next
    case hooks_done
    then show ?thesis by (intro exI [of _ HooksDone]) simp
  next
    case (component_begin j)
    then show ?thesis by (intro exI [of _ "ComponentBegin j"]) simp
  next
    case kubelet_serves
    then show ?thesis by (intro exI [of _ KubeletServes]) simp
  next
    case node_ready
    then show ?thesis by (intro exI [of _ NodeBecomesReady]) simp
  next
    case (inject storage services)
    then show ?thesis by (intro exI [of _ "Inject storage services"]) simp
  qed
next
  case (hostname_ready s)
  show ?case by (intro exI [of _ HostnameKnown]) simp
next
  case (context_ends s)
  show ?case by (intro exI [of _ ContextEnds]) simp
next
  case (hook_fails i s e)
  then show ?case by (intro exI [of _ "HookEnd i (Some e)"]) simp
next
  case (component_end j s r)
  then show ?case by (intro exI [of _ "ComponentEnd j r"]) simp
next
  case (server_fails s)
  then show ?case by (intro exI [of _ ServerFails]) simp
next
  case (shutdown s)
  then show ?case by (intro exI [of _ Shutdown]) simp
next
  case (drained s)
  then show ?case by (intro exI [of _ Drained]) simp
next
  case (run_returns s)
  then show ?case by (intro exI [of _ RunReturns]) simp
qed

fun life_execs :: "life_act list \<Rightarrow> life \<Rightarrow> life option" where
  "life_execs [] s = Some s"
| "life_execs (a # as) s = (case life_exec a s of None \<Rightarrow> None | Some t \<Rightarrow> life_execs as t)"

lemma life_execs_append: "life_execs (as @ bs) s = (case life_execs as s of None \<Rightarrow> None | Some t \<Rightarrow> life_execs bs t)"
  by (induction as arbitrary: s) (simp_all split: option.splits)

lemma life_execs_reaches: "life_execs as s = Some t \<Longrightarrow> reaches life_step s t"
proof (induction as arbitrary: s)
  case (Cons a as)
  then obtain u where u: "life_exec a s = Some u" "life_execs as u = Some t" by (auto split: option.splits)
  have "reaches life_step s u" by (rule reaches_step [of life_step s s u, OF reaches_refl life_exec_sound [OF u(1)]])
  with Cons.IH [OF u(2)] show ?case by (rule reaches_trans)
qed simp

text \<open>A whole life: start, a signal, the drain, the end of the components and the end of the storage; and one
  in which the kubeconfig hook fails.\<close>

definition whole_life :: "life_act list" where
  "whole_life = [HostnameKnown, HookBegin 0, KubeconfigWritten, HookEnd 0 None] @ map ComponentBegin [0, 1, 2] @ [KubeletServes, NodeBecomesReady, Inject [''/raft''] [''/docker'']] @
     map HookBegin [1, 2, 3, 4, 5, 6] @ map (\<lambda>i. HookEnd i None) [1, 2, 3, 4, 5, 6] @ [HooksDone, ContextEnds, Shutdown, Drained] @
     map (\<lambda>j. ComponentEnd j None) [0, 1, 2] @ [RunReturns]"

definition failed_life :: "life_act list" where
  "failed_life = [HostnameKnown, HookBegin 0, ContextEnds, HookEnd 0 (Some EOF)]"

theorem storage_outlives_components_witness:
  "\<exists>s. life_execs whole_life life_start = Some s \<and> lf_storage s \<and> lf_phase s = Returned \<and> NodeReady \<in> lf_closed s"
proof -
  have "map_option lf_storage (life_execs whole_life life_start) = Some True" by code_simp
  then obtain s where s: "life_execs whole_life life_start = Some s" "lf_storage s" by auto
  with storage_outlives_components [OF life_execs_reaches [OF s(1)] s(2)] show ?thesis by (auto simp: start_waits_def)
qed


theorem failed_start_never_returns_witness:
  "\<exists>t. life_execs (failed_life @ [Shutdown, Drained]) life_start = Some t \<and> lf_phase t = Stopped \<and> lf_startWg t \<noteq> 0 \<and> \<not> lf_storage t"
proof -
  have "map_option (\<lambda>s. (lf_start s ! 0 = Finished \<and> KubeconfigReady \<notin> lf_closed s,
      map_option lf_phase (life_execs [Shutdown, Drained] s))) (life_execs failed_life life_start) = Some (True, Some Stopped)" by code_simp
  then obtain s t where s: "life_execs failed_life life_start = Some s" "lf_start s ! 0 = Finished" "KubeconfigReady \<notin> lf_closed s"
      "life_execs [Shutdown, Drained] s = Some t" "lf_phase t = Stopped" by auto
  have "life_execs (failed_life @ [Shutdown, Drained]) life_start = Some t"
    unfolding life_execs_append s(1) using s(4) by simp
  with failed_start_never_returns [OF life_execs_reaches [OF s(1)] s(2,3) life_execs_reaches [OF s(4)]] s(5) show ?thesis by auto
qed


end
