(* ===== verification/Logging.thy ===== *)
theory Logging
  imports Go_Prelude Go_Strings
begin

text \<open>
  What the program logs: the filter that drops the lines of foreign code
  (\<^verbatim>\<open>src/pkg/klogz/klogz.go\<close>) and the logging wrappers around HTTP clients and servers (\<^verbatim>\<open>HTTPLog\<close> in
  \<^verbatim>\<open>src/pkg/nanokube/log.go\<close>).
\<close>

section \<open>Whose line it is\<close>

definition modulePrefix :: string where "modulePrefix = ''github.com/cnuss/nanokube''"
definition shimPrefix :: string where "shimPrefix = ''github.com/cnuss/nanokube/pkg/klogz''"

definition plumbing :: "string \<Rightarrow> bool" where
  "plumbing fn \<longleftrightarrow> strings_HasPrefix fn shimPrefix \<or> strings_HasPrefix fn ''k8s.io/klog'' \<or> strings_HasPrefix fn ''github.com/go-logr''"

text \<open>The loop over the frames of the callers, of which at most 32 are taken. With no frame at all the first
  one is the zero value, whose function name is empty.\<close>

fun scan_frames :: "string list \<Rightarrow> bool" where
  "scan_frames [] = False"
| "scan_frames (fn # more) =
     (if plumbing fn then (if more = [] then False else scan_frames more)
      else if strings_HasPrefix fn modulePrefix then True
      else False)"

definition fromNanokube :: "string list \<Rightarrow> bool" where
  "fromNanokube callers = scan_frames (take 32 callers)"

datatype severity = SevInfo | SevDebug | SevTrace | SevError

record log_event =
  le_severity :: severity
  le_error :: "error option"
  le_logger :: string
  le_fields :: strmap
  le_msg :: string

text \<open>A sink: its name and the fields it adds; \<open>v\<close> is the verbosity of klog.\<close>

record sink =
  sk_name :: string
  sk_values :: strmap

definition Enabled :: "int \<Rightarrow> int \<Rightarrow> bool" where
  "Enabled v level \<longleftrightarrow> level \<le> v"

definition emit :: "sink \<Rightarrow> severity \<Rightarrow> error option \<Rightarrow> string \<Rightarrow> strmap \<Rightarrow> log_event" where
  "emit s sev e msg kv = \<lparr>le_severity = sev, le_error = e, le_logger = sk_name s, le_fields = sk_values s @ kv, le_msg = msg\<rparr>"

definition sink_Info :: "int \<Rightarrow> string list \<Rightarrow> sink \<Rightarrow> int \<Rightarrow> string \<Rightarrow> strmap \<Rightarrow> log_event option" where
  "sink_Info v callers s level msg kv =
     (if level = 0 \<and> \<not> fromNanokube callers then None
      else if \<not> Enabled v level then None
      else Some (emit s (if level \<le> 0 then SevInfo else if level = 1 then SevDebug else SevTrace) None msg kv))"

definition sink_Error :: "sink \<Rightarrow> error \<Rightarrow> string \<Rightarrow> strmap \<Rightarrow> log_event option" where
  "sink_Error s e msg kv = Some (emit s SevError (Some e) msg kv)"

definition sink_WithValues :: "strmap \<Rightarrow> sink \<Rightarrow> sink" where
  "sink_WithValues kv s = s\<lparr>sk_values := sk_values s @ kv\<rparr>"

definition sink_WithName :: "string \<Rightarrow> sink \<Rightarrow> sink" where
  "sink_WithName name s = s\<lparr>sk_name := (if sk_name s \<noteq> [] then sk_name s @ ''.'' @ name else name)\<rparr>"

lemma scan_frames_find:
  "scan_frames fs = (case find (\<lambda>f. \<not> plumbing f) fs of None \<Rightarrow> False | Some f \<Rightarrow> strings_HasPrefix f modulePrefix)"
  by (induction fs) auto

text \<open>
  Only foreign chatter is dropped. A line is written exactly if its level is enabled and it is
  either not unconditional or comes from the program: the first of the 32 nearest callers that is
  not logging plumbing is a function of the program. An error is always written. The severity
  follows the level.
\<close>

theorem only_foreign_lines_dropped:
  "(sink_Info v callers s level msg kv \<noteq> None \<longleftrightarrow>
      level \<le> v \<and> (level = 0 \<longrightarrow> (\<exists>f. find (\<lambda>f. \<not> plumbing f) (take 32 callers) = Some f \<and> strings_HasPrefix f modulePrefix))) \<and>
   (\<forall>e. sink_Info v callers s level msg kv = Some e \<longrightarrow>
      le_msg e = msg \<and> le_logger e = sk_name s \<and> (le_severity e = SevInfo \<longleftrightarrow> level \<le> 0) \<and> (le_severity e = SevTrace \<longleftrightarrow> 1 < level)) \<and>
   (\<exists>e. sink_Error s err msg kv = Some e \<and> le_severity e = SevError \<and> le_error e = Some err)"
  by (auto simp: sink_Info_def sink_Error_def Enabled_def fromNanokube_def scan_frames_find emit_def split: option.splits)

theorem only_foreign_lines_dropped_witness:
  "sink_Info 2 [''k8s.io/klog/v2.InfoS'', ''k8s.io/kubernetes/pkg/kubelet.Run''] \<lparr>sk_name = [], sk_values = []\<rparr> 0 ''hello'' [] = None \<and>
   sink_Info 2 [''k8s.io/klog/v2.InfoS'', ''github.com/cnuss/nanokube/pkg.Run''] \<lparr>sk_name = [], sk_values = []\<rparr> 0 ''hello'' [] \<noteq> None"
proof -
  have p: "plumbing ''k8s.io/klog/v2.InfoS''" "\<not> plumbing ''k8s.io/kubernetes/pkg/kubelet.Run''" "\<not> plumbing ''github.com/cnuss/nanokube/pkg.Run''"
    "\<not> strings_HasPrefix ''k8s.io/kubernetes/pkg/kubelet.Run'' modulePrefix" "strings_HasPrefix ''github.com/cnuss/nanokube/pkg.Run'' modulePrefix"
    by code_simp+
  show ?thesis
    using only_foreign_lines_dropped [of 2 "[''k8s.io/klog/v2.InfoS'', ''k8s.io/kubernetes/pkg/kubelet.Run'']" "\<lparr>sk_name = [], sk_values = []\<rparr>" 0 "''hello''" "[]"]
      only_foreign_lines_dropped [of 2 "[''k8s.io/klog/v2.InfoS'', ''github.com/cnuss/nanokube/pkg.Run'']" "\<lparr>sk_name = [], sk_values = []\<rparr>" 0 "''hello''" "[]"]
    by (simp add: p)
qed

section \<open>Logging of HTTP traffic\<close>

record http_log =
  hl_Name :: string
  hl_Log :: bool
  hl_Verbose :: bool

record request =
  rq_method :: string
  rq_url :: string
  rq_body :: "string option"

record response =
  rs_status :: int
  rs_body :: "string option"

datatype http_line = HttpError error string strmap | HttpInfo string strmap

definition reqBuf :: "http_log \<Rightarrow> request \<Rightarrow> nat \<Rightarrow> string" where
  "reqBuf h req n = (case rq_body req of None \<Rightarrow> [] | Some b \<Rightarrow> if hl_Verbose h then take n b else [])"

definition req_kv :: "request \<Rightarrow> strmap" where
  "req_kv req = [(''method'', rq_method req), (''url'', rq_url req)]"

definition body_kv :: "string \<Rightarrow> string \<Rightarrow> strmap" where
  "body_kv key b = (if b \<noteq> [] then [(key, b)] else [])"

text \<open>What is logged: at once, or when the caller closes the body, which it has read so far.\<close>

datatype logging = LogNow "http_line list" | LogAtClose "string \<Rightarrow> http_line list"

definition logResponse :: "http_log \<Rightarrow> request \<Rightarrow> response \<Rightarrow> string \<Rightarrow> logging" where
  "logResponse h req resp buf =
     (if rs_body resp \<noteq> None \<and> hl_Verbose h
      then LogAtClose (\<lambda>was_read. [HttpInfo (hl_Name h)
             (req_kv req @ [(''status'', strconv_FormatInt (rs_status resp)), (''respBody'', was_read)] @ body_kv ''reqBody'' buf)])
      else LogNow [HttpInfo (hl_Name h) (req_kv req @ [(''status'', strconv_FormatInt (rs_status resp))] @ body_kv ''reqBody'' buf)])"

text \<open>\<open>inner\<close> answers a request and says how much of its body it read.\<close>

definition RoundTripper :: "http_log \<Rightarrow> (request \<Rightarrow> 'w \<Rightarrow> ((error + response) \<times> nat) \<times> 'w) \<Rightarrow> request \<Rightarrow> 'w \<Rightarrow>
    ((error + response) \<times> logging) \<times> 'w" where
  "RoundTripper h inner req w =
     (case inner req w of
        ((Inl e, n), w') \<Rightarrow> ((Inl e, LogNow (if hl_Log h then [HttpError e (hl_Name h) (req_kv req)] else [])), w')
      | ((Inr resp, n), w') \<Rightarrow>
          if \<not> hl_Log h then ((Inr resp, LogNow []), w')
          else ((Inr resp, logResponse h req resp (reqBuf h req n)), w'))"

text \<open>A handler of a server writes status codes and bytes; the wrapper passes both on.\<close>

datatype http_write = WriteHeader int | WriteBytes string

fun http_status :: "int \<Rightarrow> http_write list \<Rightarrow> int" where
  "http_status st [] = st"
| "http_status st (WriteHeader c # ws) = http_status c ws"
| "http_status st (WriteBytes b # ws) = http_status st ws"

definition respBuf :: "http_log \<Rightarrow> http_write list \<Rightarrow> string" where
  "respBuf h ws = (if hl_Verbose h then concat (map (\<lambda>w. case w of WriteBytes b \<Rightarrow> b | WriteHeader _ \<Rightarrow> []) ws) else [])"

definition Handler :: "http_log \<Rightarrow> (request \<Rightarrow> http_write list \<times> nat) \<Rightarrow> request \<Rightarrow> http_write list \<times> http_line list" where
  "Handler h inner req =
     (case inner req of
        (ws, n) \<Rightarrow>
          (ws, if \<not> hl_Log h then []
               else [HttpInfo (hl_Name h)
                       (req_kv req @ [(''status'', strconv_FormatInt (http_status 200 ws))] @
                        body_kv ''reqBody'' (reqBuf h req n) @ body_kv ''respBody'' (respBuf h ws))]))"

fun lines_of :: "logging \<Rightarrow> string \<Rightarrow> http_line list" where
  "lines_of (LogNow ls) was_read = ls"
| "lines_of (LogAtClose f) was_read = f was_read"

text \<open>
  Logging does not change the traffic. Whatever is switched on, the wrapped client makes the one
  call of the inner one with the same request and gives back its response or error, and the wrapped
  server writes exactly what the inner handler writes. With logging on there is exactly one line per
  exchange (for a verbose client with a response body, when that is closed), with logging off none;
  and bodies are only ever logged when logging is verbose.
\<close>

theorem http_log_transparent:
  assumes "inner req w = ((r, n), w')"
  shows "(\<exists>l. RoundTripper h inner req w = ((r, l), w') \<and> length (lines_of l was_read) = (if hl_Log h then 1 else 0) \<and>
       (\<forall>name kv. \<not> hl_Verbose h \<and> HttpInfo name kv \<in> set (lines_of l was_read) \<longrightarrow>
          map fst kv = [''method'', ''url'', ''status''])) \<and>
    fst (Handler h serve req) = fst (serve req) \<and> length (snd (Handler h serve req)) = (if hl_Log h then 1 else 0)"
proof (rule conjI)
  show "\<exists>l. RoundTripper h inner req w = ((r, l), w') \<and> length (lines_of l was_read) = (if hl_Log h then 1 else 0) \<and>
       (\<forall>name kv. \<not> hl_Verbose h \<and> HttpInfo name kv \<in> set (lines_of l was_read) \<longrightarrow>
          map fst kv = [''method'', ''url'', ''status''])"
    using assms
    by (auto simp: RoundTripper_def logResponse_def reqBuf_def body_kv_def req_kv_def split: sum.splits option.splits)
  show "fst (Handler h serve req) = fst (serve req) \<and> length (snd (Handler h serve req)) = (if hl_Log h then 1 else 0)"
    by (simp add: Handler_def split: prod.splits)
qed

theorem http_log_transparent_witness:
  "\<exists>l. RoundTripper \<lparr>hl_Name = ''api'', hl_Log = True, hl_Verbose = False\<rparr> (\<lambda>_ w. ((Inl EOF, 0), w)) \<lparr>rq_method = ''GET'', rq_url = ''/'', rq_body = None\<rparr> () =
     ((Inl EOF, l), ()) \<and> length (lines_of l []) = 1"
  using http_log_transparent [of "\<lambda>_ w. ((Inl EOF, 0), w)" "\<lparr>rq_method = ''GET'', rq_url = ''/'', rq_body = None\<rparr>" "()" "Inl EOF" 0 "()"
      "\<lparr>hl_Name = ''api'', hl_Log = True, hl_Verbose = False\<rparr>" "[]" "\<lambda>_. ([], 0)"]
  by auto

end
