(* ===== verification/Docker_Sessions.thy ===== *)
theory Docker_Sessions
  imports Docker_Exec
begin

text \<open>
  How a session of the Docker driver comes about (\<^verbatim>\<open>Service\<close>, \<^verbatim>\<open>Exec\<close>, \<^verbatim>\<open>Attach\<close> and \<^verbatim>\<open>PortForward\<close> of
  \<^verbatim>\<open>src/pkg/driver/docker/docker.go\<close>): the kubelet asks for a session and is given a URL; the connection made
  to it is dispatched by the web service of the streams (\<open>Streams\<close>) to the handler of that session,
  whose work is in \<open>Docker_Exec\<close>.
\<close>

section \<open>Asking for a session\<close>

text \<open>The registry is made when the service is asked for, once the base URL is known; \<open>se_network\<close> says
  that the driver has been given its network.\<close>

record sessions =
  se_url :: "string once"
  se_streams :: "streams once"
  se_network :: bool

definition driver_Service :: "(sessions, unit) go" where
  "driver_Service s = (if se_url s = None then (Blocked, s) else (Ret (), s\<lparr>se_streams := once_provide [] (se_streams s)\<rparr>))"

text \<open>A new stream is stored, configured in place, and its URL returned; \<open>uuid\<close> is the fresh identifier.\<close>

definition register :: "string \<Rightarrow> (stream \<Rightarrow> stream) \<Rightarrow> (sessions, string) go" where
  "register uuid configure s =
     (case (se_streams s, se_url s) of
        (Some m, Some url) \<Rightarrow>
          (case streams_New uuid m of
             (st, m') \<Rightarrow> (Ret (stream_URL url (configure st)), s\<lparr>se_streams := Some (AList.update uuid (configure st) m')\<rparr>))
      | _ \<Rightarrow> (Blocked, s))"

definition driver_Exec :: "string \<Rightarrow> stream_request \<Rightarrow> (int \<Rightarrow> done_value) \<Rightarrow> (sessions, string) go" where
  "driver_Exec uuid req h = register uuid (WithExec req h)"

definition driver_Attach :: "string \<Rightarrow> stream_request \<Rightarrow> (unit \<Rightarrow> done_value) \<Rightarrow> (sessions, string) go" where
  "driver_Attach uuid req h = register uuid (WithAttach req h)"

definition driver_PortForward :: "string \<Rightarrow> stream_request \<Rightarrow> (int \<Rightarrow> done_value) \<Rightarrow> (sessions, string) go" where
  "driver_PortForward uuid req h s = (if se_network s then register uuid (WithForward req h) s else (Blocked, s))"

text \<open>A connection to the service, by the last element of its path.\<close>

definition connect :: "string \<Rightarrow> (sessions, served) go" where
  "connect i s =
     (case se_streams s of
        None \<Rightarrow> (Blocked, s)
      | Some m \<Rightarrow> (case service_handler i m of (r, m') \<Rightarrow> (Ret r, s\<lparr>se_streams := Some m'\<rparr>)))"

section \<open>The URL leads to the session\<close>

datatype session = ExecSession stream_request "int \<Rightarrow> done_value" | AttachSession stream_request "unit \<Rightarrow> done_value"
  | ForwardSession stream_request "int \<Rightarrow> done_value"

fun ask :: "string \<Rightarrow> session \<Rightarrow> (sessions, string) go" where
  "ask uuid (ExecSession r h) = driver_Exec uuid r h"
| "ask uuid (AttachSession r h) = driver_Attach uuid r h"
| "ask uuid (ForwardSession r h) = driver_PortForward uuid r h"

fun expected :: "session \<Rightarrow> served" where
  "expected (ExecSession r h) = ServeExec (sr_cmd r) (sr_tty r) four_hours"
| "expected (AttachSession r h) = ServeAttach (sr_tty r) four_hours"
| "expected (ForwardSession r h) = ServePortForward (sr_ports r) four_hours"

fun configure_of :: "session \<Rightarrow> stream \<Rightarrow> stream" where
  "configure_of (ExecSession r h) = WithExec r h"
| "configure_of (AttachSession r h) = WithAttach r h"
| "configure_of (ForwardSession r h) = WithForward r h"

lemma ask_register:
  "se_network s \<Longrightarrow> ask uuid x s = register uuid (configure_of x) s"
  by (cases x) (simp_all add: driver_Exec_def driver_Attach_def driver_PortForward_def)

lemma configure_of_new:
  "stream_id (configure_of x (new_stream uuid)) = uuid" "Handle (stream_WithTimeout four_hours (configure_of x (new_stream uuid))) = expected x"
  by (cases x; simp add: WithExec_def WithAttach_def WithForward_def new_stream_def stream_WithTimeout_def Handle_def)+

lemma service_handler_fst:
  "fst (service_handler i m) = (case map_of m i of None \<Rightarrow> HTTPError 404 (''stream '' @ i @ '' not found'') | Some s \<Rightarrow> Handle (stream_WithTimeout four_hours s))"
  by (simp add: service_handler_def Let_def split: option.splits)

lemma ask_then_connect:
  assumes "se_network s \<or> (\<forall>r h. x \<noteq> ForwardSession r h)" "se_url s = Some url" "se_streams s = Some m"
  shows "\<exists>t. ask uuid x s = (Ret (url @ ''/streams/'' @ uuid), t) \<and> fst (connect uuid t) = Ret (expected x) \<and>
    (\<forall>i. i \<noteq> uuid \<longrightarrow> fst (connect i t) = fst (connect i s))"
proof -
  let ?st = "configure_of x (new_stream uuid)"
  let ?m = "AList.update uuid ?st (AList.update uuid (new_stream uuid) m)"
  have c: "fst (connect i (s\<lparr>se_streams := Some m'\<rparr>)) = Ret (fst (service_handler i m'))" for i m'
    by (simp add: connect_def split: prod.splits)
  have s: "fst (connect i s) = Ret (fst (service_handler i m))" for i
    using assms(3) by (simp add: connect_def split: prod.splits)
  have "ask uuid x s = register uuid (configure_of x) s"
    using assms(1) by (cases x) (auto simp: driver_Exec_def driver_Attach_def driver_PortForward_def)
  then have "ask uuid x s = (Ret (url @ ''/streams/'' @ uuid), s\<lparr>se_streams := Some ?m\<rparr>)"
    using assms(2,3) by (simp add: register_def streams_New_def stream_URL_def configure_of_new)
  then show ?thesis by (simp add: c s service_handler_fst configure_of_new)
qed

text \<open>
  The URL handed out leads to its own session. Once the service runs, asking for a session returns
  the URL of the streams service with the fresh identifier; a connection to that identifier is
  served with the command, terminal setting or ports of that request and four hours of idle time,
  and connections to other identifiers are served as before. An identifier nobody asked for is
  answered with 404. Before the service runs the request waits.
\<close>

theorem session_url_leads_to_session:
  assumes "se_network s" "se_url s = Some url"
  shows "case se_streams s of
      None \<Rightarrow> ask uuid x s = (Blocked, s)
    | Some m \<Rightarrow> (\<exists>t. ask uuid x s = (Ret (url @ ''/streams/'' @ uuid), t) \<and> fst (connect uuid t) = Ret (expected x) \<and>
        (\<forall>i. i \<noteq> uuid \<longrightarrow> fst (connect i t) = fst (connect i s)) \<and>
        (\<forall>i. map_of m i = None \<longrightarrow> fst (connect i s) = Ret (HTTPError 404 (''stream '' @ i @ '' not found''))))"
proof (cases "se_streams s")
  case None
  then show ?thesis by (simp add: ask_register [OF assms(1)] register_def)
next
  case (Some m)
  have "fst (connect i s) = Ret (HTTPError 404 (''stream '' @ i @ '' not found''))" if "map_of m i = None" for i
    using Some that by (simp add: connect_def service_handler_def split: prod.splits)
  then show ?thesis using Some ask_then_connect [of s x url m uuid] assms by auto
qed

definition running :: sessions where
  "running = \<lparr>se_url = Some ''https://h/docker/d'', se_streams = Some [], se_network = True\<rparr>"

theorem session_url_leads_to_session_witness:
  "\<exists>t. ask ''u1'' (ExecSession \<lparr>sr_cmd = [''sh''], sr_tty = True, sr_ports = []\<rparr> (\<lambda>_. done_zero)) running = (Ret ''https://h/docker/d/streams/u1'', t) \<and>
     fst (connect ''u1'' t) = Ret (ServeExec [''sh''] True four_hours)"
  using session_url_leads_to_session [of running "''https://h/docker/d''" "''u1''" "ExecSession \<lparr>sr_cmd = [''sh''], sr_tty = True, sr_ports = []\<rparr> (\<lambda>_. done_zero)"]
  by (auto simp: running_def)

end
