(* ===== verification/Backend_Start.thy ===== *)
theory Backend_Start
  imports Docker_Sessions Docker_Volumes
begin

text \<open>
  How a backend is put to work (\<^verbatim>\<open>src/pkg/backend.go\<close>): its base URL, services and network, which it gives to
  the driver (\<^verbatim>\<open>WithBaseURL\<close>, \<^verbatim>\<open>WithNetwork\<close> of \<^verbatim>\<open>src/pkg/driver/docker/docker.go\<close>), the services of all
  backends (\<^verbatim>\<open>Services\<close> of \<^verbatim>\<open>src/pkg/nanokube.go\<close>), and \<^verbatim>\<open>Start\<close>, which subscribes the reconciliation of
  volume claims to the events of the informers. The requests of the kubelet that wait for these are those
  of \<open>Docker_Sessions\<close>; the work done for an event is \<open>Reconcile\<close> of \<open>Docker_Volumes\<close>.
\<close>

section \<open>The driver's side\<close>

definition driver_WithBaseURL :: "string \<Rightarrow> sessions \<Rightarrow> sessions" where
  "driver_WithBaseURL url s = s\<lparr>se_url := once_provide url (se_url s)\<rparr>"

definition driver_WithNetwork :: "sessions \<Rightarrow> sessions" where
  "driver_WithNetwork s = s\<lparr>se_network := True\<rparr>"

definition driver_Network :: "(sessions, unit) go" where
  "driver_Network s = (if se_network s then (Ret (), s) else (Blocked, s))"

interpretation session_url: provided_once driver_WithBaseURL se_url
  by unfold_locales (simp add: driver_WithBaseURL_def)

section \<open>The backend's side\<close>

record manager =
  mg_startOnce :: bool
  mg_ready :: bool

record backend =
  be_name :: string
  be_driver :: string
  be_sessions :: sessions
  be_manager :: "manager once"
  be_networkOnce :: bool
  be_services :: "string list once"
  be_startOnce :: bool
  be_ready :: bool
  be_handlers :: nat

definition NewBackend :: "string \<Rightarrow> string \<Rightarrow> backend" where
  "NewBackend name driver =
     \<lparr>be_name = name, be_driver = driver, be_sessions = \<lparr>se_url = None, se_streams = None, se_network = False\<rparr>, be_manager = None,
      be_networkOnce = False, be_services = None, be_startOnce = False, be_ready = False, be_handlers = 0\<rparr>"

text \<open>\<^verbatim>\<open>url.JoinPath\<close> with one element, on the names that occur here: no dots and no slashes inside.\<close>

definition JoinPath :: "string \<Rightarrow> string \<Rightarrow> string" where
  "JoinPath url e = strings_TrimSuffix url ''/'' @ ''/'' @ e"

definition backend_Network :: "(backend, unit) go" where
  "backend_Network b =
     (if be_networkOnce b then (Ret (), b)
      else (Ret (), b\<lparr>be_networkOnce := True, be_sessions := driver_WithNetwork (be_sessions b)\<rparr>))"

definition backend_WithBaseURL :: "string \<Rightarrow> backend \<Rightarrow> backend" where
  "backend_WithBaseURL url b = b\<lparr>be_sessions := driver_WithBaseURL (JoinPath url (be_driver b)) (be_sessions b)\<rparr>"

text \<open>A service is named by where it is served, which is the base URL of the driver's streams.\<close>

definition backend_Services :: "(backend, string list) go" where
  "backend_Services b =
     (case be_services b of
        Some ws \<Rightarrow> (Ret ws, b)
      | None \<Rightarrow>
          (case driver_Service (be_sessions b) of
             (Ret _, s) \<Rightarrow>
               let ws = [JoinPath (case se_url s of Some u \<Rightarrow> u | None \<Rightarrow> []) ''streams'']
               in (Ret ws, b\<lparr>be_sessions := s, be_services := Some ws\<rparr>)
           | (Panic m, s) \<Rightarrow> (Panic m, b\<lparr>be_sessions := s\<rparr>)
           | (Goexit, s) \<Rightarrow> (Goexit, b\<lparr>be_sessions := s\<rparr>)
           | (Blocked, s) \<Rightarrow> (Blocked, b\<lparr>be_sessions := s\<rparr>)))"

text \<open>\<open>factory\<close> is what the wait for the informers gives: blocked, the factory, or nil after the end of the
  context. \<^verbatim>\<open>sync.Once\<close> counts a body that panics as done.\<close>

definition backend_Start :: "unit option outcome \<Rightarrow> (backend, error option) go" where
  "backend_Start factory b =
     (if be_startOnce b then (Ret None, b)
      else (case factory of
              Ret (Some _) \<Rightarrow> (Ret None, b\<lparr>be_startOnce := True, be_handlers := be_handlers b + 1, be_ready := True\<rparr>)
            | Ret None \<Rightarrow> (Panic ''nil pointer dereference'', b\<lparr>be_startOnce := True\<rparr>)
            | Panic m \<Rightarrow> (Panic m, b\<lparr>be_startOnce := True\<rparr>)
            | Goexit \<Rightarrow> (Goexit, b\<lparr>be_startOnce := True\<rparr>)
            | Blocked \<Rightarrow> (Blocked, b)))"

definition newManager :: manager where
  "newManager = \<lparr>mg_startOnce = False, mg_ready = False\<rparr>"

definition backend_Manager :: "backend \<Rightarrow> backend" where
  "backend_Manager b = b\<lparr>be_manager := once_provide newManager (be_manager b)\<rparr>"

definition manager_Start :: "(manager, error option) go" where
  "manager_Start m = (Ret None, if mg_startOnce m then m else m\<lparr>mg_startOnce := True, mg_ready := True\<rparr>)"

text \<open>What the subscribed functions make of an event.\<close>

datatype claim_event = Added reconcile_obj | Updated reconcile_obj reconcile_obj | Deleted reconcile_obj

fun event_call :: "claim_event \<Rightarrow> reconcile_obj \<times> bool" where
  "event_call (Added obj) = (obj, False)"
| "event_call (Updated old obj) = (obj, False)"
| "event_call (Deleted obj) = (obj, True)"

definition on_event :: "'w drv \<Rightarrow> 'w kube \<Rightarrow> string \<Rightarrow> backend \<Rightarrow> claim_event \<Rightarrow> ('w driver, unit) go" where
  "on_event D K node b ev =
     go_each (\<lambda>_. Reconcile D K (be_name b) node (fst (event_call ev)) (snd (event_call ev))) (replicate (be_handlers b) ())"

section \<open>All backends\<close>

text \<open>\<^verbatim>\<open>Services\<close> of the process-wide object: its body goes over the backends in the order of the map (\<open>None\<close> when it waits for ever),
  and runs once; later calls return the same services, whatever base URL they are given.\<close>

fun services_body :: "string \<Rightarrow> backend list \<Rightarrow> (string list \<times> backend list) option" where
  "services_body url [] = Some ([], [])"
| "services_body url (b # bs) =
     (case backend_Services (backend_WithBaseURL (JoinPath url (be_name b)) b) of
        (Ret ws, b') \<Rightarrow> (case services_body url bs of None \<Rightarrow> None | Some (ws', bs') \<Rightarrow> Some (ws @ ws', b' # bs'))
      | _ \<Rightarrow> None)"

record nano_services =
  ns_services :: "string list once"
  ns_backends :: "backend list"

definition nano_Services :: "string \<Rightarrow> (nano_services, string list) go" where
  "nano_Services url s =
     (case ns_services s of
        Some ws \<Rightarrow> (Ret ws, s)
      | None \<Rightarrow>
          (case services_body url (ns_backends s) of
             None \<Rightarrow> (Blocked, s)
           | Some (ws, bs) \<Rightarrow> (Ret ws, s\<lparr>ns_services := Some ws, ns_backends := bs\<rparr>)))"

section \<open>The services open the sessions\<close>

definition url_of :: "string \<Rightarrow> string \<times> string \<Rightarrow> string" where
  "url_of url = (\<lambda>(n, d). JoinPath (JoinPath url n) d)"

lemma fresh_services:
  "backend_Services (backend_WithBaseURL (JoinPath url n) (NewBackend n d)) =
     (Ret [JoinPath (url_of url (n, d)) ''streams''],
      (NewBackend n d)\<lparr>be_sessions := \<lparr>se_url = Some (url_of url (n, d)), se_streams = Some [], se_network = False\<rparr>,
        be_services := Some [JoinPath (url_of url (n, d)) ''streams'']\<rparr>)"
  by (simp add: backend_Services_def backend_WithBaseURL_def NewBackend_def driver_WithBaseURL_def driver_Service_def once_provide_def url_of_def Let_def)

lemma services_body_fresh:
  "services_body url (map (\<lambda>(n, d). NewBackend n d) nds) =
     Some (map (\<lambda>nd. JoinPath (url_of url nd) ''streams'') nds,
       map (\<lambda>(n, d). snd (backend_Services (backend_WithBaseURL (JoinPath url n) (NewBackend n d)))) nds)"
proof (induction nds)
  case (Cons nd nds)
  have "be_name (NewBackend n d) = n" for n d by (simp add: NewBackend_def)
  with Cons show ?case by (cases nd) (simp add: fresh_services)
qed simp



section \<open>Claims are reconciled once\<close>

definition started :: "unit option outcome list \<Rightarrow> backend \<Rightarrow> backend" where
  "started fs b = fold (\<lambda>f b. snd (backend_Start f b)) fs b"

lemma start_again: "be_startOnce b \<Longrightarrow> started fs b = b"
  by (induction fs) (simp_all add: started_def backend_Start_def)

lemma started_Cons: "started (f # fs) b = started fs (snd (backend_Start f b))"
  by (simp add: started_def)

lemma start_state:
  "\<not> be_startOnce b \<Longrightarrow> be_handlers b = 0 \<Longrightarrow> \<not> be_ready b \<Longrightarrow>
   be_handlers (started fs b) = (if be_ready (started fs b) then 1 else 0) \<and> be_name (started fs b) = be_name b \<and>
   (be_ready (started fs b) \<longleftrightarrow> (case dropWhile (\<lambda>f. f = Blocked) fs of Ret (Some _) # _ \<Rightarrow> True | _ \<Rightarrow> False))"
proof (induction fs)
  case Nil
  then show ?case by (simp add: started_def)
next
  case (Cons f fs)
  then show ?case
  proof (cases f)
    case (Ret x)
    then show ?thesis using Cons.prems by (cases x) (simp_all add: started_Cons start_again backend_Start_def)
  qed (simp_all add: started_Cons start_again backend_Start_def)
qed

text \<open>
  Every event of a claim is reconciled exactly once. However often a backend is started, and
  however the waits for the informers end, the subscription is made at most once, by the first call
  that got past its wait; the backend is ready exactly if that wait gave the informers. Then an event
  leads to one reconciliation of its object, as a deletion only when it is one, and before that to none.
\<close>

theorem claim_events_reconciled_once:
  "let b = started fs (NewBackend name driver) in
     (be_ready b \<longleftrightarrow> (case dropWhile (\<lambda>f. f = Blocked) fs of Ret (Some _) # _ \<Rightarrow> True | _ \<Rightarrow> False)) \<and>
     on_event D K node b ev s =
       (if be_ready b then go_bind (Reconcile D K name node (fst (event_call ev)) (snd (event_call ev))) (\<lambda>_. go_ret ()) s else (Ret (), s))"
proof -
  let ?b = "started fs (NewBackend name driver)"
  have "be_handlers ?b = (if be_ready ?b then 1 else 0) \<and> be_name ?b = name \<and>
      (be_ready ?b \<longleftrightarrow> (case dropWhile (\<lambda>f. f = Blocked) fs of Ret (Some _) # _ \<Rightarrow> True | _ \<Rightarrow> False))"
    using start_state [of "NewBackend name driver" fs] by (simp add: NewBackend_def)
  then show ?thesis by (simp add: Let_def on_event_def)
qed

end
