(* ===== verification/Session_Run.thy ===== *)
theory Session_Run
  imports Streams "HOL-Library.Sublist"
begin

text \<open>
  The goroutines of a session (\<^verbatim>\<open>ProxyStream\<close> and the resizer of \<^verbatim>\<open>src/pkg/nanokube/streams.go\<close>). \<open>Streams\<close> says what a
  session computes; here the copier of the input, the reader of the output and the call itself run beside
  each other, with the connection and the client's streams they close, and it is shown that every
  interleaving returns what \<open>ProxyStream\<close> of \<open>Streams\<close> says. The resizer is taken apart at its mutex: the
  handler is called outside of it.
\<close>

section \<open>The proxy's goroutines\<close>

text \<open>The fixed part of a call: the client's sinks, the flags, whether the input can be closed, and the
  container's output.\<close>

record 'w proxy_call =
  pc_sinks :: "'w sinks"
  pc_tty :: bool
  pc_stdin :: bool
  pc_stdout :: bool
  pc_stderr :: bool
  pc_closer :: bool
  pc_reader :: reader

text \<open>The reader of the output, after its copy loop, runs its deferred calls one by one: close standard error,
  close standard output, close \<^verbatim>\<open>outputDone\<close>. The call itself waits, pauses, and runs its own: close the
  connection, then its write half.\<close>

datatype output_state = OCopying | OCopied "error option" | OErrClosed "error option" | OOutClosed "error option" | ODone "error option"

datatype call_state = CWaiting | CPausing "error option" | CConnClosed "error option" | CReturned "error option"

record 'w proxy_run =
  px_world :: 'w
  px_given :: string
  px_in :: string
  px_in_ended :: bool
  px_sent :: string
  px_copying :: bool
  px_conn :: bool
  px_closeWrite :: nat
  px_out :: bool
  px_err :: bool
  px_output :: output_state
  px_call :: call_state
  px_ctx :: bool

definition proxy_start :: "'w \<Rightarrow> 'w proxy_run" where
  "proxy_start w =
     \<lparr>px_world = w, px_given = [], px_in = [], px_in_ended = False, px_sent = [], px_copying = True, px_conn = True, px_closeWrite = 0,
      px_out = True, px_err = True, px_output = OCopying, px_call = CWaiting, px_ctx = False\<rparr>"

text \<open>The end of the input's goroutine: it closes the write half if it was copying to the connection.\<close>

definition stdin_ends :: "'w proxy_call \<Rightarrow> 'w proxy_run \<Rightarrow> 'w proxy_run" where
  "stdin_ends P s = s\<lparr>px_copying := False, px_closeWrite := px_closeWrite s + (if pc_stdin P then 1 else 0)\<rparr>"

text \<open>What the program does once the output of the container is there, without the client's help.\<close>

inductive proxy_go :: "'w proxy_call \<Rightarrow> 'w proxy_run \<Rightarrow> 'w proxy_run \<Rightarrow> bool" for P where
  output_copied: "px_output s = OCopying \<Longrightarrow>
    proxy_output (pc_sinks P) (pc_tty P) (pc_stdout P) (pc_stderr P) (pc_reader P) (px_world s) = (e, w) \<Longrightarrow>
    proxy_go P s (s\<lparr>px_output := OCopied e, px_world := w\<rparr>)"
| err_closed: "px_output s = OCopied e \<Longrightarrow> proxy_go P s (s\<lparr>px_output := OErrClosed e, px_err := False\<rparr>)"
| out_closed: "px_output s = OErrClosed e \<Longrightarrow> proxy_go P s (s\<lparr>px_output := OOutClosed e, px_out := False\<rparr>)"
| output_done: "px_output s = OOutClosed e \<Longrightarrow> proxy_go P s (s\<lparr>px_output := ODone e\<rparr>)"
| call_wakes: "px_call s = CWaiting \<Longrightarrow> px_output s = ODone e \<Longrightarrow> proxy_go P s (s\<lparr>px_call := CPausing (map_option (Wrapf ''output'') e)\<rparr>)"
| conn_closed: "px_call s = CPausing r \<Longrightarrow> proxy_go P s (s\<lparr>px_call := CConnClosed r, px_conn := False\<rparr>)"
| call_returns: "px_call s = CConnClosed r \<Longrightarrow> proxy_go P s (s\<lparr>px_call := CReturned r, px_closeWrite := px_closeWrite s + 1\<rparr>)"

text \<open>All steps: also the client's input, the goroutine that copies it in pieces (to the connection if input was
  asked for, else to nowhere), and the end of the context, which closes the input if it can be closed. A write to
  a closed connection fails and ends the copy.\<close>

inductive proxy_step :: "'w proxy_call \<Rightarrow> 'w proxy_run \<Rightarrow> 'w proxy_run \<Rightarrow> bool" for P where
  px_go: "proxy_go P s t \<Longrightarrow> proxy_step P s t"
| input: "\<not> px_in_ended s \<Longrightarrow> proxy_step P s (s\<lparr>px_in := px_in s @ b, px_given := px_given s @ b\<rparr>)"
| input_ends: "proxy_step P s (s\<lparr>px_in_ended := True\<rparr>)"
| context_done: "proxy_step P s (if pc_closer P \<and> px_copying s then s\<lparr>px_ctx := True, px_in_ended := True, px_in := []\<rparr> else s\<lparr>px_ctx := True\<rparr>)"
| stdin_copy: "px_copying s \<Longrightarrow> px_in s = b @ rest \<Longrightarrow> pc_stdin P \<longrightarrow> px_conn s \<Longrightarrow>
    proxy_step P s (s\<lparr>px_in := rest, px_sent := px_sent s @ (if pc_stdin P then b else [])\<rparr>)"
| stdin_eof: "px_copying s \<Longrightarrow> px_in s = [] \<Longrightarrow> px_in_ended s \<Longrightarrow> proxy_step P s (stdin_ends P s)"
| stdin_fails: "px_copying s \<Longrightarrow> px_in s \<noteq> [] \<Longrightarrow> pc_stdin P \<Longrightarrow> \<not> px_conn s \<Longrightarrow> proxy_step P s (stdin_ends P s)"

section \<open>Every interleaving returns the same\<close>

text \<open>How far the output and the call are, and what is closed by then.\<close>

fun output_error :: "output_state \<Rightarrow> error option option" where
  "output_error OCopying = None"
| "output_error (OCopied e) = Some e"
| "output_error (OErrClosed e) = Some e"
| "output_error (OOutClosed e) = Some e"
| "output_error (ODone e) = Some e"

fun call_result :: "call_state \<Rightarrow> error option option" where
  "call_result CWaiting = None"
| "call_result (CPausing r) = Some r"
| "call_result (CConnClosed r) = Some r"
| "call_result (CReturned r) = Some r"

fun output_rank :: "output_state \<Rightarrow> nat" where
  "output_rank OCopying = 4" | "output_rank (OCopied e) = 3" | "output_rank (OErrClosed e) = 2" | "output_rank (OOutClosed e) = 1" | "output_rank (ODone e) = 0"

fun call_rank :: "call_state \<Rightarrow> nat" where
  "call_rank CWaiting = 3" | "call_rank (CPausing r) = 2" | "call_rank (CConnClosed r) = 1" | "call_rank (CReturned r) = 0"

definition proxy_result :: "'w proxy_call \<Rightarrow> 'w \<Rightarrow> error option \<times> 'w" where
  "proxy_result P w = proxy_output (pc_sinks P) (pc_tty P) (pc_stdout P) (pc_stderr P) (pc_reader P) w"

definition output_inv :: "'w proxy_call \<Rightarrow> 'w \<Rightarrow> 'w proxy_run \<Rightarrow> bool" where
  "output_inv P w s \<longleftrightarrow>
     (output_error (px_output s) = None \<longrightarrow> px_world s = w) \<and>
     (\<forall>e. output_error (px_output s) = Some e \<longrightarrow> proxy_result P w = (e, px_world s)) \<and>
     px_err s = (3 \<le> output_rank (px_output s)) \<and> px_out s = (2 \<le> output_rank (px_output s)) \<and>
     (\<forall>r. call_result (px_call s) = Some r \<longrightarrow>
        output_rank (px_output s) = 0 \<and> r = map_option (Wrapf ''output'') (fst (proxy_result P w))) \<and>
     px_conn s = (2 \<le> call_rank (px_call s))"

definition input_inv :: "'w proxy_call \<Rightarrow> 'w proxy_run \<Rightarrow> bool" where
  "input_inv P s \<longleftrightarrow> prefix (px_sent s) (px_given s) \<and> (\<not> pc_stdin P \<longrightarrow> px_sent s = []) \<and>
     (px_copying s \<and> pc_stdin P \<longrightarrow> prefix (px_sent s @ px_in s) (px_given s) \<and> (\<not> px_in_ended s \<longrightarrow> px_sent s @ px_in s = px_given s)) \<and>
     (px_copying s \<and> px_ctx s \<and> pc_closer P \<longrightarrow> px_in_ended s \<and> px_in s = []) \<and>
     px_closeWrite s = (if \<not> px_copying s \<and> pc_stdin P then 1 else 0) + (if call_rank (px_call s) = 0 then 1 else 0)"

definition proxy_inv :: "'w proxy_call \<Rightarrow> 'w \<Rightarrow> 'w proxy_run \<Rightarrow> bool" where
  "proxy_inv P w s \<longleftrightarrow> output_inv P w s \<and> input_inv P s"

inductive_cases proxy_goE: "proxy_go P s t"
inductive_cases proxy_stepE: "proxy_step P s t"

lemma output_inv_go:
  assumes "output_inv P w s" "proxy_go P s t"
  shows "output_inv P w t"
  using assms(2)
  by cases (use assms(1) in \<open>auto simp: output_inv_def proxy_result_def\<close>)

lemma input_inv_go: "input_inv P s \<Longrightarrow> proxy_go P s t \<Longrightarrow> input_inv P t"
  by (erule proxy_goE) (simp_all add: input_inv_def)

text \<open>The output and the call do not depend on the input's side.\<close>

lemma output_inv_cong:
  "output_inv P w s \<Longrightarrow> px_world t = px_world s \<Longrightarrow> px_output t = px_output s \<Longrightarrow> px_call t = px_call s \<Longrightarrow>
   px_err t = px_err s \<Longrightarrow> px_out t = px_out s \<Longrightarrow> px_conn t = px_conn s \<Longrightarrow> output_inv P w t"
  by (simp add: output_inv_def)

lemma output_inv_step:
  assumes "output_inv P w s" "proxy_step P s t"
  shows "output_inv P w t"
  using assms(2)
proof cases
  case px_go
  then show ?thesis by (rule output_inv_go [OF assms(1)])
qed (rule output_inv_cong [OF assms(1)]; simp add: stdin_ends_def)+

lemma input_inv_step:
  assumes "input_inv P s" "proxy_step P s t"
  shows "input_inv P t"
  using assms(2)
proof cases
  case px_go
  then show ?thesis by (rule input_inv_go [OF assms(1)])
next
  case (stdin_copy b rest)
  have "prefix (px_sent s @ b @ rest) (px_given s)" if "pc_stdin P"
    using assms(1) stdin_copy that by (simp add: input_inv_def)
  then have "prefix (px_sent s @ b) (px_given s)" if "pc_stdin P"
    using that append_prefixD [of "px_sent s @ b" rest] by simp
  then show ?thesis
    using assms(1) stdin_copy by (cases "pc_stdin P") (simp_all add: input_inv_def)
next
  case (input b)
  then show ?thesis using assms(1) by (auto simp: input_inv_def prefix_def)
next
  case context_done
  then show ?thesis using assms(1) by (auto simp: input_inv_def)
qed (use assms(1) in \<open>auto simp: input_inv_def stdin_ends_def\<close>)

interpretation proxying: invariant_system "proxy_step P" "proxy_start w" "proxy_inv P w" for P :: "'w proxy_call" and w :: 'w
proof
  show "proxy_inv P w (proxy_start w)"
    by (simp add: proxy_inv_def output_inv_def input_inv_def proxy_start_def)
qed (auto simp: proxy_inv_def intro: output_inv_step input_inv_step)

definition proxy_rank :: "'w proxy_run \<Rightarrow> nat" where
  "proxy_rank s = output_rank (px_output s) + call_rank (px_call s)"

lemma proxy_go_rank: "proxy_go P s t \<Longrightarrow> proxy_rank t < proxy_rank s"
  by (erule proxy_goE) (simp_all add: proxy_rank_def)

lemma proxy_step_rank:
  assumes "proxy_step P s t"
  shows "proxy_go P s t \<or> proxy_rank t = proxy_rank s"
  using assms by cases (auto simp: proxy_rank_def stdin_ends_def)

lemma proxy_rank_bound: "proxy_rank s \<le> 7"
proof -
  have "output_rank (px_output s) \<le> 4" by (cases "px_output s") simp_all
  moreover have "call_rank (px_call s) \<le> 3" by (cases "px_call s") simp_all
  ultimately show ?thesis by (simp add: proxy_rank_def)
qed

lemma proxy_progress: "(\<exists>t. proxy_go P s t) \<or> (\<exists>r. px_call s = CReturned r)"
proof (cases "px_call s")
  case CWaiting
  obtain e v where "proxy_output (pc_sinks P) (pc_tty P) (pc_stdout P) (pc_stderr P) (pc_reader P) (px_world s) = (e, v)"
    by fastforce
  with CWaiting show ?thesis
    by (cases "px_output s")
       (blast intro: proxy_go.output_copied proxy_go.err_closed proxy_go.out_closed proxy_go.output_done proxy_go.call_wakes)+
qed (blast intro: proxy_go.conn_closed proxy_go.call_returns)+

lemma proxy_returned_stops: 
  assumes "proxy_inv P w s" "px_call s = CReturned r"
  shows "\<not> proxy_go P s t"
proof
  assume "proxy_go P s t"
  then show False using assms by cases (auto simp: proxy_inv_def output_inv_def)
qed

lemma ProxyStream_result:
  "ProxyStream (pc_sinks P) (pc_tty P) (pc_stdout P) (pc_stderr P) (pc_reader P) w =
     (map_option (Wrapf ''output'') (fst (proxy_result P w)), snd (proxy_result P w))"
  by (auto simp: ProxyStream_def proxy_result_def split: prod.splits option.splits)


text \<open>A run in which the client's input arrives while the output is copied.\<close>

definition proxy_example :: "(string \<times> string) proxy_call" where
  "proxy_example = \<lparr>pc_sinks = buffers, pc_tty = True, pc_stdin = True, pc_stdout = True, pc_stderr = False, pc_closer = True,
     pc_reader = \<lparr>rd_bytes = ''hi'', rd_end = EOF\<rparr>\<rparr>"

definition proxy_next :: "'w proxy_call \<Rightarrow> 'w proxy_run \<Rightarrow> 'w proxy_run" where
  "proxy_next P s =
     (case px_output s of
        OCopying \<Rightarrow> (case proxy_result P (px_world s) of (e, w) \<Rightarrow> s\<lparr>px_output := OCopied e, px_world := w\<rparr>)
      | OCopied e \<Rightarrow> s\<lparr>px_output := OErrClosed e, px_err := False\<rparr>
      | OErrClosed e \<Rightarrow> s\<lparr>px_output := OOutClosed e, px_out := False\<rparr>
      | OOutClosed e \<Rightarrow> s\<lparr>px_output := ODone e\<rparr>
      | ODone e \<Rightarrow>
          (case px_call s of
             CWaiting \<Rightarrow> s\<lparr>px_call := CPausing (map_option (Wrapf ''output'') e)\<rparr>
           | CPausing r \<Rightarrow> s\<lparr>px_call := CConnClosed r, px_conn := False\<rparr>
           | CConnClosed r \<Rightarrow> s\<lparr>px_call := CReturned r, px_closeWrite := px_closeWrite s + 1\<rparr>
           | CReturned r \<Rightarrow> s))"

lemma proxy_next_call: "px_output s = ODone e \<Longrightarrow> proxy_next P s = s \<or> proxy_go P s (proxy_next P s)"
proof (cases "px_call s")
  case CWaiting
  then show "px_output s = ODone e \<Longrightarrow> ?thesis" using call_wakes [OF CWaiting, of e P] by (simp add: proxy_next_def)
next
  case (CPausing r)
  then show "px_output s = ODone e \<Longrightarrow> ?thesis" using conn_closed [OF CPausing, of P] by (simp add: proxy_next_def)
next
  case (CConnClosed r)
  then show "px_output s = ODone e \<Longrightarrow> ?thesis" using call_returns [OF CConnClosed, of P] by (simp add: proxy_next_def)
qed (simp add: proxy_next_def)

lemma proxy_next_go: "proxy_next P s = s \<or> proxy_go P s (proxy_next P s)"
proof (cases "px_output s")
  case OCopying
  obtain e v where r: "proxy_result P (px_world s) = (e, v)" by fastforce
  then show ?thesis using output_copied [OF OCopying, of P e v] OCopying by (simp add: proxy_next_def proxy_result_def)
next
  case (OCopied e)
  then show ?thesis using err_closed [OF OCopied, of P] by (simp add: proxy_next_def)
next
  case (OErrClosed e)
  then show ?thesis using out_closed [OF OErrClosed, of P] by (simp add: proxy_next_def)
next
  case (OOutClosed e)
  then show ?thesis using output_done [OF OOutClosed, of P] by (simp add: proxy_next_def)
next
  case (ODone e)
  then show ?thesis by (rule proxy_next_call)
qed

lemma proxy_next_reaches:
  "reaches (proxy_step P) s t \<Longrightarrow> reaches (proxy_step P) s (proxy_next P t)"
  using proxy_next_go [of P t] reaches_step [of "proxy_step P" s t] px_go [of P t] by metis

lemma proxy_nexts_reach: "reaches (proxy_step P) s t \<Longrightarrow> reaches (proxy_step P) s ((proxy_next P ^^ n) t)"
  by (induction n) (auto intro: proxy_next_reaches)

definition proxy_example_input :: "(string \<times> string) proxy_run" where
  "proxy_example_input = (proxy_start ([], []))\<lparr>px_given := ''x'', px_sent := ''x''\<rparr>"

lemma proxy_example_input_reached: "reaches (proxy_step proxy_example) (proxy_start ([], [])) proxy_example_input"
proof -
  let ?s = "proxy_start ([], []) :: (string \<times> string) proxy_run"
  have "proxy_step proxy_example ?s (?s\<lparr>px_in := ''x'', px_given := ''x''\<rparr>)"
    using input [of ?s proxy_example "''x''"] by (simp add: proxy_start_def)
  moreover have "proxy_step proxy_example (?s\<lparr>px_in := ''x'', px_given := ''x''\<rparr>) proxy_example_input"
    using stdin_copy [of "?s\<lparr>px_in := ''x'', px_given := ''x''\<rparr>" "''x''" "[]" proxy_example]
    by (simp add: proxy_start_def proxy_example_def proxy_example_input_def)
  ultimately show ?thesis using reaches_refl by (blast intro: reaches_step)
qed

lemma proxy_example_returns: "px_call ((proxy_next proxy_example ^^ 7) proxy_example_input) = CReturned None"
  by (simp add: eval_nat_numeral proxy_next_def proxy_example_def proxy_example_input_def proxy_start_def proxy_result_def
    proxy_output_def io_Copy_def buffers_def)




section \<open>The resizer outside its mutex\<close>

text \<open>The resizer's methods hold the mutex only to read and write the fields; the handler is called after it
  is released. The goroutine of \<^verbatim>\<open>Resizer\<close> runs \<^verbatim>\<open>update\<close> for the size events, one at a time, and some other goroutine
  runs \<^verbatim>\<open>WithHandler\<close>. Between their locked part and their call, each has a call in hand: \<open>rs_update\<close> is the one of
  \<^verbatim>\<open>update\<close> and \<open>rs_replay\<close> those of \<^verbatim>\<open>WithHandler\<close>. Handlers are numbered; \<open>rs_calls\<close> are all calls made, with the handler called.\<close>

record resizer_run =
  rs_size :: "nat \<times> nat"
  rs_console :: "(nat \<times> nat) option"
  rs_handler :: "nat option"
  rs_update :: "(nat \<times> nat \<times> nat) option"
  rs_replay :: "(nat \<times> nat \<times> nat) list"
  rs_calls :: "(nat \<times> nat \<times> nat) list"

definition resizer_start :: resizer_run where
  "resizer_start = \<lparr>rs_size = (0, 0), rs_console = None, rs_handler = None, rs_update = None, rs_replay = [], rs_calls = []\<rparr>"

inductive resizer_step :: "resizer_run \<Rightarrow> resizer_run \<Rightarrow> bool" where
  update_locked: "rs_update r = None \<Longrightarrow>
    resizer_step r (r\<lparr>rs_size := sz, rs_console := Some sz, rs_update := map_option (\<lambda>h. (h, sz)) (rs_handler r)\<rparr>)"
| update_calls: "rs_update r = Some c \<Longrightarrow> resizer_step r (r\<lparr>rs_update := None, rs_calls := rs_calls r @ [c]\<rparr>)"
| handler_locked: "resizer_step r (r\<lparr>rs_handler := h,
    rs_replay := rs_replay r @ (case h of Some k \<Rightarrow> if rs_console r \<noteq> None then [(k, rs_size r)] else [] | None \<Rightarrow> [])\<rparr>)"
| handler_calls: "rs_replay r = xs @ c # ys \<Longrightarrow> resizer_step r (r\<lparr>rs_replay := xs @ ys, rs_calls := rs_calls r @ [c]\<rparr>)"

definition resizer_quiet :: "resizer_run \<Rightarrow> bool" where
  "resizer_quiet r \<longleftrightarrow> rs_update r = None \<and> rs_replay r = []"

definition resizer_inv :: "resizer_run \<Rightarrow> bool" where
  "resizer_inv r \<longleftrightarrow> (rs_console r \<noteq> None \<longrightarrow> rs_console r = Some (rs_size r)) \<and>
     (\<forall>h. rs_handler r = Some h \<and> rs_console r \<noteq> None \<longrightarrow>
        (h, rs_size r) \<in> set (rs_calls r) \<union> set (rs_replay r) \<union> set_option (rs_update r))"

lemma resizer_inv_step:
  assumes "resizer_inv r" "resizer_step r t"
  shows "resizer_inv t"
  using assms(2) by cases (use assms(1) in \<open>auto simp: resizer_inv_def\<close>)

interpretation resizing: invariant_system resizer_step resizer_start resizer_inv
  by unfold_locales (auto simp: resizer_inv_step, simp add: resizer_inv_def resizer_start_def)

definition resizer_stale :: resizer_run where
  "resizer_stale = \<lparr>rs_size = (2, 2), rs_console = Some (2, 2), rs_handler = Some 0, rs_update = None, rs_replay = [],
     rs_calls = [(0, 2, 2), (0, 1, 1)]\<rparr>"

lemma resizer_stale_reached: "reaches resizer_step resizer_start resizer_stale"
proof -
  let ?a = "resizer_start\<lparr>rs_size := (1, 1), rs_console := Some (1, 1)\<rparr>"
  let ?b = "?a\<lparr>rs_handler := Some 0, rs_replay := [(0, 1, 1)]\<rparr>"
  let ?c = "?b\<lparr>rs_size := (2, 2), rs_console := Some (2, 2), rs_update := Some (0, 2, 2)\<rparr>"
  let ?d = "?c\<lparr>rs_update := None, rs_calls := [(0, 2, 2)]\<rparr>"
  have s1: "resizer_step resizer_start ?a"
    using update_locked [of resizer_start "(1, 1)"] by (simp add: resizer_start_def)
  have s2: "resizer_step ?a ?b"
    using handler_locked [of ?a "Some 0"] by (simp add: resizer_start_def)
  have s3: "resizer_step ?b ?c"
    using update_locked [of ?b "(2, 2)"] by (simp add: resizer_start_def)
  have s4: "resizer_step ?c ?d"
    using update_calls [of ?c "(0, 2, 2)"] by (simp add: resizer_start_def)
  have s5: "resizer_step ?d resizer_stale"
    using handler_calls [of ?d "[]" "(0, 1, 1)" "[]"] by (simp add: resizer_start_def resizer_stale_def)
  note then_step = reaches_step [of resizer_step resizer_start]
  have "reaches resizer_step resizer_start ?a" using reaches_refl s1 by (rule then_step)
  then have "reaches resizer_step resizer_start ?b" using s2 by (rule then_step)
  then have "reaches resizer_step resizer_start ?c" using s3 by (rule then_step)
  then have "reaches resizer_step resizer_start ?d" using s4 by (rule then_step)
  then show ?thesis using s5 by (rule then_step)
qed

text \<open>
  C31. The newest terminal size reaches the handler, but not always last. When no call is in hand, the
  installed handler has been called with the newest size, in every interleaving of size events and handler
  installations. But the handler is called after the mutex is released, so a handler installed while a size
  arrives may be called with the newer size first and then with the older one it replays, and stay at it:
  such a state is reachable.
\<close>

theorem resizer_race:
  assumes "reaches resizer_step resizer_start r" "resizer_quiet r" "rs_handler r = Some h" "rs_console r \<noteq> None"
  shows "(h, rs_size r) \<in> set (rs_calls r) \<and>
    (\<exists>u k. reaches resizer_step resizer_start u \<and> resizer_quiet u \<and> rs_handler u = Some k \<and> rs_console u = Some (rs_size u) \<and>
       last (rs_calls u) \<noteq> (k, rs_size u))"
proof -
  have "(h, rs_size r) \<in> set (rs_calls r)"
    using resizing.inv_reaches [OF assms(1)] assms(2-4) by (simp add: resizer_inv_def resizer_quiet_def)
  moreover have "resizer_quiet resizer_stale \<and> rs_handler resizer_stale = Some 0 \<and> rs_console resizer_stale = Some (rs_size resizer_stale) \<and>
      last (rs_calls resizer_stale) \<noteq> (0, rs_size resizer_stale)"
    by (simp add: resizer_quiet_def resizer_stale_def)
  ultimately show ?thesis using resizer_stale_reached by blast
qed

theorem resizer_race_witness: "(0, 2, 2) \<in> set (rs_calls resizer_stale)"
  using resizer_race [OF resizer_stale_reached, of 0] by (simp add: resizer_quiet_def resizer_stale_def)

section \<open>The resizer's goroutine\<close>

text \<open>Which case each \<^verbatim>\<open>select\<close> of the goroutine takes: a size, the closed channel, the end of the initial wait, the end of
  the context (\<^verbatim>\<open>Done\<close> of the resizer cancels it). The first \<^verbatim>\<open>select\<close> delivers the resizer in every case: its channel has
  room for it. The second has no timeout and leaves on the closed channel and on the context.\<close>

datatype resizer_event = SizeEvent "nat \<times> nat" | SizesClosed | InitialTimeout | ContextDone

datatype resizer_phase = RInitial | RLoop | RReturned

record resizer_goroutine =
  rg_phase :: resizer_phase
  rg_ready :: bool
  rg_resizer :: resizer

definition resizer_spawn :: resizer_goroutine where
  "resizer_spawn = \<lparr>rg_phase = RInitial, rg_ready = False, rg_resizer = resizer_new\<rparr>"

fun resizer_select :: "resizer_event \<Rightarrow> resizer_goroutine \<Rightarrow> resizer_goroutine" where
  "resizer_select ev g =
     (case rg_phase g of
        RInitial \<Rightarrow>
          (case ev of
             SizeEvent s \<Rightarrow> g\<lparr>rg_resizer := rz_update s (rg_resizer g), rg_ready := True, rg_phase := RLoop\<rparr>
           | _ \<Rightarrow> g\<lparr>rg_ready := True, rg_phase := RLoop\<rparr>)
      | RLoop \<Rightarrow>
          (case ev of
             SizeEvent s \<Rightarrow> g\<lparr>rg_resizer := rz_update s (rg_resizer g)\<rparr>
           | SizesClosed \<Rightarrow> g\<lparr>rg_phase := RReturned\<rparr>
           | ContextDone \<Rightarrow> g\<lparr>rg_phase := RReturned\<rparr>
           | InitialTimeout \<Rightarrow> g)
      | RReturned \<Rightarrow> g)"

fun loop_sizes :: "resizer_event list \<Rightarrow> (nat \<times> nat) list" where
  "loop_sizes [] = []"
| "loop_sizes (SizeEvent s # evs) = s # loop_sizes evs"
| "loop_sizes (InitialTimeout # evs) = loop_sizes evs"
| "loop_sizes (SizesClosed # evs) = []"
| "loop_sizes (ContextDone # evs) = []"

lemma resizer_returned: "rg_phase g = RReturned \<Longrightarrow> fold resizer_select evs g = g"
  by (induction evs) simp_all

lemma resizer_looping:
  "rg_phase g = RLoop \<Longrightarrow> rg_resizer (fold resizer_select evs g) = resizer_loop (loop_sizes evs) (rg_resizer g) \<and>
     rg_ready (fold resizer_select evs g) = rg_ready g"
  by (induction evs arbitrary: g rule: loop_sizes.induct) (simp_all add: resizer_loop_def resizer_returned)

text \<open>The goroutine computes what \<open>Resizer\<close> and \<open>resizer_loop\<close> say, and delivers the resizer at its first event, whichever it is:
  a client without sizes delays a session by the initial wait and no more.\<close>

lemma resizer_goroutine_runs:
  "rg_ready (fold resizer_select (ev # evs) resizer_spawn) \<and>
   rg_resizer (fold resizer_select (ev # evs) resizer_spawn) =
     resizer_loop (loop_sizes evs) (Resizer (case ev of SizeEvent s \<Rightarrow> Some s | _ \<Rightarrow> None))"
  by (cases ev) (simp_all add: resizer_spawn_def resizer_looping Resizer_def)

end
