(* ===== verification/Seed_Command.thy ===== *)
theory Seed_Command
  imports Storage
begin

text \<open>
  The \<^verbatim>\<open>seed\<close> commands of \<^verbatim>\<open>src/pkg/command.go\<close> and what they read: the hook \<^verbatim>\<open>update-token\<close> publishes a kubeconfig of the
  cluster under its seed, and \<^verbatim>\<open>seed kubeconfig\<close> on another machine merges it into the user's file. The
  property is about the way from the one to the other, through the client wrapper and the discovery
  service.
\<close>

section \<open>The commands\<close>

text \<open>A call that does not touch the state.\<close>

definition go_of :: "'a outcome \<Rightarrow> ('s, 'a) go" where
  "go_of r s = (r, s)"

text \<open>\<open>cc\<close> is the library's resolution of a kubeconfig (\<^verbatim>\<open>clientcmd.NewDefaultClientConfig(...).ClientConfig()\<close>).\<close>

definition NewClientForKubeconfig :: "(kubeconfig \<Rightarrow> error + rest_config) \<Rightarrow> (rest_config \<Rightarrow> bool) \<Rightarrow> kubeconfig \<Rightarrow> client outcome" where
  "NewClientForKubeconfig cc mk k =
     (case cc k of Inl _ \<Rightarrow> Panic ''client config'' | Inr cfg \<Rightarrow> NewClient mk cfg)"

definition seed_RunE :: "nat \<Rightarrow> 'w net_world \<Rightarrow> ('w discovery, string \<times> error option) go" where
  "seed_RunE n N = go_bind (Seed n N) (\<lambda>seed. go_ret (seed @ [newline], None))"

text \<open>\<open>loaded\<close> is the user's file as the library loads it and \<open>modify\<close> what writing it gives; the result is the file written.\<close>

definition seed_kubeconfig_RunE :: "nat \<Rightarrow> 'w net_world \<Rightarrow> (kubeconfig \<Rightarrow> error + rest_config) \<Rightarrow> (rest_config \<Rightarrow> bool) \<Rightarrow>
    error + kubeconfig \<Rightarrow> (kubeconfig \<Rightarrow> error option) \<Rightarrow> string \<Rightarrow> ('w discovery, error + kubeconfig) go" where
  "seed_kubeconfig_RunE n N cc mk loaded modify seed =
     go_try_with (Wrapf ''failed to get kubeconfig from discovery service'') (disc_Kubeconfig n N seed) (\<lambda>k.
       go_bind (go_of (NewClientForKubeconfig cc mk k)) (\<lambda>client.
         go_ret (case WriteKubeconfig (CurrentContext k) client loaded of
                   Inl e \<Rightarrow> Inl (Wrapf ''failed to write kubeconfig'' e)
                 | Inr merged \<Rightarrow>
                     (case modify merged of
                        Some e \<Rightarrow> Inl (Wrapf ''failed to write kubeconfig'' e)
                      | None \<Rightarrow> Inr merged))))"

text \<open>The end of the hook \<^verbatim>\<open>update-token\<close>: \<open>c\<close> is the program's client, \<open>tn\<close> the tunnel with its \<open>url\<close>.\<close>

definition published_kubeconfig :: "(rest_config \<Rightarrow> bool) \<Rightarrow> tunnel \<Rightarrow> string \<Rightarrow> string \<Rightarrow> client \<Rightarrow> kubeconfig outcome" where
  "published_kubeconfig mk tn url token c =
     outcome_then (client_WithTunnel mk tn False c) (\<lambda>c1.
     outcome_then (client_WithToken mk token c1) (\<lambda>c2. Ret (Kubeconfig url c2)))"

definition publish_kubeconfig :: "nat \<Rightarrow> 'w net_world \<Rightarrow> (rest_config \<Rightarrow> bool) \<Rightarrow> tunnel \<Rightarrow> string \<Rightarrow> string \<Rightarrow> client \<Rightarrow> ('w discovery, unit) go" where
  "publish_kubeconfig n N mk tn url token c =
     go_bind (go_of (published_kubeconfig mk tn url token c)) (\<lambda>k. disc_WithKubeconfig n N k)"

section \<open>From one machine to another\<close>

text \<open>What the program relies on: a value posted to the service and acknowledged is returned for the same address,
  JSON decodes what it encoded, and the library resolves a kubeconfig to the server and user of its current
  context.\<close>

definition kubeconfig_address :: "string \<Rightarrow> string" where
  "kubeconfig_address seed = service_url (''/'' @ seed @ ''/kubeconfig'')"

definition keeps_values :: "'w net_world \<Rightarrow> bool" where
  "keeps_values N \<longleftrightarrow> (\<forall>url body w r w'. client_Do N \<lparr>rq_method = ''POST'', rq_url = url, rq_body = body\<rparr> w = (Inr r, w') \<and> rs_status r = 200 \<longrightarrow>
     (\<exists>r' w''. client_Do N \<lparr>rq_method = ''GET'', rq_url = url, rq_body = []\<rparr> w' = (Inr r', w'') \<and> rs_status r' = 200 \<and> rs_body r' = Inr body))"

definition json_inverse :: "'w net_world \<Rightarrow> bool" where
  "json_inverse N \<longleftrightarrow> (\<forall>k j. config_json N k = Some j \<longrightarrow> json_config N j = Some k)"

definition resolves :: "(kubeconfig \<Rightarrow> error + rest_config) \<Rightarrow> bool" where
  "resolves cc \<longleftrightarrow> (\<forall>k ctx cl au. map_of (Contexts k) (CurrentContext k) = Some ctx \<and> map_of (Clusters k) (ku_Cluster ctx) = Some cl \<and>
      map_of (AuthInfos k) (ku_AuthInfo ctx) = Some au \<longrightarrow>
     (\<exists>cfg. cc k = Inr cfg \<and> rc_Host cfg = ku_Server cl \<and> rc_CAData cfg = ku_CAData cl \<and> rc_Insecure cfg = ku_Insecure cl \<and>
        rc_BearerToken cfg = ku_Token au \<and> rc_CertData cfg = ku_CertData au \<and> rc_KeyData cfg = ku_KeyData au))"

lemma resolvesD:
  assumes "resolves cc" "map_of (Contexts k) (CurrentContext k) = Some ctx" "map_of (Clusters k) (ku_Cluster ctx) = Some cl"
    "map_of (AuthInfos k) (ku_AuthInfo ctx) = Some au"
  shows "\<exists>cfg. cc k = Inr cfg \<and> rc_Host cfg = ku_Server cl \<and> rc_CAData cfg = ku_CAData cl \<and> rc_Insecure cfg = ku_Insecure cl \<and>
    rc_BearerToken cfg = ku_Token au"
  using assms unfolding resolves_def by blast

lemma do_req_answered:
  "client_Do N req (dv_world d) = (Inr r, w) \<Longrightarrow> rs_status r \<noteq> 429 \<Longrightarrow> do_req (Suc n) N req d = (Ret (Inr r), d\<lparr>dv_world := w\<rparr>)"
  by (simp add: do_req_def do_loop_Suc failed_attempt_def)

lemma Seed_known: "seedOnce d \<Longrightarrow> Seed n N d = (Ret (dv_seed d), d)"
  by (simp add: Seed_def)

lemma disc_WithKubeconfig_answered:
  assumes "seedOnce d" "config_json N k = Some j" "req = \<lparr>rq_method = ''POST'', rq_url = kubeconfig_address (dv_seed d), rq_body = j\<rparr>"
    "req_ok N req" "client_Do N req (dv_world d) = (Inr r, w)" "rs_status r = 200"
  shows "disc_WithKubeconfig (Suc n) N k d = (Ret (), d\<lparr>dv_world := w\<rparr>)"
  using assms(1-4) do_req_answered [OF assms(5)] assms(6)
  by (simp add: disc_WithKubeconfig_def Seed_known new_req_def kubeconfig_address_def Let_def)

lemma disc_Kubeconfig_answered:
  assumes "req = \<lparr>rq_method = ''GET'', rq_url = kubeconfig_address seed, rq_body = []\<rparr>" "req_ok N req"
    "client_Do N req (dv_world d) = (Inr r, w)" "rs_status r = 200" "rs_body r = Inr j" "json_config N j = Some k"
  shows "disc_Kubeconfig (Suc n) N seed d = (Ret (Inr k), d\<lparr>dv_world := w\<rparr>)"
  using assms(1,2,4-6) do_req_answered [OF assms(3)]
  by (simp add: disc_Kubeconfig_def new_req_def kubeconfig_address_def Let_def)

lemma published_kubeconfig_of:
  assumes "cl_config c = Some cfg" "published_kubeconfig mk tn url token c = Ret k"
  shows "Clusters k = [(url, \<lparr>ku_Server = ''https://'' @ tn_Hostname tn, ku_CAData = None, ku_Insecure = False\<rparr>)] \<and>
    AuthInfos k = [(url, \<lparr>ku_CertData = rc_CertData cfg, ku_KeyData = rc_KeyData cfg, ku_Token = token\<rparr>)] \<and>
    Contexts k = [(url, \<lparr>ku_Cluster = url, ku_AuthInfo = url\<rparr>)] \<and> CurrentContext k = url"
  using assms
  by (auto simp: published_kubeconfig_def client_WithTunnel_def client_WithToken_def derive_def Kubeconfig_def split: if_splits)

lemma WriteKubeconfig_of:
  assumes "cl_config c = Some cfg" "name \<noteq> []"
  shows "\<exists>m. WriteKubeconfig name c (Inr before) = Inr m \<and> CurrentContext m = name \<and>
    map_of (Clusters m) name = Some \<lparr>ku_Server = rc_Host cfg, ku_CAData = (if rc_Insecure cfg then None else rc_CAData cfg), ku_Insecure = rc_Insecure cfg\<rparr> \<and>
    map_of (AuthInfos m) name = Some \<lparr>ku_CertData = rc_CertData cfg, ku_KeyData = rc_KeyData cfg, ku_Token = rc_BearerToken cfg\<rparr> \<and>
    map_of (Contexts m) name = Some \<lparr>ku_Cluster = name, ku_AuthInfo = name\<rparr> \<and>
    (\<forall>other. other \<noteq> name \<longrightarrow> map_of (Clusters m) other = map_of (Clusters before) other \<and>
       map_of (AuthInfos m) other = map_of (AuthInfos before) other \<and> map_of (Contexts m) other = map_of (Contexts before) other)"
  using assms by (auto simp: WriteKubeconfig_def Kubeconfig_def Let_def)

text \<open>
  C14. A seed gives access to its cluster. Suppose the hook published the cluster's kubeconfig and the service
  acknowledged it. Then \<^verbatim>\<open>seed kubeconfig\<close> with that seed, run anywhere, ends without an error, and the file it writes
  has the cluster's public address with certificate checks on, the minted token and no other server under
  the cluster's name, makes that context the current one, and keeps every entry the user had under another
  name.
\<close>

theorem seed_gives_access:
  assumes "keeps_values N" "json_inverse N" "resolves cc" "\<forall>cfg. mk cfg" "\<forall>r. req_ok N r" "\<forall>k. modify k = None"
    and "cl_config c = Some cfg" "url \<noteq> []" "published_kubeconfig mk tn url token c = Ret k" "config_json N k = Some j"
    and "seedOnce d" "client_Do N \<lparr>rq_method = ''POST'', rq_url = kubeconfig_address (dv_seed d), rq_body = j\<rparr> (dv_world d) = (Inr r, w)"
      "rs_status r = 200"
    and "dv_world d2 = dv_world (snd (publish_kubeconfig (Suc n) N mk tn url token c d))"
  shows "\<exists>m d3. seed_kubeconfig_RunE (Suc n) N cc mk (Inr before) modify (dv_seed d) d2 = (Ret (Inr m), d3) \<and> CurrentContext m = url \<and>
    map_of (Clusters m) url = Some \<lparr>ku_Server = ''https://'' @ tn_Hostname tn, ku_CAData = None, ku_Insecure = False\<rparr> \<and>
    map_option ku_Token (map_of (AuthInfos m) url) = Some token \<and> map_of (Contexts m) url = Some \<lparr>ku_Cluster = url, ku_AuthInfo = url\<rparr> \<and>
    (\<forall>other. other \<noteq> url \<longrightarrow> map_of (Clusters m) other = map_of (Clusters before) other \<and>
       map_of (AuthInfos m) other = map_of (AuthInfos before) other \<and> map_of (Contexts m) other = map_of (Contexts before) other)"
proof -
  note k = published_kubeconfig_of [OF assms(7,9)]
  have "disc_WithKubeconfig (Suc n) N k d = (Ret (), d\<lparr>dv_world := w\<rparr>)"
    by (rule disc_WithKubeconfig_answered [OF assms(11,10) refl _ assms(12,13)]) (use assms(5) in simp)
  then have w: "dv_world d2 = w" using assms(9,14) by (simp add: publish_kubeconfig_def go_of_def go_bind_def)
  obtain r' w' where get: "client_Do N \<lparr>rq_method = ''GET'', rq_url = kubeconfig_address (dv_seed d), rq_body = []\<rparr> w = (Inr r', w')"
    "rs_status r' = 200" "rs_body r' = Inr j"
    using assms(1,12,13) unfolding keeps_values_def by blast
  have fetched: "disc_Kubeconfig (Suc n) N (dv_seed d) d2 = (Ret (Inr k), d2\<lparr>dv_world := w'\<rparr>)"
    by (rule disc_Kubeconfig_answered [OF refl _ _ get(2,3)]) (use assms(2,5,10) get(1) w in \<open>auto simp: json_inverse_def\<close>)
  obtain cfg2 where cfg2: "cc k = Inr cfg2" "rc_Host cfg2 = ''https://'' @ tn_Hostname tn" "rc_CAData cfg2 = None" "\<not> rc_Insecure cfg2" "rc_BearerToken cfg2 = token"
    using resolvesD [OF assms(3), of k "\<lparr>ku_Cluster = url, ku_AuthInfo = url\<rparr>" "\<lparr>ku_Server = ''https://'' @ tn_Hostname tn, ku_CAData = None, ku_Insecure = False\<rparr>"
        "\<lparr>ku_CertData = rc_CertData cfg, ku_KeyData = rc_KeyData cfg, ku_Token = token\<rparr>"] k
    by auto
  then have client: "NewClientForKubeconfig cc mk k = Ret \<lparr>cl_ctx = True, cl_config = Some cfg2\<rparr>"
    using assms(4) by (simp add: NewClientForKubeconfig_def NewClient_def)
  show ?thesis
    using WriteKubeconfig_of [where c = "\<lparr>cl_ctx = True, cl_config = Some cfg2\<rparr>" and cfg = cfg2 and name = url and before = before] fetched client cfg2 k assms(6,8)
    by (auto simp: seed_kubeconfig_RunE_def go_bind_def go_of_def)
qed

text \<open>A world with one store, in which one kubeconfig has a JSON form.\<close>

definition demo_client :: client where
  "demo_client = \<lparr>cl_ctx = True, cl_config = Some \<lparr>rc_Host = ''https://127.0.0.1:1'', rc_CAData = Some ''ca'', rc_Insecure = False,
     rc_CertData = [], rc_KeyData = [], rc_BearerToken = ''loop'', rc_QPS = 0, rc_Burst = 0, rc_Timeout = 0\<rparr>\<rparr>"

definition demo_tunnel :: tunnel where
  "demo_tunnel = \<lparr>tn_Hostname = ''nk.example'', tn_LocalIP = ''127.0.0.1'', tn_LocalPort = 1, tn_Port = 443\<rparr>"

definition demo_config :: kubeconfig where
  "demo_config =
     \<lparr>Clusters = [(''nk'', \<lparr>ku_Server = ''https://nk.example'', ku_CAData = None, ku_Insecure = False\<rparr>)],
      AuthInfos = [(''nk'', \<lparr>ku_CertData = [], ku_KeyData = [], ku_Token = ''tok''\<rparr>)],
      Contexts = [(''nk'', \<lparr>ku_Cluster = ''nk'', ku_AuthInfo = ''nk''\<rparr>)], CurrentContext = ''nk''\<rparr>"

definition demo_answer :: "string \<Rightarrow> http_resp" where
  "demo_answer body = \<lparr>rs_status = 200, rs_location = [], rs_retry_after = [], rs_body = Inr body\<rparr>"

definition demo_store :: "strmap net_world" where
  "demo_store =
     \<lparr>client_Do = (\<lambda>req w. if rq_method req = ''POST'' then (Inr (demo_answer []), AList.update (rq_url req) (rq_body req) w)
                            else (Inr (demo_answer (mget w (rq_url req))), w)),
      ctx_cause = (\<lambda>w. None), timer_first = (\<lambda>t w. (True, w)), req_ok = (\<lambda>r. True), http_until = (\<lambda>v. None), json_strings = (\<lambda>b. None),
      json_config = (\<lambda>b. if b = ''json'' then Some demo_config else None), config_json = (\<lambda>k. if k = demo_config then Some ''json'' else None),
      file_remove = (\<lambda>w. None), file_write = (\<lambda>w. None)\<rparr>"

definition demo_resolve :: "kubeconfig \<Rightarrow> error + rest_config" where
  "demo_resolve k =
     (case map_of (Contexts k) (CurrentContext k) of
        None \<Rightarrow> Inl (ErrNotFound (CurrentContext k))
      | Some ctx \<Rightarrow>
          (case (map_of (Clusters k) (ku_Cluster ctx), map_of (AuthInfos k) (ku_AuthInfo ctx)) of
             (Some cl, Some au) \<Rightarrow> Inr \<lparr>rc_Host = ku_Server cl, rc_CAData = ku_CAData cl, rc_Insecure = ku_Insecure cl, rc_CertData = ku_CertData au,
                rc_KeyData = ku_KeyData au, rc_BearerToken = ku_Token au, rc_QPS = 0, rc_Burst = 0, rc_Timeout = 0\<rparr>
           | _ \<Rightarrow> Inl (ErrNotFound (ku_Cluster ctx))))"

definition demo_discovery :: "strmap discovery" where
  "demo_discovery = (NewDiscovery None [] [])\<lparr>dv_seed := ''s'', seedOnce := True\<rparr>"

lemma demo_store_keeps: "keeps_values demo_store" "json_inverse demo_store" "resolves demo_resolve"
  by (auto simp: keeps_values_def json_inverse_def resolves_def demo_store_def demo_answer_def demo_resolve_def split: if_splits)

lemma demo_published: "published_kubeconfig (\<lambda>_. True) demo_tunnel ''nk'' ''tok'' demo_client = Ret demo_config"
  by (simp add: published_kubeconfig_def client_WithTunnel_def client_WithToken_def derive_def Kubeconfig_def demo_client_def demo_tunnel_def demo_config_def)

theorem seed_gives_access_witness:
  "\<exists>m d. seed_kubeconfig_RunE 1 demo_store demo_resolve (\<lambda>_. True) (Inr \<lparr>Clusters = [], AuthInfos = [], Contexts = [], CurrentContext = []\<rparr>)
       (\<lambda>_. None) ''s'' (NewDiscovery None [] (dv_world (snd (publish_kubeconfig 1 demo_store (\<lambda>_. True) demo_tunnel ''nk'' ''tok'' demo_client demo_discovery)))) =
     (Ret (Inr m), d) \<and> CurrentContext m = ''nk'' \<and> map_option ku_Token (map_of (AuthInfos m) ''nk'') = Some ''tok''"
  using seed_gives_access [of demo_store demo_resolve "\<lambda>_. True" "\<lambda>_. None" demo_client "the (cl_config demo_client)" "''nk''" demo_tunnel "''tok''" demo_config
      "''json''" demo_discovery "demo_answer []" "[(kubeconfig_address ''s'', ''json'')]"
      "NewDiscovery None [] (dv_world (snd (publish_kubeconfig 1 demo_store (\<lambda>_. True) demo_tunnel ''nk'' ''tok'' demo_client demo_discovery)))" 0
      "\<lparr>Clusters = [], AuthInfos = [], Contexts = [], CurrentContext = []\<rparr>"]
    demo_store_keeps demo_published
  by (auto simp: demo_store_def demo_discovery_def demo_client_def demo_answer_def NewDiscovery_def)

end
