(* ===== verification/Run_Command.thy ===== *)
theory Run_Command
  imports Command Storage Start_Hooks
begin

text \<open>
  How the program is put together and started (\<^verbatim>\<open>src/main.go\<close> and \<^verbatim>\<open>RunE\<close>, \<^verbatim>\<open>With\<close> and \<^verbatim>\<open>klog.OsExit\<close> of \<^verbatim>\<open>src/pkg/command.go\<close>): the
  chain of \<^verbatim>\<open>With\<close> calls of \<^verbatim>\<open>main\<close>, the root command that registers the hooks and runs the API server's command, the
  replacement of \<^verbatim>\<open>apiserver.Run\<close> that builds the server and runs it, and those of \<^verbatim>\<open>kubelet.UnsecuredDependencies\<close> and
  \<^verbatim>\<open>kubelet.Run\<close>. What happens between the goroutines once the server runs is in \<open>Lifecycle\<close>.
\<close>

section \<open>The program's command\<close>

text \<open>\<open>F\<close> gives the flags each component's command has; the commands are library code.\<close>

definition main_names :: "string list" where
  "main_names = [''kube-apiserver'', ''kube-controller-manager'', ''kube-scheduler'', ''kubelet'']"

definition main_commands :: "(string \<Rightarrow> strmap) \<Rightarrow> cobra list" where
  "main_commands F = map (\<lambda>name. \<lparr>cb_name = name, cb_flags = F name\<rparr>) main_names"

definition main_chain :: "'c sys \<Rightarrow> (string \<Rightarrow> strmap) \<Rightarrow> (('b, 'c) command, unit) go" where
  "main_chain Y F = go_each (With Y) (main_commands F)"

text \<open>The hooks the root command registers, by the keys of its three maps, with the channel each waits for.\<close>

record registration =
  rg_run :: "(string \<times> string \<times> cobra) list"
  rg_start :: "(string \<times> string) list"
  rg_stop :: "string list"

definition RunE_start :: "(string \<times> string) list" where
  "RunE_start =
     [(''update-kubeconfig'', ''hostnameReady''), (''record-events'', ''kubeconfigReady''), (''node-startup'', ''kubeconfigReady''),
      (''untaint-node'', ''nodeReady''), (''update-status'', ''nodeReady''), (''update-rbac'', ''pathsProvided''),
      (''update-token'', ''kubeconfigReady'')]"

text \<open>The root command looks each component up, which waits for it, and then runs the API server's command with the hooks
  registered; the result is what it runs and with which hooks.\<close>

definition RunE :: "(('b, 'c) command, cobra \<times> registration) go" where
  "RunE =
     go_bind (component_command ''kube-controller-manager'') (\<lambda>cm.
     go_bind (component_command ''kube-scheduler'') (\<lambda>sc.
     go_bind (component_command ''kubelet'') (\<lambda>kl.
     go_bind (component_command ''kube-apiserver'') (\<lambda>api.
       go_ret (api,
         \<lparr>rg_run = [(''start-kube-controller-manager'', ''kubeconfigReady'', cm), (''start-kube-scheduler'', ''kubeconfigReady'', sc),
                    (''start-kubelet'', ''kubeconfigReady'', kl)],
          rg_start = RunE_start, rg_stop = [''drain-node'']\<rparr>)))))"

text \<open>A fatal log message cancels the process instead of ending it.\<close>

definition klog_OsExit :: "'c sys \<Rightarrow> int \<Rightarrow> (('b, 'c) command, unit) go" where
  "klog_OsExit Y code = on_nano (CancelErr Y (Errorf (''klog exit code '' @ strconv_FormatInt code)))"

section \<open>The kubelet\<close>

text \<open>Four of the kubelet's dependencies come from the default backend, which is asked for each of them: \<open>picks\<close> are the orders
  the map of backends is visited in. The others are the host and the process-wide object.\<close>

record 'b kubelet_deps =
  kd_CAdvisorInterface :: 'b
  kd_ContainerManager :: 'b
  kd_RemoteImageService :: 'b
  kd_RemoteRuntimeService :: 'b

type_synonym 'b visit = "(string \<times> 'b) list \<Rightarrow> (string \<times> 'b) list"

definition UnsecuredDependencies :: "'c sys \<Rightarrow> 'b machine \<Rightarrow> ('b machine \<Rightarrow> (string \<times> 'b) option) list \<Rightarrow>
    'b visit \<times> 'b visit \<times> 'b visit \<times> 'b visit \<Rightarrow> (('b, 'c) nano, 'b kubelet_deps) go" where
  "UnsecuredDependencies Y M ds = (\<lambda>(p1, p2, p3, p4).
     go_bind (DefaultBackend Y M ds p1) (\<lambda>b1.
     go_bind (DefaultBackend Y M ds p2) (\<lambda>b2.
     go_bind (DefaultBackend Y M ds p3) (\<lambda>b3.
     go_bind (DefaultBackend Y M ds p4) (\<lambda>b4.
       go_ret \<lparr>kd_CAdvisorInterface = b1, kd_ContainerManager = b2, kd_RemoteImageService = b3, kd_RemoteRuntimeService = b4\<rparr>)))))"

record kubelet_server =
  kb_ClusterDNS :: "string list"
  kb_ClusterDomain :: string
  kb_HostnameOverride :: string
  kb_NodeLabels :: "strmap option"
  kb_PodLogsDir :: string
  kb_Port :: int
  kb_RegisterNode :: bool

definition kubelet_Run :: "'c sys \<Rightarrow> string \<Rightarrow> string \<Rightarrow> string \<Rightarrow> kubelet_server \<Rightarrow> (('b, 'c) command, kubelet_server) go" where
  "kubelet_Run Y uuid domain localHost ks =
     go_bind (kubelet_labels Y uuid (case kb_NodeLabels ks of None \<Rightarrow> [] | Some m \<Rightarrow> m)) (\<lambda>labels.
     go_bind (on_nano (data_dir ''logs'')) (\<lambda>logs.
       go_ret (ks\<lparr>kb_ClusterDNS := [''1.1.1.1''], kb_ClusterDomain := domain, kb_HostnameOverride := localHost,
         kb_NodeLabels := Some labels, kb_PodLogsDir := logs, kb_Port := 443, kb_RegisterNode := True\<rparr>)))"

section \<open>The program is complete before it runs\<close>

text \<open>The files of the data directory can be read and written, and a certificate generated.\<close>

definition files_ok :: "'c sys \<Rightarrow> bool" where
  "files_ok Y \<longleftrightarrow> (\<forall>p. sy_write Y p = None) \<and> (\<forall>p. sy_read Y p = None) \<and> (\<forall>h ns. \<exists>c k. sy_gen Y h ns = Inr (c, k))"

text \<open>Once the pair was made, the certificate is on the disk.\<close>

definition cert_there :: "('b, 'c) nano \<Rightarrow> bool" where
  "cert_there s \<longleftrightarrow> nk_certKeyOnce s \<longrightarrow> os_Stat (path_at (nk_options s) CertFile) (nk_disk s)"

lemma os_Stat_update: "os_Stat p d \<Longrightarrow> os_Stat p (AList.update q x d)"
  by (auto simp: os_Stat_def update_conv')

lemma returns_file_path: "triple cert_there (file_path f) (\<lambda>_. cert_there) (\<lambda>_. False)"
  by (simp add: triple_def file_path_run cert_there_def)

lemma path_at_DataDirAt: "path_at (snd (DataDirAt f o1)) = path_at o1"
  by (simp add: DataDirAt_def path_at_def Let_def fun_eq_iff split: option.splits)

lemma data_dir_run: "data_dir f s = (Ret (fst (DataDirAt f (nk_options s))), s\<lparr>nk_options := snd (DataDirAt f (nk_options s))\<rparr>)"
  by (simp add: data_dir_def split: prod.splits)

lemma returns_data_dir: "triple cert_there (data_dir f) (\<lambda>_. cert_there) (\<lambda>_. False)"
  by (simp add: triple_def data_dir_run cert_there_def path_at_DataDirAt)

lemma cert_key_made:
  assumes "files_ok Y"
  shows "\<exists>t. ensureCertKey Y s = (Ret (path_at (nk_options s) CertFile, path_at (nk_options s) KeyFile), t) \<and>
    path_at (nk_options t) = path_at (nk_options s) \<and> nk_certKeyOnce t \<and> nk_rootCaOnce t = nk_rootCaOnce s \<and>
    (cert_there s \<longrightarrow> os_Stat (path_at (nk_options s) CertFile) (nk_disk t))"
proof -
  obtain c k where gen: "sy_gen Y ''localhost'' [sy_LocalHost Y, ''apiserver-loopback-client''] = Inr (c, k)"
    using assms unfolding files_ok_def by blast
  show ?thesis
    using gen assms
    by (auto simp: ensureCertKey_def go_bind_def file_path_run once_do_def cert_key_body_def write_file_ok files_ok_def cert_there_def
        os_Stat_def update_conv')
qed

lemma returns_ensureCertKey:
  fixes Y :: "'c sys"
  assumes "files_ok Y"
  shows "triple cert_there (ensureCertKey Y :: (('b, 'c) nano, string \<times> string) go) (\<lambda>p s. cert_there s \<and> os_Stat (fst p) (nk_disk s)) (\<lambda>_. False)"
  unfolding triple_def
proof (intro allI impI)
  fix s :: "('b, 'c) nano"
  assume "cert_there s"
  then show "case ensureCertKey Y s of (Ret p, t) \<Rightarrow> cert_there t \<and> os_Stat (fst p) (nk_disk t) | (_, t) \<Rightarrow> False"
    using cert_key_made [OF assms, of s] by (auto simp: cert_there_def)
qed

lemma returns_CertKeyFilePath:
  assumes "files_ok Y"
  shows "triple cert_there (CertFilePath Y) (\<lambda>_. cert_there) (\<lambda>_. False)" "triple cert_there (KeyFilePath Y) (\<lambda>_. cert_there) (\<lambda>_. False)"
  unfolding CertFilePath_def KeyFilePath_def
  by (rule triple_bind [OF returns_ensureCertKey [OF assms]]; auto simp: triple_def)+

lemma returns_root_ca_body:
  assumes "files_ok Y"
  shows "triple cert_there (root_ca_body Y path) (\<lambda>_. cert_there) (\<lambda>_. False)"
  unfolding root_ca_body_def
  by (rule triple_bind [OF returns_ensureCertKey [OF assms]])
     (use assms in \<open>auto simp: triple_def os_ReadFile_def os_Stat_def files_ok_def write_file_ok cert_there_def update_conv' split: option.splits\<close>)

lemma returns_once:
  assumes "triple P body (\<lambda>_. P) (\<lambda>_. False)" "\<And>s. P s \<Longrightarrow> P (mark s)"
  shows "triple P (once_do flag mark body) (\<lambda>_. P) (\<lambda>_. False)"
proof (rule tripleI)
  fix s a t assume s: "P s" and r: "once_do flag mark body s = (Ret a, t)"
  show "P t"
  proof (cases "flag s")
    case False
    then obtain u where "body s = (Ret a, u)" "t = mark u" using r by (auto simp: once_do_def split: prod.splits)
    then show ?thesis using triple_Ret [OF assms(1) s] assms(2) by blast
  qed (use s r in \<open>simp add: once_do_def\<close>)
next
  fix s r t assume s: "P s" and r: "once_do flag mark body s = (r, t)" and no: "\<And>a. r \<noteq> Ret a"
  then obtain u where b: "body s = (r, u)" by (auto simp: once_do_def split: prod.splits if_splits)
  show False
    using assms(1) s b no by (cases r) (auto simp: triple_def)
qed

lemma returns_RootCaFilePath:
  assumes "files_ok Y"
  shows "triple cert_there (RootCaFilePath Y) (\<lambda>_. cert_there) (\<lambda>_. False)"
  unfolding RootCaFilePath_def
  by (rule triple_bind [OF returns_file_path], rule triple_bind [OF returns_once [OF returns_root_ca_body [OF assms]]])
     (auto simp: cert_there_def intro: triple_ret)

text \<open>The values of the flags only need the files, so every command is taken in.\<close>

definition co_cert :: "('b, 'c) command \<Rightarrow> bool" where
  "co_cert s \<longleftrightarrow> cert_there (co_nano s)"

lemma returns_on_nano:
  fixes m :: "(('b, 'c) nano, 'a) go"
  assumes "triple cert_there m (\<lambda>_. cert_there) (\<lambda>_. False)"
  shows "triple co_cert (on_nano m) (\<lambda>_. co_cert) (\<lambda>_. False)"
  unfolding triple_def
proof (intro allI impI)
  fix s :: "('b, 'c) command"
  assume "co_cert s"
  then have "case m (co_nano s) of (Ret a, t) \<Rightarrow> cert_there t | (_, t) \<Rightarrow> False" using assms by (simp add: triple_def co_cert_def)
  then show "case on_nano m s of (Ret a, t) \<Rightarrow> co_cert t | (_, t) \<Rightarrow> False"
    by (cases "m (co_nano s)"; cases "fst (m (co_nano s))") (auto simp: on_nano_def co_cert_def)
qed

lemma returns_settings:
  assumes "files_ok Y" "settings_of Y name = Some fs" "p \<in> set fs"
  shows "triple co_cert (snd p) (\<lambda>_. co_cert) (\<lambda>_. False)"
proof -
  note nano = returns_on_nano [OF returns_data_dir] returns_on_nano [OF returns_CertKeyFilePath(1) [OF assms(1)]]
    returns_on_nano [OF returns_CertKeyFilePath(2) [OF assms(1)]] returns_on_nano [OF returns_RootCaFilePath [OF assms(1)]]
  have r: "triple co_cert (go_ret a) (\<lambda>_. co_cert) (\<lambda>_. False)" for a by (rule triple_ret)
  have e: "triple co_cert (go_bind (on_nano (data_dir ''etcd'')) (\<lambda>d. go_ret (''embed://'' @ d))) (\<lambda>_. co_cert) (\<lambda>_. False)"
    by (rule triple_bind [OF nano(1) r])
  show ?thesis
    using assms(2,3) nano r e
    by (auto simp: settings_of_def controller_manager_flags_def scheduler_flags_def apiserver_flags_def kubelet_flags_def split: if_splits)
qed

lemma returns_set_all:
  "\<forall>p \<in> set fs. triple co_cert (snd p) (\<lambda>_. co_cert) (\<lambda>_. False) \<Longrightarrow> triple co_cert (set_all fs c) (\<lambda>_. co_cert) (\<lambda>_. False)"
proof (induction fs c rule: set_all.induct)
  case (2 n v rest c)
  then show ?case by (auto intro: triple_bind)
qed (simp add: triple_ret)

lemma With_returns:
  fixes s :: "('b, 'c) command"
  assumes "files_ok Y" "co_cert s" "is_component (cb_name c)" "cb_name c \<notin> set (co_once s)"
  shows "\<exists>t. With Y c s = (Ret (), t) \<and> co_cert t \<and> co_provided t = co_provided s @ [cb_name c] \<and> co_once t = co_once s @ [cb_name c]"
proof -
  obtain fs :: "('b, 'c) settings" where fs: "settings_of Y (cb_name c) = Some fs"
    using assms(3) settings_of_component by (metis option.exhaust)
  let ?s = "s\<lparr>co_featureGatesOnce := True\<rparr>"
  let ?c = "set_flag ''logging-format'' ''nanokube'' (if co_featureGatesOnce s then c else set_flag ''feature-gates'' (strings_Join '','' featureGates) c)"
  have "co_cert ?s" using assms(2) by (simp add: co_cert_def)
  moreover have "triple co_cert (set_all fs ?c) (\<lambda>_. co_cert) (\<lambda>_. False)" using returns_settings [OF assms(1) fs] by (intro returns_set_all) auto
  ultimately have "case set_all fs ?c ?s of (Ret a, t) \<Rightarrow> co_cert t | (_, t) \<Rightarrow> False" by (simp add: triple_def)
  then obtain d t where t: "set_all fs ?c ?s = (Ret d, t)" "co_cert t"
    by (cases "set_all fs ?c ?s"; cases "fst (set_all fs ?c ?s)") auto
  have "only_nano (set_all fs ?c)" using settings_only_nano [OF fs] by (intro only_nano_set_all) auto
  then obtain n where n: "t = ?s\<lparr>co_nano := n\<rparr>" using t(1) unfolding only_nano_def by (metis snd_conv)
  have "cb_name d = cb_name c" using set_all_result [OF t(1)] by simp
  then show ?thesis
    using fs assms(4) t n by (auto simp: With_def Let_def add_component_def once_do_def provide_sub_def co_cert_def)
qed

lemma go_each_fold: "go_each f xs s = (Ret (), t) \<Longrightarrow> t = fold (\<lambda>x s. snd (f x s)) xs s"
  by (induction xs arbitrary: s) auto

lemma chain_provides:
  "files_ok Y \<Longrightarrow> co_cert s \<Longrightarrow> distinct (co_once s @ map cb_name cs) \<Longrightarrow> \<forall>c \<in> set cs. is_component (cb_name c) \<Longrightarrow>
   \<exists>t. go_each (With Y) cs s = (Ret (), t) \<and> co_provided t = co_provided s @ map cb_name cs"
proof (induction cs arbitrary: s)
  case (Cons c cs)
  then obtain t where t: "With Y c s = (Ret (), t)" "co_cert t" "co_provided t = co_provided s @ [cb_name c]" "co_once t = co_once s @ [cb_name c]"
    using With_returns [of Y s c] by auto
  moreover have "\<exists>u. go_each (With Y) cs t = (Ret (), u) \<and> co_provided u = co_provided t @ map cb_name cs"
    by (rule Cons.IH) (use Cons.prems t in auto)
  ultimately show ?case by auto
qed simp

definition found_as :: "(string \<Rightarrow> strmap) \<Rightarrow> string \<Rightarrow> cobra \<Rightarrow> bool" where
  "found_as F name d \<longleftrightarrow> cb_name d = name \<and> flag_names d = fst ` set (F name) \<and>
     (''logging-format'' \<in> flag_names d \<longrightarrow> mget (cb_flags d) ''logging-format'' = ''nanokube'')"

lemma main_find: "name \<in> set main_names \<Longrightarrow> find (\<lambda>c. cb_name c = name) (main_commands F) = Some \<lparr>cb_name = name, cb_flags = F name\<rparr>"
  by (auto simp: main_commands_def main_names_def)

lemma main_found:
  assumes "main_chain Y F (NewNanokubeCommand n) = (Ret (), s)" "co_provided s = main_names" "name \<in> set main_names"
  shows "\<exists>d. component_command name s = (Ret d, s) \<and> found_as F name d"
proof -
  have "s = fold (\<lambda>c s. snd (With Y c s)) (main_commands F) (NewNanokubeCommand n)"
    using assms(1) by (auto simp: main_chain_def dest: go_each_fold)
  from component_found_or_awaited [OF this, of name] show ?thesis
    using assms(2,3) main_find [OF assms(3), of F]
    by (auto simp: component_command_def found_as_def flag_names_def split: option.splits)
qed

text \<open>
  C11. The program is complete when it runs. When the files of the data directory can be written, \<^verbatim>\<open>main\<close>'s chain of \<^verbatim>\<open>With\<close>
  calls takes in all four components, and the root command then finds each of them without waiting: it runs
  the API server's command, with the three other components among the run hooks in their order, the seven start
  hooks and the stop hook registered. Every component has the flags of the command it was given, and logs in the
  program's own format if it can choose one.
\<close>

theorem program_complete:
  assumes "files_ok Y"
  shows "\<exists>s api cm sc kl reg. main_chain Y F (NewNanokubeCommand (NewNanokube o1 d) :: ('b, 'c) command) = (Ret (), s) \<and>
    RunE s = (Ret (api, reg), s) \<and> found_as F ''kube-apiserver'' api \<and>
    map (\<lambda>(name, _, c). (name, c)) (rg_run reg) =
      [(''start-kube-controller-manager'', cm), (''start-kube-scheduler'', sc), (''start-kubelet'', kl)] \<and>
    found_as F ''kube-controller-manager'' cm \<and> found_as F ''kube-scheduler'' sc \<and> found_as F ''kubelet'' kl \<and>
    length (rg_start reg) = 7 \<and> distinct (map fst (rg_start reg) @ map fst (rg_run reg)) \<and> rg_stop reg = [''drain-node'']"
proof -
  let ?c = "NewNanokubeCommand (NewNanokube o1 d) :: ('b, 'c) command"
  have "co_cert ?c" "co_once ?c = []" "co_provided ?c = []"
    by (simp_all add: NewNanokubeCommand_def co_cert_def cert_there_def)
  moreover have "map cb_name (main_commands F) = main_names" "distinct main_names" "\<forall>c \<in> set (main_commands F). is_component (cb_name c)"
    by (simp_all add: main_commands_def main_names_def is_component_def)
  ultimately obtain s where s: "main_chain Y F ?c = (Ret (), s)" "co_provided s = main_names"
    using chain_provides [OF assms, of ?c "main_commands F"] by (auto simp: main_chain_def)
  note found = main_found [OF s]
  obtain api cm sc kl where "component_command ''kube-apiserver'' s = (Ret api, s)" "found_as F ''kube-apiserver'' api"
    "component_command ''kube-controller-manager'' s = (Ret cm, s)" "found_as F ''kube-controller-manager'' cm"
    "component_command ''kube-scheduler'' s = (Ret sc, s)" "found_as F ''kube-scheduler'' sc"
    "component_command ''kubelet'' s = (Ret kl, s)" "found_as F ''kubelet'' kl"
    using found [of "''kube-apiserver''"] found [of "''kube-controller-manager''"] found [of "''kube-scheduler''"] found [of "''kubelet''"]
    by (auto simp: main_names_def)
  with s(1) show ?thesis by (auto simp: RunE_def RunE_start_def)
qed

theorem program_complete_witness:
  "\<exists>s api reg. main_chain good_sys (\<lambda>_. [(''v'', ''0'')]) (NewNanokubeCommand (NewNanokube (NewOptions ''/h'') []) :: (unit, unit) command) = (Ret (), s) \<and>
     RunE s = (Ret (api, reg), s) \<and> cb_name api = ''kube-apiserver''"
  using program_complete [of good_sys "\<lambda>_. [(''v'', ''0'')]" "NewOptions ''/h''" "[]", where 'b = unit]
  by (auto simp: files_ok_def good_sys_def found_as_def)

section \<open>The API server\<close>

text \<open>What the library's construction gives, each step on the world; the handles are the library's objects. \<open>serving\<close> is what the
  program changes in the options.\<close>

record serving =
  sv_Listener :: string
  sv_BindAddress :: string
  sv_BindPort :: int
  sv_ExternalHost :: string

record api_config =
  ac_Options :: serving
  ac_KubeAPIs :: string
  ac_ApiExtensions :: string
  ac_Aggregator :: string

record 'w server_lib =
  sl_Listen :: "'w \<Rightarrow> (error + string) \<times> 'w"
  sl_BuildGenericConfig :: "serving \<Rightarrow> 'w \<Rightarrow> (error + string \<times> string \<times> string) \<times> 'w"
  sl_CreateKubeAPIServerConfig :: "serving \<Rightarrow> string option \<Rightarrow> string option \<Rightarrow> string \<Rightarrow> 'w \<Rightarrow> (error + string \<times> string \<times> string) \<times> 'w"
  sl_CreateAPIExtensionsConfig :: "string \<Rightarrow> string \<Rightarrow> string \<Rightarrow> 'w \<Rightarrow> (error + string) \<times> 'w"
  sl_CreateAggregatorConfig :: "string \<Rightarrow> string \<Rightarrow> string \<Rightarrow> 'w \<Rightarrow> (error + string) \<times> 'w"
  sl_Complete :: "api_config \<Rightarrow> 'w \<Rightarrow> (error + string) \<times> 'w"
  sl_CreateServerChain :: "string \<Rightarrow> 'w \<Rightarrow> (error + string) \<times> 'w"
  sl_PrepareRun :: "string \<Rightarrow> 'w \<Rightarrow> (error + string) \<times> 'w"
  sl_Run :: "string \<Rightarrow> 'w \<Rightarrow> error option \<times> 'w"

record ('b, 'c, 'w) api_run =
  ar_world :: 'w
  ar_env :: strmap
  ar_nano :: "('b, 'c) nano"
  ar_storage :: "'w storage"
  ar_injecting :: bool
  ar_hooks :: "string list"
  ar_startWg :: nat
  ar_runWg :: nat
  ar_cancels :: "error option list"

definition lib :: "('w \<Rightarrow> 'a \<times> 'w) \<Rightarrow> (('b, 'c, 'w) api_run, 'a) go" where
  "lib f s = (case f (ar_world s) of (r, w) \<Rightarrow> (Ret r, s\<lparr>ar_world := w\<rparr>))"

text \<open>The tunnel takes the listener over (\<open>wrap\<close>); its public host goes into the environment too.\<close>

definition serving_options :: "'w server_lib \<Rightarrow> (string \<Rightarrow> string) \<Rightarrow> tunnel \<Rightarrow> string \<Rightarrow> (('b, 'c, 'w) api_run, serving) go" where
  "serving_options L wrap tn host =
     go_bind (lib (sl_Listen L)) (\<lambda>r.
       case r of
         Inl _ \<Rightarrow> go_panic ''failed to create listener for apiserver''
       | Inr lis \<Rightarrow> (\<lambda>s. (Ret \<lparr>sv_Listener = wrap lis, sv_BindAddress = tn_LocalIP tn, sv_BindPort = tn_LocalPort tn, sv_ExternalHost = host\<rparr>,
           s\<lparr>ar_env := AList.update ''TUNNEL_HOSTNAME'' host (ar_env s)\<rparr>)))"

text \<open>Asking for the storage gives it the discovery.\<close>

definition provide_server_config :: "string \<Rightarrow> (('b, 'c, 'w) api_run, string option) go" where
  "provide_server_config cfg s = (let t = WithServerConfig cfg (WithDiscovery True (ar_storage s)) in (Ret (sg_serverConfig t), s\<lparr>ar_storage := t\<rparr>))"

definition set_informers :: "string \<Rightarrow> (('b, 'c, 'w) api_run, string option) go" where
  "set_informers f s = (case SetSharedInformerFactory f (ar_nano s) of (r, n) \<Rightarrow> (r, s\<lparr>ar_nano := n\<rparr>))"

definition build_server :: "'w server_lib \<Rightarrow> serving \<Rightarrow> (('b, 'c, 'w) api_run, error + string) go" where
  "build_server L opts =
     go_try (lib (sl_BuildGenericConfig L opts)) (\<lambda>(generic, informers, factory).
     go_bind (provide_server_config generic) (\<lambda>cfg.
     go_bind (set_informers informers) (\<lambda>shared.
     go_try (lib (sl_CreateKubeAPIServerConfig L opts cfg shared factory)) (\<lambda>(kube, resolver, plugin).
     go_try (lib (sl_CreateAPIExtensionsConfig L kube plugin resolver)) (\<lambda>extensions.
     go_try (lib (sl_CreateAggregatorConfig L kube resolver plugin)) (\<lambda>aggregator.
     go_try (lib (sl_Complete L \<lparr>ac_Options = opts, ac_KubeAPIs = kube, ac_ApiExtensions = extensions, ac_Aggregator = aggregator\<rparr>)) (\<lambda>completed.
       lib (sl_CreateServerChain L completed))))))))"

text \<open>The goroutine that injects handlers is started, then every start hook and every run hook is registered with its wait
  group.\<close>

definition register_hooks :: "registration \<Rightarrow> ('b, 'c, 'w) api_run \<Rightarrow> ('b, 'c, 'w) api_run" where
  "register_hooks reg s =
     s\<lparr>ar_injecting := True, ar_hooks := ar_hooks s @ map fst (rg_start reg) @ map fst (rg_run reg),
       ar_startWg := ar_startWg s + length (rg_start reg), ar_runWg := ar_runWg s + length (rg_run reg)\<rparr>"

text \<open>The cause a context has when it is cancelled with that error, which may be nil.\<close>

definition cause_of :: "error option \<Rightarrow> error" where
  "cause_of err = (case err of None \<Rightarrow> ErrCanceled | Some e \<Rightarrow> e)"

text \<open>After the server's \<^verbatim>\<open>Run\<close> the call waits for both groups; \<open>ended\<close> says whether they come down.\<close>

definition apiserver_Run :: "'w server_lib \<Rightarrow> (string \<Rightarrow> string) \<Rightarrow> tunnel \<Rightarrow> string \<Rightarrow> registration \<Rightarrow> bool \<Rightarrow> (('b, 'c, 'w) api_run, error option) go" where
  "apiserver_Run L wrap tn host reg ended =
     go_bind (serving_options L wrap tn host) (\<lambda>opts.
     go_bind (build_server L opts) (\<lambda>r.
       case r of
         Inl e \<Rightarrow> go_ret (Some e)
       | Inr server \<Rightarrow>
           go_bind (\<lambda>s. (Ret (), register_hooks reg s)) (\<lambda>_.
           go_bind (lib (sl_PrepareRun L server)) (\<lambda>p.
             case p of
               Inl e \<Rightarrow> go_ret (Some e)
             | Inr prepared \<Rightarrow>
                 go_bind (lib (sl_Run L prepared)) (\<lambda>err s.
                   if ended then (Ret err, s\<lparr>ar_storage := storage_Cancel (cause_of err) (WithDiscovery True (ar_storage s)),
                       ar_cancels := ar_cancels s @ [err], ar_startWg := 0, ar_runWg := 0\<rparr>)
                   else (Blocked, s))))))"

text \<open>Building the server registers nothing.\<close>

definition same_hooks :: "('b, 'c, 'w) api_run \<Rightarrow> ('b, 'c, 'w) api_run \<Rightarrow> bool" where
  "same_hooks s t \<longleftrightarrow> ar_injecting t = ar_injecting s \<and> ar_hooks t = ar_hooks s \<and> ar_startWg t = ar_startWg s \<and> ar_runWg t = ar_runWg s \<and>
     ar_cancels t = ar_cancels s \<and> sg_cancelled (ar_storage t) = sg_cancelled (ar_storage s)"

lemma keeps_lib: "triple (same_hooks s) (lib f) (\<lambda>_. same_hooks s) (\<lambda>_. False)"
  by (auto simp: triple_def lib_def same_hooks_def split: prod.splits)

lemma keeps_provide: "triple (same_hooks s) (provide_server_config c) (\<lambda>_. same_hooks s) (\<lambda>_. False)"
  by (auto simp: triple_def provide_server_config_def same_hooks_def Let_def WithServerConfig_def WithDiscovery_def split: option.splits)

lemma keeps_informers: "triple (same_hooks s) (set_informers c) (\<lambda>_. same_hooks s) (\<lambda>_. False)"
  by (simp add: triple_def set_informers_def same_hooks_def SetSharedInformerFactory_def Let_def)

lemma triple_try_keep:
  "triple P m (\<lambda>_. P) E \<Longrightarrow> (\<And>a. triple P (f a) (\<lambda>_. P) E) \<Longrightarrow> triple P (go_try m f) (\<lambda>_. P) E"
  by (rule triple_try [where R = "\<lambda>_. P"]) (auto elim!: triple_conseq split: sum.splits)

lemma keeps_build_server: "triple (same_hooks s) (build_server L opts) (\<lambda>_. same_hooks s) (\<lambda>_. False)"
  unfolding build_server_def
  by (intro triple_try_keep triple_bind [OF keeps_provide] triple_bind [OF keeps_informers] keeps_lib | clarify)+

text \<open>A server that was built leaves the two values others wait for provided.\<close>

definition handed_over :: "('b, 'c, 'w) api_run \<Rightarrow> bool" where
  "handed_over s \<longleftrightarrow> sg_serverConfig (ar_storage s) \<noteq> None \<and> nk_informers (ar_nano s) \<noteq> None"

lemma handed_over_lib: "triple handed_over (lib f) (\<lambda>_. handed_over) (\<lambda>_. False)"
  by (auto simp: triple_def lib_def handed_over_def split: prod.splits)

lemma handed_over_build: "triple (\<lambda>_. True) (build_server L opts) (\<lambda>r s. case r of Inl _ \<Rightarrow> True | Inr _ \<Rightarrow> handed_over s) (\<lambda>_. False)"
proof -
  let ?Q = "\<lambda>r s. case r of Inl _ \<Rightarrow> True | Inr _ \<Rightarrow> handed_over s"
  let ?C = "\<lambda>s. sg_serverConfig (ar_storage s) \<noteq> None"
  have provide: "triple (\<lambda>_. True) (provide_server_config c) (\<lambda>_. ?C) (\<lambda>_. False)" for c
    by (auto simp: triple_def provide_server_config_def WithServerConfig_def Let_def split: option.splits)
  have informers: "triple ?C (set_informers c) (\<lambda>_. handed_over) (\<lambda>_. False)" for c
    by (auto simp: triple_def set_informers_def SetSharedInformerFactory_def provide_informers_def once_provide_def handed_over_def Let_def split: option.splits)
  have first: "triple (\<lambda>_. True) (lib f) (\<lambda>r. case r of Inl e \<Rightarrow> ?Q (Inl e) | Inr a \<Rightarrow> (\<lambda>_. True)) (\<lambda>_. False)" for f
    by (auto simp: triple_def lib_def split: prod.splits sum.splits)
  have later: "triple handed_over (lib f) (\<lambda>r. case r of Inl e \<Rightarrow> ?Q (Inl e) | Inr a \<Rightarrow> handed_over) (\<lambda>_. False)" for f
    by (rule triple_conseq [OF handed_over_lib]) (auto split: sum.splits)
  have last: "triple handed_over (lib f) ?Q (\<lambda>_. False)" for f
    by (rule triple_conseq [OF handed_over_lib]) (auto split: sum.splits)
  show ?thesis
    unfolding build_server_def
    by (rule triple_try [OF first], clarify, rule triple_bind [OF provide], rule triple_bind [OF informers],
        rule triple_try [OF later], clarify, rule triple_try [OF later], rule triple_try [OF later], rule triple_try [OF later], rule last)
qed

lemma build_server_result:
  "\<exists>r t. build_server L opts s = (Ret r, t) \<and> same_hooks s t \<and> (case r of Inl _ \<Rightarrow> True | Inr _ \<Rightarrow> handed_over t)"
proof -
  have "same_hooks s s" by (simp add: same_hooks_def)
  then have "case build_server L opts s of (Ret r, t) \<Rightarrow> same_hooks s t | (_, t) \<Rightarrow> False"
    using keeps_build_server [of s L opts] by (simp add: triple_def)
  moreover have "case build_server L opts s of (Ret r, t) \<Rightarrow> (case r of Inl _ \<Rightarrow> True | Inr _ \<Rightarrow> handed_over t) | (_, t) \<Rightarrow> False"
    by (rule handed_over_build [unfolded triple_def, rule_format, OF TrueI])
  ultimately show ?thesis by (cases "build_server L opts s"; cases "fst (build_server L opts s)") auto
qed

text \<open>
  C20. The storage is cancelled once the server has run, and only then. When a step of the construction fails,
  its error is returned before any hook is registered or any goroutine started. When the server was built,
  the storage has its server configuration and the informers are there for those who wait for them, and all
  hooks are registered. If then preparing the server fails, the error is returned with the hooks registered and
  the handlers' goroutine running, and the storage is left open; otherwise the call returns what the server's
  \<^verbatim>\<open>Run\<close> returned, after all hooks have ended, and has cancelled the storage with it once.
\<close>

theorem apiserver_run_cancels_storage:
  fixes s :: "('b, 'c, 'w) api_run"
  assumes "sl_Listen L (ar_world s) = (Inr lis, w)"
  shows "\<exists>r t. build_server L \<lparr>sv_Listener = wrap lis, sv_BindAddress = tn_LocalIP tn, sv_BindPort = tn_LocalPort tn, sv_ExternalHost = host\<rparr>
        (s\<lparr>ar_world := w, ar_env := AList.update ''TUNNEL_HOSTNAME'' host (ar_env s)\<rparr>) = (Ret r, t) \<and> same_hooks s t \<and>
    (case r of
       Inl e \<Rightarrow> apiserver_Run L wrap tn host reg ended s = (Ret (Some e), t)
     | Inr server \<Rightarrow> handed_over t \<and>
         (\<exists>u. ar_hooks u = ar_hooks s @ map fst (rg_start reg) @ map fst (rg_run reg) \<and> ar_injecting u \<and>
           (case sl_PrepareRun L server (ar_world t) of
              (Inl e, _) \<Rightarrow> apiserver_Run L wrap tn host reg ended s = (Ret (Some e), u) \<and> ar_cancels u = ar_cancels s \<and>
                sg_cancelled (ar_storage u) = sg_cancelled (ar_storage s)
            | (Inr prepared, w1) \<Rightarrow>
                let err = fst (sl_Run L prepared w1)
                in if ended then apiserver_Run L wrap tn host reg ended s = (Ret err, u) \<and> ar_cancels u = ar_cancels s @ [err] \<and>
                     sg_cancelled (ar_storage u) \<noteq> None
                   else apiserver_Run L wrap tn host reg ended s = (Blocked, u) \<and> ar_cancels u = ar_cancels s)))"
proof -
  let ?o = "\<lparr>sv_Listener = wrap lis, sv_BindAddress = tn_LocalIP tn, sv_BindPort = tn_LocalPort tn, sv_ExternalHost = host\<rparr>"
  let ?s = "s\<lparr>ar_world := w, ar_env := AList.update ''TUNNEL_HOSTNAME'' host (ar_env s)\<rparr>"
  have o: "serving_options L wrap tn host s = (Ret ?o, ?s)"
    using assms by (simp add: serving_options_def lib_def go_bind_def)
  obtain r t where b: "build_server L ?o ?s = (Ret r, t)" "same_hooks ?s t" "case r of Inl _ \<Rightarrow> True | Inr _ \<Rightarrow> handed_over t"
    using build_server_result [of L ?o ?s] by blast
  have t: "same_hooks s t" using b(2) by (simp add: same_hooks_def)
  show ?thesis
  proof (cases r)
    case (Inl e)
    then show ?thesis using o b t by (simp add: apiserver_Run_def)
  next
    case (Inr server)
    let ?u = "register_hooks reg t"
    obtain p w1 where p: "sl_PrepareRun L server (ar_world t) = (p, w1)" by fastforce
    have u: "ar_hooks ?u = ar_hooks s @ map fst (rg_start reg) @ map fst (rg_run reg)" "ar_injecting ?u" "ar_cancels ?u = ar_cancels s" "sg_cancelled (ar_storage ?u) = sg_cancelled (ar_storage s)" "ar_world ?u = ar_world t"
      using t by (simp_all add: register_hooks_def same_hooks_def)
    have run: "apiserver_Run L wrap tn host reg ended s =
        (case p of Inl e \<Rightarrow> (Ret (Some e), ?u\<lparr>ar_world := w1\<rparr>)
         | Inr prepared \<Rightarrow> (case sl_Run L prepared w1 of (err, w2) \<Rightarrow>
             let v = ?u\<lparr>ar_world := w2\<rparr> in if ended then (Ret err, v\<lparr>ar_storage := storage_Cancel (cause_of err) (WithDiscovery True (ar_storage v)), ar_cancels := ar_cancels v @ [err], ar_startWg := 0, ar_runWg := 0\<rparr>) else (Blocked, v)))"
      using o b(1) Inr p u(5) by (cases p) (simp_all add: apiserver_Run_def lib_def go_bind_def Let_def split: prod.splits)
    show ?thesis
    proof (cases p)
      case (Inl e)
      then show ?thesis using b t p u run \<open>r = Inr server\<close> by (intro exI [of _ r] exI [of _ t]) (auto intro!: exI [of _ "?u\<lparr>ar_world := w1\<rparr>"])
    next
      case P: (Inr prepared)
      obtain err w2 where e: "sl_Run L prepared w1 = (err, w2)" by fastforce
      let ?v = "if ended then ?u\<lparr>ar_world := w2, ar_storage := storage_Cancel (cause_of err) (WithDiscovery True (ar_storage ?u)), ar_cancels := ar_cancels s @ [err], ar_startWg := 0, ar_runWg := 0\<rparr> else ?u\<lparr>ar_world := w2\<rparr>"
      show ?thesis
        using b t p u run e P Inr by (intro exI [of _ r] exI [of _ t]) (auto intro!: exI [of _ ?v] simp: Let_def storage_Cancel_def once_provide_def split: option.splits)
    qed
  qed
qed

definition demo_lib :: "unit server_lib" where
  "demo_lib =
     \<lparr>sl_Listen = \<lambda>w. (Inr ''lis'', w), sl_BuildGenericConfig = \<lambda>_ w. (Inr (''generic'', ''informers'', ''factory''), w),
      sl_CreateKubeAPIServerConfig = \<lambda>_ _ _ _ w. (Inr (''kube'', ''resolver'', ''plugin''), w),
      sl_CreateAPIExtensionsConfig = \<lambda>_ _ _ w. (Inr ''ext'', w), sl_CreateAggregatorConfig = \<lambda>_ _ _ w. (Inr ''agg'', w),
      sl_Complete = \<lambda>_ w. (Inr ''completed'', w), sl_CreateServerChain = \<lambda>_ w. (Inr ''server'', w),
      sl_PrepareRun = \<lambda>_ w. (Inl (Errorf ''prepare''), w), sl_Run = \<lambda>_ w. (None, w)\<rparr>"

definition demo_run :: "(unit, unit, unit) api_run" where
  "demo_run = \<lparr>ar_world = (), ar_env = [], ar_nano = NewNanokube (NewOptions ''/h'') [], ar_storage = StorageRef, ar_injecting = False, ar_hooks = [],
     ar_startWg = 0, ar_runWg = 0, ar_cancels = []\<rparr>"

theorem apiserver_run_cancels_storage_witness:
  "\<exists>u. apiserver_Run demo_lib (\<lambda>x. x) \<lparr>tn_Hostname = ''h'', tn_LocalIP = ''127.0.0.1'', tn_LocalPort = 1, tn_Port = 443\<rparr> ''h''
      \<lparr>rg_run = [], rg_start = RunE_start, rg_stop = []\<rparr> True demo_run = (Ret (Some (Errorf ''prepare'')), u) \<and>
    ar_injecting u \<and> ar_cancels u = []"
  using apiserver_run_cancels_storage [of demo_lib demo_run "''lis''" "()" "\<lambda>x. x"
      "\<lparr>tn_Hostname = ''h'', tn_LocalIP = ''127.0.0.1'', tn_LocalPort = 1, tn_Port = 443\<rparr>" "''h''" "\<lparr>rg_run = [], rg_start = RunE_start, rg_stop = []\<rparr>" True]
  by (auto simp: demo_lib_def demo_run_def build_server_def lib_def go_try_def go_bind_def provide_server_config_def set_informers_def
      SetSharedInformerFactory_def Let_def)

section \<open>One backend for the kubelet\<close>

lemma backends_detected:
  assumes "nk_backends s = []" "\<not> nk_backendsOnce s"
  shows "Backends M main_Backends s =
    (Ret (case find (usable M) (docker_sockets (ma_home M)) of None \<Rightarrow> [] | Some socket \<Rightarrow> [(''docker'', ma_driver M socket)]),
     s\<lparr>nk_backendsOnce := True, nk_backends := (case find (usable M) (docker_sockets (ma_home M)) of None \<Rightarrow> [] | Some socket \<Rightarrow> [(''docker'', ma_driver M socket)])\<rparr>)"
  using assms
  by (cases "find (usable M) (docker_sockets (ma_home M))")
     (simp_all add: Backends_def once_do_def go_bind_def detect_all_def main_Backends_def docker_Detect_def podman_Detect_def awslambda_Detect_def
        detect_loop_find WithBackend_def)

lemma DefaultBackend_known:
  assumes "nk_backendsOnce s" "nk_backends s = [(n, b)]" "\<forall>bs. set (pick bs) = set bs"
  shows "DefaultBackend Y M ds pick s = (Ret b, s)"
proof -
  have "pick [(n, b)] \<noteq> []" using assms(3) by (metis list.set(1) list.set_intros(1) empty_iff)
  moreover have "set (pick [(n, b)]) = {(n, b)}" using assms(3) by simp
  ultimately obtain r where "pick [(n, b)] = (n, b) # r" by (cases "pick [(n, b)]") auto
  then show ?thesis using assms(1,2) by (simp add: DefaultBackend_def Backends_def once_do_def go_bind_def)
qed

text \<open>
  The kubelet gets all of its parts from one backend. With the backends the program registers, the statistics,
  the container manager, the image service and the runtime service handed to the kubelet come from the same
  driver, that of the first usable Docker socket, whatever order the map of backends is visited in at each of
  the four times; without a usable socket the goroutine ends with the error recorded.
\<close>

theorem kubelet_one_backend:
  assumes "\<forall>p \<in> {p1, p2, p3, p4}. \<forall>bs. set (p bs) = set bs" "nk_backends s = []" "\<not> nk_backendsOnce s"
  shows "case find (usable M) (docker_sockets (ma_home M)) of
      Some socket \<Rightarrow> (\<exists>t. let b = ma_driver M socket in UnsecuredDependencies Y M main_Backends (p1, p2, p3, p4) s =
        (Ret \<lparr>kd_CAdvisorInterface = b, kd_ContainerManager = b, kd_RemoteImageService = b, kd_RemoteRuntimeService = b\<rparr>, t))
    | None \<Rightarrow> (\<exists>t. UnsecuredDependencies Y M main_Backends (p1, p2, p3, p4) s = (Goexit, t) \<and>
        nk_cancelErrs t = nk_cancelErrs s @ [NewError (Some (Errorf ''no backends detected''))])"
proof (cases "find (usable M) (docker_sockets (ma_home M))")
  case None
  have "set (p1 []) = {}" using assms(1) by simp
  then have "DefaultBackend Y M main_Backends p1 s = CancelErr Y (Errorf ''no backends detected'') (s\<lparr>nk_backendsOnce := True, nk_backends := []\<rparr>)"
    using backends_detected [OF assms(2,3), of M] None by (simp add: DefaultBackend_def)
  then show ?thesis
    using None by (simp add: UnsecuredDependencies_def CancelErr_def nano_Cancel_def)
next
  case (Some socket)
  let ?t = "s\<lparr>nk_backendsOnce := True, nk_backends := [(''docker'', ma_driver M socket)]\<rparr>"
  have again: "DefaultBackend Y M main_Backends p ?t = (Ret (ma_driver M socket), ?t)" if "p \<in> {p1, p2, p3, p4}" for p
    by (rule DefaultBackend_known) (use assms(1) that in auto)
  have first: "Backends M main_Backends s = Backends M main_Backends ?t"
    using backends_detected [OF assms(2,3), of M] Some by (simp add: Backends_def once_do_def go_bind_def)
  have "DefaultBackend Y M main_Backends p1 s = (Ret (ma_driver M socket), ?t)"
    using again [of p1] first by (simp add: DefaultBackend_def go_bind_def)
  then show ?thesis using Some again by (simp add: UnsecuredDependencies_def Let_def)
qed

theorem kubelet_one_backend_witness:
  "\<exists>t. UnsecuredDependencies good_sys example_machine main_Backends (\<lambda>bs. bs, rev, \<lambda>bs. bs, rev) (NewNanokube (NewOptions ''/home/u'') [] :: (string, unit) nano) =
     (Ret \<lparr>kd_CAdvisorInterface = ''/run/docker.sock'', kd_ContainerManager = ''/run/docker.sock'', kd_RemoteImageService = ''/run/docker.sock'',
       kd_RemoteRuntimeService = ''/run/docker.sock''\<rparr>, t)"
proof -
  have f: "find (usable example_machine) (docker_sockets (ma_home example_machine)) = Some ''/run/docker.sock''" by code_simp
  have d: "ma_driver example_machine x = x" for x by (simp add: example_machine_def)
  have n: "nk_backends (NewNanokube o1 e) = []" "\<not> nk_backendsOnce (NewNanokube o1 e)" for o1 e by (simp_all add: NewNanokube_def)
  show ?thesis
    using kubelet_one_backend [where s = "NewNanokube (NewOptions ''/home/u'') [] :: (string, unit) nano" and M = example_machine and Y = good_sys
        and ?p1.0 = "\<lambda>bs. bs" and ?p2.0 = rev and ?p3.0 = "\<lambda>bs. bs" and ?p4.0 = rev, OF _ n]
    unfolding f by (simp add: d Let_def)
qed

text \<open>The kubelet registers under the machine's identity, whatever labels it was given, and keeps the others.\<close>

lemma mget_single: "mget [(k, v)] k' = (if k' = k then v else [])"
  by (simp add: mget_def)

lemma kubelet_Run_labels:
  assumes "kubelet_Run Y uuid domain host ks s = (Ret ks', t)"
  shows "\<exists>i u. MachineID Y uuid (co_nano s) = (Ret i, u) \<and> map_option (\<lambda>m. mget m MachineIDLabel) (kb_NodeLabels ks') = Some i \<and> kb_RegisterNode ks' \<and>
    kb_Port ks' = 443 \<and> (\<forall>k. k \<noteq> MachineIDLabel \<longrightarrow>
      mget (the (kb_NodeLabels ks')) k = (case kb_NodeLabels ks of None \<Rightarrow> [] | Some m \<Rightarrow> mget m k))"
  using assms by (auto simp: kubelet_Run_def kubelet_labels_def on_nano_def mget_single split: prod.splits option.splits)

section \<open>No certificate, no program\<close>

lemma KeyFilePath_fails:
  assumes "path_at (nk_options s) = path_at o1" "c = path_at o1 CertFile" "k = path_at o1 KeyFile" "\<not> nk_certKeyOnce s"
    "\<not> (os_Stat c (nk_disk s) \<and> os_Stat k (nk_disk s))"
    "sy_gen Y ''localhost'' [sy_LocalHost Y, ''apiserver-loopback-client''] = Inr (cert, key)" "sy_write Y c = Some (e, r)"
  shows "\<exists>t. KeyFilePath Y s = (Goexit, t) \<and> nk_cancelErrs t = nk_cancelErrs s @ [NewError (Some (Wrapf (''write cert '' @ c) e))]"
proof -
  let ?s = "s\<lparr>nk_options := snd (FilePathAt KeyFile (snd (FilePathAt CertFile (nk_options s))))\<rparr>"
  obtain d where w: "write_file Y (''write cert '' @ c) c cert ?s = (Goexit, nano_cancelled Y (NewError (Some (Wrapf (''write cert '' @ c) e))) (?s\<lparr>nk_disk := d\<rparr>))"
    using write_file_fails [OF assms(7)] by blast
  have "cert_key_body Y c k ?s = (Goexit, nano_cancelled Y (NewError (Some (Wrapf (''write cert '' @ c) e))) (?s\<lparr>nk_disk := d\<rparr>))"
    using assms(5,6) w by (simp add: cert_key_body_def go_bind_def)
  then show ?thesis
    using assms(1-4) by (simp add: KeyFilePath_def ensureCertKey_def go_bind_def file_path_run once_do_def)
qed

text \<open>
  Without a certificate there is no program. When no pair is stored and the certificate cannot be written,
  \<^verbatim>\<open>main\<close>'s chain ends the main goroutine while it takes in the API server's command, with the error recorded; no component is
  found then, and each that is asked for would be waited for for ever.
\<close>

theorem main_needs_certificate:
  assumes "c = path_at o1 CertFile" "k = path_at o1 KeyFile" "\<not> (os_Stat c d \<and> os_Stat k d)"
    "sy_gen Y ''localhost'' [sy_LocalHost Y, ''apiserver-loopback-client''] = Inr (cert, key)" "sy_write Y c = Some (e, r)"
  shows "\<exists>s. main_chain Y F (NewNanokubeCommand (NewNanokube o1 d) :: ('b, 'c) command) = (Goexit, s) \<and>
    Errors (co_nano s) = Some [NewError (Some (Wrapf (''write cert '' @ c) e))] \<and> (\<forall>name. component_command name s = (Blocked, s))"
proof -
  let ?n = "(NewNanokube o1 d :: ('b, 'c) nano)\<lparr>nk_options := snd (DataDirAt ''etcd'' o1)\<rparr>"
  obtain t where t: "KeyFilePath Y ?n = (Goexit, t)" "nk_cancelErrs t = [NewError (Some (Wrapf (''write cert '' @ c) e))]"
    using KeyFilePath_fails [of ?n o1 c k Y cert key e r] assms path_at_DataDirAt [of "''etcd''" o1] by (auto simp: NewNanokube_def)
  obtain s where "main_chain Y F (NewNanokubeCommand (NewNanokube o1 d)) = (Goexit, s)" "co_nano s = t" "co_provided s = []"
    using t(1)
    by (auto simp: main_chain_def main_commands_def main_names_def With_def settings_of_def apiserver_flags_def add_component_def once_do_def
        go_bind_def on_nano_def data_dir_run NewNanokubeCommand_def Let_def)
  then show ?thesis using t(2) by (simp add: component_command_def Errors_def)
qed

theorem main_needs_certificate_witness:
  "fst (main_chain (good_sys\<lparr>sy_write := \<lambda>_. Some (Errorf ''full'', None)\<rparr>) (\<lambda>_. []) (NewNanokubeCommand (NewNanokube (NewOptions ''/h'') []) :: (unit, unit) command)) = Goexit"
  using main_needs_certificate [OF refl refl, of "NewOptions ''/h''" "[]" "good_sys\<lparr>sy_write := \<lambda>_. Some (Errorf ''full'', None)\<rparr>" "''CERT''" "''KEY''"
      "Errorf ''full''" None "\<lambda>_. []", where 'b = unit]
  by (auto simp: good_sys_def os_Stat_def)

end
