(* ===== verification/Nano_Objects.thy ===== *)
theory Nano_Objects
  imports Storage Nanokube
begin

text \<open>
  The objects the process-wide object makes on demand and hands to everyone (\<^verbatim>\<open>Tunnel\<close>, \<^verbatim>\<open>Host\<close>, \<^verbatim>\<open>Discovery\<close>, \<^verbatim>\<open>Storage\<close>,
  \<^verbatim>\<open>Broadcaster\<close>, \<^verbatim>\<open>recorder\<close>, \<^verbatim>\<open>Client\<close>, \<^verbatim>\<open>StaticPods\<close> of \<^verbatim>\<open>src/pkg/nanokube.go\<close> and \<^verbatim>\<open>Sink\<close> of \<^verbatim>\<open>src/pkg/nanokube/client.go\<close>), the log
  line of an event, and \<^verbatim>\<open>Version\<close>. All but the tunnel are made under a \<^verbatim>\<open>sync.Once\<close>; the tunnel is loaded from a map or
  stored there, without one.
\<close>

section \<open>The tunnel, for many callers at once\<close>

text \<open>A caller looks the tunnel up, makes one if there is none, and stores it unless another did meanwhile. Tunnels are
  numbered as they are made.\<close>

datatype tunnel_call = TCalled | TMissed | TMade nat | TReturned nat

record tunnels =
  tu_stored :: "nat option"
  tu_made :: nat
  tu_calls :: "tunnel_call list"

definition tunnels_start :: "nat \<Rightarrow> tunnels" where
  "tunnels_start n = \<lparr>tu_stored = None, tu_made = 0, tu_calls = replicate n TCalled\<rparr>"

definition set_call :: "nat \<Rightarrow> tunnel_call \<Rightarrow> tunnels \<Rightarrow> tunnels" where
  "set_call i c s = s\<lparr>tu_calls := (tu_calls s)[i := c]\<rparr>"

inductive tunnel_step :: "tunnels \<Rightarrow> tunnels \<Rightarrow> bool" where
  load_hit: "i < length (tu_calls s) \<Longrightarrow> tu_calls s ! i = TCalled \<Longrightarrow> tu_stored s = Some t \<Longrightarrow> tunnel_step s (set_call i (TReturned t) s)"
| load_miss: "i < length (tu_calls s) \<Longrightarrow> tu_calls s ! i = TCalled \<Longrightarrow> tu_stored s = None \<Longrightarrow> tunnel_step s (set_call i TMissed s)"
| make: "i < length (tu_calls s) \<Longrightarrow> tu_calls s ! i = TMissed \<Longrightarrow>
    tunnel_step s (set_call i (TMade (tu_made s)) s\<lparr>tu_made := tu_made s + 1\<rparr>)"
| load_or_store: "i < length (tu_calls s) \<Longrightarrow> tu_calls s ! i = TMade t \<Longrightarrow>
    tunnel_step s (set_call i (TReturned (case tu_stored s of Some u \<Rightarrow> u | None \<Rightarrow> t)) s
      \<lparr>tu_stored := Some (case tu_stored s of Some u \<Rightarrow> u | None \<Rightarrow> t)\<rparr>)"

fun tunnel_call_rank :: "tunnel_call \<Rightarrow> nat" where
  "tunnel_call_rank TCalled = 3" | "tunnel_call_rank TMissed = 2" | "tunnel_call_rank (TMade t) = 1" | "tunnel_call_rank (TReturned t) = 0"

definition tunnels_rank :: "tunnels \<Rightarrow> nat" where
  "tunnels_rank s = sum_list (map tunnel_call_rank (tu_calls s))"

definition tunnels_inv :: "nat \<Rightarrow> tunnels \<Rightarrow> bool" where
  "tunnels_inv n s \<longleftrightarrow> length (tu_calls s) = n \<and> (\<forall>t. TReturned t \<in> set (tu_calls s) \<longrightarrow> tu_stored s = Some t)"

lemma tunnels_inv_step:
  assumes "tunnels_inv n s" "tunnel_step s u"
  shows "tunnels_inv n u"
  using assms(2)
  by cases (use assms(1) in \<open>auto simp: tunnels_inv_def set_call_def dest!: set_update_subset_insert [THEN subsetD] split: option.splits\<close>)

interpretation tunnelling: invariant_system tunnel_step "tunnels_start n" "tunnels_inv n" for n
  by unfold_locales (auto simp: tunnels_inv_step, simp add: tunnels_inv_def tunnels_start_def)

lemma rank_update:
  "i < length xs \<Longrightarrow> tunnel_call_rank c < tunnel_call_rank (xs ! i) \<Longrightarrow> sum_list (map tunnel_call_rank (xs[i := c])) < sum_list (map tunnel_call_rank xs)"
  by (induction xs arbitrary: i) (auto split: nat.splits)

lemma tunnel_step_rank: "tunnel_step s u \<Longrightarrow> tunnels_rank u < tunnels_rank s"
  by (induction rule: tunnel_step.induct) (auto simp: tunnels_rank_def set_call_def intro: rank_update)

lemma tunnel_progress:
  assumes "i < length (tu_calls s)" "\<forall>t. tu_calls s ! i \<noteq> TReturned t"
  shows "\<exists>u. tunnel_step s u"
proof (cases "tu_calls s ! i")
  case TCalled
  then show ?thesis using load_hit [OF assms(1)] load_miss [OF assms(1)] by (cases "tu_stored s") blast+
qed (use assms make load_or_store in blast)+

lemma tunnel_stays: "reaches tunnel_step s u \<Longrightarrow> tu_stored s = Some t \<Longrightarrow> tu_stored u = Some t"
proof (induction rule: reaches.induct)
  case (reaches_step v w)
  then have "tu_stored v = Some t" by simp
  with reaches_step(2) show ?case by cases (simp_all add: set_call_def)
qed simp

text \<open>
  C16. Everyone gets the same tunnel. However the calls of any number of goroutines interleave, any two that have
  returned returned the same tunnel, and a call that begins later does too; every step brings some call nearer its
  end, and as long as one has not returned a step is possible, so all of them return.
\<close>

theorem tunnel_shared:
  assumes "reaches tunnel_step (tunnels_start n) s" "TReturned t \<in> set (tu_calls s)"
  shows "(\<forall>u t'. reaches tunnel_step s u \<and> TReturned t' \<in> set (tu_calls u) \<longrightarrow> t' = t) \<and>
    (\<forall>u. tunnel_step s u \<longrightarrow> tunnels_rank u < tunnels_rank s) \<and>
    ((\<nexists>u. tunnel_step s u) \<longrightarrow> tu_calls s = replicate n (TReturned t))"
proof -
  have inv: "tunnels_inv n s" by (rule tunnelling.inv_reaches [OF assms(1)])
  then have stored: "tu_stored s = Some t" using assms(2) by (simp add: tunnels_inv_def)
  have "t' = t" if "reaches tunnel_step s u" "TReturned t' \<in> set (tu_calls u)" for u t'
    using tunnel_stays [OF that(1) stored] tunnelling.inv_reaches [OF reaches_trans [OF that(1) assms(1)]] that(2) by (simp add: tunnels_inv_def)
  moreover have "tu_calls s = replicate n (TReturned t)" if "\<nexists>u. tunnel_step s u"
  proof (rule nth_equalityI)
    show "length (tu_calls s) = length (replicate n (TReturned t))" using inv by (simp add: tunnels_inv_def)
    fix i assume i: "i < length (tu_calls s)"
    then obtain t' where "tu_calls s ! i = TReturned t'" using tunnel_progress [OF i] \<open>\<nexists>u. tunnel_step s u\<close> by blast
    with inv i stored show "tu_calls s ! i = replicate n (TReturned t) ! i" by (metis nth_mem nth_replicate option.inject tunnels_inv_def length_replicate)
  qed
  ultimately show ?thesis using tunnel_step_rank by blast
qed

definition one_returned :: tunnels where
  "one_returned = \<lparr>tu_stored = Some 0, tu_made = 1, tu_calls = [TReturned 0, TCalled]\<rparr>"

lemma one_returned_reached: "reaches tunnel_step (tunnels_start 2) one_returned"
proof -
  let ?a = "\<lparr>tu_stored = None, tu_made = 0, tu_calls = [TMissed, TCalled]\<rparr>" and ?b = "\<lparr>tu_stored = None, tu_made = 1, tu_calls = [TMade 0, TCalled]\<rparr>"
  note then_step = reaches_step [of tunnel_step "tunnels_start 2"]
  have s1: "tunnel_step (tunnels_start 2) ?a" using load_miss [of 0 "tunnels_start 2"] by (simp add: tunnels_start_def set_call_def numeral_2_eq_2)
  have s2: "tunnel_step ?a ?b" using make [of 0 ?a] by (simp add: set_call_def)
  have s3: "tunnel_step ?b one_returned" using load_or_store [of 0 ?b 0] by (simp add: set_call_def one_returned_def)
  have "reaches tunnel_step (tunnels_start 2) ?a" using reaches_refl s1 by (rule then_step)
  then have "reaches tunnel_step (tunnels_start 2) ?b" using s2 by (rule then_step)
  then show ?thesis using s3 by (rule then_step)
qed

theorem tunnel_shared_witness:
  "\<not> (\<exists>u t'. reaches tunnel_step one_returned u \<and> TReturned t' \<in> set (tu_calls u) \<and> t' \<noteq> 0)"
  using tunnel_shared [OF one_returned_reached, of 0] by (auto simp: one_returned_def)

section \<open>Objects made once\<close>

text \<open>A host, a broadcaster and an event sink are only told apart by their being made, so they are numbered in \<open>no_made\<close>; a recorder
  is the broadcaster it records to with its source. The storage is the program's one storage.\<close>

record recorder =
  re_broadcaster :: nat
  re_component :: string
  re_host :: string

record ('b, 'c, 'w) nano_objects =
  no_nano :: "('b, 'c) nano"
  no_made :: nat
  no_tunnel :: "tunnel option"
  no_host :: "nat option"
  no_discovery :: "'w discovery option"
  no_storage :: "'w storage"
  no_broadcaster :: "nat option"
  no_recorder :: "recorder option"
  no_client :: "client option"
  no_clientOnce :: bool
  no_sink :: "nat option"
  no_connected :: "(nat \<times> nat) list"

definition nano_objects :: "('b, 'c) nano \<Rightarrow> ('b, 'c, 'w) nano_objects" where
  "nano_objects n = \<lparr>no_nano = n, no_made = 0, no_tunnel = None, no_host = None, no_discovery = None, no_storage = StorageRef,
     no_broadcaster = None, no_recorder = None, no_client = None, no_clientOnce = False, no_sink = None, no_connected = []\<rparr>"

text \<open>One caller's view of the tunnel: \<open>tn\<close> is what the library makes.\<close>

definition get_tunnel :: "tunnel \<Rightarrow> (('b, 'c, 'w) nano_objects, tunnel) go" where
  "get_tunnel tn s = (case no_tunnel s of Some t \<Rightarrow> (Ret t, s) | None \<Rightarrow> (Ret tn, s\<lparr>no_tunnel := Some tn\<rparr>))"

definition get_host :: "(('b, 'c, 'w) nano_objects, nat) go" where
  "get_host s = (case no_host s of Some h \<Rightarrow> (Ret h, s) | None \<Rightarrow> (Ret (no_made s), s\<lparr>no_host := Some (no_made s), no_made := no_made s + 1\<rparr>))"

text \<open>The discovery is made with the seed file and the tunnel; \<open>env\<close> is the seed in the environment and \<open>w\<close> the world it acts on.\<close>

definition get_discovery :: "tunnel \<Rightarrow> string \<Rightarrow> 'w \<Rightarrow> (('b, 'c, 'w) nano_objects, 'w discovery) go" where
  "get_discovery tn env w s =
     (case no_discovery s of
        Some d \<Rightarrow> (Ret d, s)
      | None \<Rightarrow>
          (case file_path ''.seed'' (no_nano s) of
             (Ret path, n) \<Rightarrow>
               go_bind (get_tunnel tn) (\<lambda>t s.
                 let d = WithTunnel t (NewDiscovery (map_of (nk_disk (no_nano s)) path) env w) in (Ret d, s\<lparr>no_discovery := Some d\<rparr>)) (s\<lparr>no_nano := n\<rparr>)
           | (Panic m, n) \<Rightarrow> (Panic m, s\<lparr>no_nano := n\<rparr>)
           | (Goexit, n) \<Rightarrow> (Goexit, s\<lparr>no_nano := n\<rparr>)
           | (Blocked, n) \<Rightarrow> (Blocked, s\<lparr>no_nano := n\<rparr>)))"

definition get_storage :: "tunnel \<Rightarrow> string \<Rightarrow> 'w \<Rightarrow> (('b, 'c, 'w) nano_objects, unit) go" where
  "get_storage tn env w = go_bind (get_discovery tn env w) (\<lambda>d s. (Ret (), s\<lparr>no_storage := WithDiscovery True (no_storage s)\<rparr>))"

definition get_broadcaster :: "(('b, 'c, 'w) nano_objects, nat) go" where
  "get_broadcaster s =
     (case no_broadcaster s of Some b \<Rightarrow> (Ret b, s) | None \<Rightarrow> (Ret (no_made s), s\<lparr>no_broadcaster := Some (no_made s), no_made := no_made s + 1\<rparr>))"

definition get_recorder :: "tunnel \<Rightarrow> string \<Rightarrow> (('b, 'c, 'w) nano_objects, recorder) go" where
  "get_recorder tn localHost s =
     (case no_recorder s of
        Some r \<Rightarrow> (Ret r, s)
      | None \<Rightarrow>
          go_bind get_broadcaster (\<lambda>b. go_bind (get_tunnel tn) (\<lambda>_ s.
            let r = \<lparr>re_broadcaster = b, re_component = opt_name (nk_options (no_nano s)), re_host = localHost\<rparr> in (Ret r, s\<lparr>no_recorder := Some r\<rparr>))) s)"

text \<open>The client waits for the loopback configuration inside its \<^verbatim>\<open>sync.Once\<close>, so whoever asks for it meanwhile waits too. \<open>new\<close> is
  \<^verbatim>\<open>NewClient\<close> on what was provided, nil when the context ended first. A body that panics counts.\<close>

definition get_client :: "(loopback_config option \<Rightarrow> client outcome) \<Rightarrow> (('b, 'c, 'w) nano_objects, client option) go" where
  "get_client new s =
     (if no_clientOnce s then (Ret (no_client s), s)
      else (case await_cell nk_loopback (no_nano s) of
              (Ret l, _) \<Rightarrow>
                (case new l of
                   Ret c \<Rightarrow> (Ret (Some c), s\<lparr>no_client := Some c, no_clientOnce := True\<rparr>)
                 | Panic m \<Rightarrow> (Panic m, s\<lparr>no_clientOnce := True\<rparr>)
                 | Goexit \<Rightarrow> (Goexit, s\<lparr>no_clientOnce := True\<rparr>)
                 | Blocked \<Rightarrow> (Blocked, s))
            | (r, _) \<Rightarrow> (Blocked, s)))"

definition get_sink :: "(loopback_config option \<Rightarrow> client outcome) \<Rightarrow> (('b, 'c, 'w) nano_objects, nat) go" where
  "get_sink new =
     go_bind (get_client new) (\<lambda>c s.
       case c of
         None \<Rightarrow> (Panic ''nil pointer dereference'', s)
       | Some _ \<Rightarrow> (case no_sink s of Some k \<Rightarrow> (Ret k, s) | None \<Rightarrow> (Ret (no_made s), s\<lparr>no_sink := Some (no_made s), no_made := no_made s + 1\<rparr>)))"

text \<open>The hook \<^verbatim>\<open>record-events\<close> of the command connects the broadcaster to the sink of the client.\<close>

definition recordEvents :: "(loopback_config option \<Rightarrow> client outcome) \<Rightarrow> (('b, 'c, 'w) nano_objects, unit) go" where
  "recordEvents new =
     go_bind get_broadcaster (\<lambda>b. go_bind (get_sink new) (\<lambda>k s. (Ret (), s\<lparr>no_connected := no_connected s @ [(b, k)]\<rparr>)))"

section \<open>They are shared\<close>

text \<open>The contract of such an object: a call that returned it has put it in its cell, a call that finds it there returns it and
  changes nothing, and nothing else replaces it.\<close>

locale shared_object =
  fixes get :: "('s, 'a) go" and cell :: "'s \<Rightarrow> 'a option" and step :: "'op \<Rightarrow> 's \<Rightarrow> 's"
  assumes got: "get s = (Ret a, t) \<Longrightarrow> cell t = Some a"
    and kept: "cell s = Some a \<Longrightarrow> get s = (Ret a, s)"
    and stays: "cell s = Some a \<Longrightarrow> cell (step op s) = Some a"
begin

lemma stays_fold: "cell s = Some a \<Longrightarrow> cell (fold step ops s) = Some a"
  by (induction ops arbitrary: s) (simp_all add: stays)

lemma same_later: "get s = (Ret a, t) \<Longrightarrow> get (fold step ops t) = (Ret a, fold step ops t)"
  by (rule kept [OF stays_fold [OF got]])

end

text \<open>What happens to the process-wide object: its getters are called with whatever a new object would be made of, the loopback
  configuration is provided, the context ends.\<close>

datatype 'w object_op =
    GetTunnel tunnel
  | GetHost
  | GetDiscovery tunnel string 'w
  | GetStorage tunnel string 'w
  | GetBroadcaster
  | GetRecorder tunnel string
  | GetClient "loopback_config option \<Rightarrow> client outcome"
  | GetSink "loopback_config option \<Rightarrow> client outcome"
  | RecordEvents "loopback_config option \<Rightarrow> client outcome"
  | ProvideLoopback loopback_config
  | EndContext error_impl

fun object_step :: "'c sys \<Rightarrow> 'w object_op \<Rightarrow> ('b, 'c, 'w) nano_objects \<Rightarrow> ('b, 'c, 'w) nano_objects" where
  "object_step Y (GetTunnel tn) s = snd (get_tunnel tn s)"
| "object_step Y GetHost s = snd (get_host s)"
| "object_step Y (GetDiscovery tn env w) s = snd (get_discovery tn env w s)"
| "object_step Y (GetStorage tn env w) s = snd (get_storage tn env w s)"
| "object_step Y GetBroadcaster s = snd (get_broadcaster s)"
| "object_step Y (GetRecorder tn h) s = snd (get_recorder tn h s)"
| "object_step Y (GetClient new) s = snd (get_client new s)"
| "object_step Y (GetSink new) s = snd (get_sink new s)"
| "object_step Y (RecordEvents new) s = snd (recordEvents new s)"
| "object_step Y (ProvideLoopback c) s = s\<lparr>no_nano := WithLoopback c (no_nano s)\<rparr>"
| "object_step Y (EndContext e) s = s\<lparr>no_nano := nano_cancelled Y e (no_nano s)\<rparr>"

text \<open>No getter and nothing else replaces an object that is there.\<close>

definition keeps_objects :: "('b, 'c, 'w) nano_objects \<Rightarrow> ('b, 'c, 'w) nano_objects \<Rightarrow> bool" where
  "keeps_objects s t \<longleftrightarrow>
     (no_tunnel s \<noteq> None \<longrightarrow> no_tunnel t = no_tunnel s) \<and> (no_host s \<noteq> None \<longrightarrow> no_host t = no_host s) \<and>
     (no_discovery s \<noteq> None \<longrightarrow> no_discovery t = no_discovery s) \<and> (no_broadcaster s \<noteq> None \<longrightarrow> no_broadcaster t = no_broadcaster s) \<and>
     (no_recorder s \<noteq> None \<longrightarrow> no_recorder t = no_recorder s) \<and> (no_sink s \<noteq> None \<longrightarrow> no_sink t = no_sink s) \<and>
     (no_clientOnce s \<longrightarrow> no_clientOnce t \<and> no_client t = no_client s) \<and> set (no_connected s) \<subseteq> set (no_connected t)"

lemma keeps_refl [simp]: "keeps_objects s s"
  by (simp add: keeps_objects_def)

lemma keeps_trans: "keeps_objects s t \<Longrightarrow> keeps_objects t u \<Longrightarrow> keeps_objects s u"
  unfolding keeps_objects_def by (metis order_trans)

lemma keeps_nano: "keeps_objects s (s\<lparr>no_nano := n\<rparr>)" "keeps_objects s (s\<lparr>no_storage := g\<rparr>)"
  by (simp_all add: keeps_objects_def)

lemma keeps_go_bind:
  "keeps_objects s (snd (m s)) \<Longrightarrow> (\<And>a t. keeps_objects t (snd (f a t))) \<Longrightarrow> keeps_objects s (snd (go_bind m f s))"
  by (auto simp: go_bind_def split: prod.splits outcome.splits intro: keeps_trans)

lemma keeps_tunnel: "keeps_objects s (snd (get_tunnel tn s))"
  by (simp add: get_tunnel_def keeps_objects_def split: option.split)

lemma keeps_host: "keeps_objects s (snd (get_host s))"
  by (simp add: get_host_def keeps_objects_def split: option.split)

lemma keeps_broadcaster: "keeps_objects s (snd (get_broadcaster s))"
  by (simp add: get_broadcaster_def keeps_objects_def split: option.split)

lemma keeps_client: "keeps_objects s (snd (get_client new s))"
  by (auto simp: get_client_def keeps_objects_def split: prod.split outcome.split)

text \<open>A tunnel, a file path or a broadcaster is had at once.\<close>

lemma tunnel_returns: "\<exists>t u. get_tunnel tn s = (Ret t, u) \<and> no_discovery u = no_discovery s \<and> no_recorder u = no_recorder s"
  by (simp add: get_tunnel_def split: option.split)

lemma broadcaster_returns: "\<exists>b u. get_broadcaster s = (Ret b, u) \<and> no_recorder u = no_recorder s"
  by (simp add: get_broadcaster_def split: option.split)

lemma get_discovery_run:
  "no_discovery s = None \<Longrightarrow> \<exists>d u. get_discovery tn env w s = (Ret d, u\<lparr>no_discovery := Some d\<rparr>) \<and> keeps_objects s u \<and> no_discovery u = None"
  by (cases "no_tunnel s") (auto simp: get_discovery_def file_path_run go_bind_def get_tunnel_def keeps_objects_def Let_def)

lemma keeps_discovery: "keeps_objects s (snd (get_discovery tn env w s))"
proof (cases "no_discovery s")
  case None
  with get_discovery_run [OF None, of tn env w] show ?thesis by (auto simp: keeps_objects_def)
qed (simp add: get_discovery_def)

lemma keeps_storage: "keeps_objects s (snd (get_storage tn env w s))"
  unfolding get_storage_def by (rule keeps_go_bind [OF keeps_discovery]) (simp add: keeps_nano)

lemma get_recorder_run:
  "no_recorder s = None \<Longrightarrow> \<exists>r u. get_recorder tn h s = (Ret r, u\<lparr>no_recorder := Some r\<rparr>) \<and> keeps_objects s u"
  by (cases "no_tunnel s"; cases "no_broadcaster s")
     (auto simp: get_recorder_def go_bind_def get_broadcaster_def get_tunnel_def keeps_objects_def Let_def)

lemma keeps_recorder: "keeps_objects s (snd (get_recorder tn h s))"
proof (cases "no_recorder s")
  case None
  with get_recorder_run [OF None, of tn h] show ?thesis by (auto simp: keeps_objects_def)
qed (simp add: get_recorder_def)

lemma keeps_sink: "keeps_objects s (snd (get_sink new s))"
  unfolding get_sink_def
  by (rule keeps_go_bind [OF keeps_client]) (auto simp: keeps_objects_def split: option.splits)

lemma keeps_recordEvents: "keeps_objects s (snd (recordEvents new s))"
  unfolding recordEvents_def
  by (intro keeps_go_bind keeps_broadcaster keeps_sink) (auto simp: keeps_objects_def)

lemma object_step_keeps: "keeps_objects s (object_step Y op s)"
  by (cases op) (simp_all add: keeps_nano keeps_tunnel keeps_host keeps_discovery keeps_storage keeps_broadcaster keeps_recorder keeps_client keeps_sink keeps_recordEvents)

definition client_cell :: "('b, 'c, 'w) nano_objects \<Rightarrow> client option option" where
  "client_cell s = (if no_clientOnce s then Some (no_client s) else None)"

lemma objects_stay:
  "no_tunnel s = Some t \<Longrightarrow> no_tunnel (object_step Y op s) = Some t"
  "no_host s = Some h \<Longrightarrow> no_host (object_step Y op s) = Some h"
  "no_discovery s = Some d \<Longrightarrow> no_discovery (object_step Y op s) = Some d"
  "no_broadcaster s = Some b \<Longrightarrow> no_broadcaster (object_step Y op s) = Some b"
  "no_recorder s = Some r \<Longrightarrow> no_recorder (object_step Y op s) = Some r"
  "client_cell s = Some c \<Longrightarrow> client_cell (object_step Y op s) = Some c"
  using object_step_keeps [of s Y op] by (auto simp: keeps_objects_def client_cell_def split: if_splits)

lemma discovery_got: "get_discovery tn env w s = (Ret d, t) \<Longrightarrow> no_discovery t = Some d"
  using get_discovery_run [of s tn env w] by (cases "no_discovery s") (auto simp: get_discovery_def)

lemma recorder_got: "get_recorder tn h s = (Ret r, t) \<Longrightarrow> no_recorder t = Some r"
  using get_recorder_run [of s tn h] by (cases "no_recorder s") (auto simp: get_recorder_def)

lemma client_got: "get_client new s = (Ret c, t) \<Longrightarrow> client_cell t = Some c"
  by (auto simp: get_client_def client_cell_def split: prod.splits outcome.splits if_splits)

interpretation tunnel_object: shared_object "get_tunnel tn" no_tunnel "object_step Y" for tn and Y :: "'c sys"
  by unfold_locales (auto simp: get_tunnel_def objects_stay split: option.splits)

interpretation host_object: shared_object get_host no_host "object_step Y" for Y :: "'c sys"
  by unfold_locales (auto simp: get_host_def objects_stay split: option.splits)

interpretation broadcaster_object: shared_object get_broadcaster no_broadcaster "object_step Y" for Y :: "'c sys"
  by unfold_locales (auto simp: get_broadcaster_def objects_stay split: option.splits)

interpretation discovery_object: shared_object "get_discovery tn env w" no_discovery "object_step Y" for tn env w and Y :: "'c sys"
  by unfold_locales (auto simp: objects_stay discovery_got, simp add: get_discovery_def)

interpretation recorder_object: shared_object "get_recorder tn h" no_recorder "object_step Y" for tn h and Y :: "'c sys"
  by unfold_locales (auto simp: objects_stay recorder_got, simp add: get_recorder_def)

interpretation client_object: shared_object "get_client new" client_cell "object_step Y" for new and Y :: "'c sys"
  by unfold_locales (auto simp: objects_stay client_got, simp add: get_client_def client_cell_def split: if_splits)

text \<open>The recorder records to the one broadcaster, and the discovery registers the one tunnel.\<close>

definition objects_inv :: "('b, 'c, 'w) nano_objects \<Rightarrow> bool" where
  "objects_inv s \<longleftrightarrow>
     (\<forall>r. no_recorder s = Some r \<longrightarrow> no_broadcaster s = Some (re_broadcaster r)) \<and>
     (\<forall>d. no_discovery s = Some d \<longrightarrow> dv_tunnel d = no_tunnel s \<and> no_tunnel s \<noteq> None)"

lemma objects_inv_kept:
  "objects_inv s \<Longrightarrow> keeps_objects s t \<Longrightarrow> (no_recorder s = None \<longrightarrow> no_recorder t = None) \<Longrightarrow> (no_discovery s = None \<longrightarrow> no_discovery t = None) \<Longrightarrow>
   objects_inv t"
  unfolding objects_inv_def keeps_objects_def by (metis option.distinct(1))

lemma get_discovery_makes:
  "no_discovery s = None \<Longrightarrow> \<exists>d u. get_discovery tn env w s = (Ret d, u\<lparr>no_discovery := Some d\<rparr>) \<and> keeps_objects s u \<and> no_recorder u = no_recorder s \<and>
     no_tunnel u \<noteq> None \<and> dv_tunnel d = no_tunnel u"
  by (cases "no_tunnel s")
     (auto simp: get_discovery_def file_path_run go_bind_def get_tunnel_def keeps_objects_def Let_def WithTunnel_def NewDiscovery_def once_provide_def)

lemma objects_inv_discovery: "objects_inv s \<Longrightarrow> objects_inv (snd (get_discovery tn env w s))"
proof (cases "no_discovery s")
  case None
  assume "objects_inv s"
  with get_discovery_makes [OF None, of tn env w] show ?thesis
    by (auto simp: objects_inv_def keeps_objects_def)
qed (simp add: get_discovery_def)

lemma get_recorder_makes:
  "no_recorder s = None \<Longrightarrow> \<exists>r u. get_recorder tn h s = (Ret r, u\<lparr>no_recorder := Some r\<rparr>) \<and> keeps_objects s u \<and> no_discovery u = no_discovery s \<and>
     no_broadcaster u = Some (re_broadcaster r)"
  by (cases "no_tunnel s"; cases "no_broadcaster s")
     (auto simp: get_recorder_def go_bind_def get_broadcaster_def get_tunnel_def keeps_objects_def Let_def)

lemma objects_inv_recorder: "objects_inv s \<Longrightarrow> objects_inv (snd (get_recorder tn h s))"
proof (cases "no_recorder s")
  case None
  assume "objects_inv s"
  with get_recorder_makes [OF None, of tn h] show ?thesis
    by (auto simp: objects_inv_def keeps_objects_def)
qed (simp add: get_recorder_def)

lemma same_makers:
  "no_recorder (snd (get_tunnel tn s)) = no_recorder s \<and> no_discovery (snd (get_tunnel tn s)) = no_discovery s"
  "no_recorder (snd (get_host s)) = no_recorder s \<and> no_discovery (snd (get_host s)) = no_discovery s"
  "no_recorder (snd (get_broadcaster s)) = no_recorder s \<and> no_discovery (snd (get_broadcaster s)) = no_discovery s"
  "no_recorder (snd (get_client new s)) = no_recorder s \<and> no_discovery (snd (get_client new s)) = no_discovery s"
  by (simp_all add: get_tunnel_def get_host_def get_broadcaster_def get_client_def split: option.split prod.split outcome.split)

lemma same_makers_sink: "no_recorder (snd (get_sink new s)) = no_recorder s \<and> no_discovery (snd (get_sink new s)) = no_discovery s"
proof -
  obtain r t where "get_client new s = (r, t)" by fastforce
  then show ?thesis
    using same_makers(4) [of new s] by (cases r) (simp_all add: get_sink_def go_bind_def split: option.split)
qed

lemma same_makers_record: "no_recorder (snd (recordEvents new s)) = no_recorder s \<and> no_discovery (snd (recordEvents new s)) = no_discovery s"
proof -
  obtain b t where b: "get_broadcaster s = (Ret b, t)" using broadcaster_returns by blast
  obtain r u where "get_sink new t = (r, u)" by fastforce
  then show ?thesis
    using same_makers(3) [of s] same_makers_sink [of new t] b by (cases r) (simp_all add: recordEvents_def go_bind_def)
qed

lemma objects_inv_storage: "objects_inv s \<Longrightarrow> objects_inv (snd (get_storage tn env w s))"
  using objects_inv_discovery [of s tn env w]
  by (auto simp: get_storage_def go_bind_def objects_inv_def split: prod.splits outcome.splits)

lemma objects_inv_step: "objects_inv s \<Longrightarrow> objects_inv (object_step Y op s)"
proof (cases op)
  case (GetDiscovery tn env w)
  assume "objects_inv s"
  then show ?thesis by (simp add: GetDiscovery objects_inv_discovery)
next
  case (GetStorage tn env w)
  assume "objects_inv s"
  then show ?thesis by (simp add: GetStorage objects_inv_storage)
next
  case (GetRecorder tn h)
  assume "objects_inv s"
  then show ?thesis by (simp add: GetRecorder objects_inv_recorder)
qed (rule objects_inv_kept [OF _ object_step_keeps]; simp add: same_makers same_makers_sink same_makers_record)+

interpretation objects: invariant_system "\<lambda>s t. \<exists>op. t = object_step Y op s" "nano_objects n" objects_inv for Y :: "'c sys" and n
  by unfold_locales (auto simp: objects_inv_step, simp add: objects_inv_def nano_objects_def)

lemma objects_reach: "reaches (\<lambda>s t. \<exists>op. t = object_step Y op s) s (fold (object_step Y) ops s)"
proof (induction ops rule: rev_induct)
  case (snoc op ops)
  then show ?case by (auto intro: reaches_step)
qed simp

lemma fold_keeps: "keeps_objects s (fold (object_step Y) ops s)"
proof (induction ops arbitrary: s)
  case (Cons op ops)
  show ?case using keeps_trans [OF object_step_keeps [of s Y op] Cons.IH [of "object_step Y op s"]] by simp
qed simp

lemma recordEvents_connects:
  assumes "recordEvents new s = (Ret x, t)"
  shows "\<exists>b k. no_broadcaster t = Some b \<and> (b, k) \<in> set (no_connected t)"
proof -
  obtain b u where b: "get_broadcaster s = (Ret b, u)" using broadcaster_returns by blast
  then have u: "no_broadcaster u = Some b" by (rule broadcaster_object.got)
  obtain k w where k: "get_sink new u = (Ret k, w)" "t = w\<lparr>no_connected := no_connected w @ [(b, k)]\<rparr>"
    using assms b by (auto simp: recordEvents_def)
  then show ?thesis using keeps_sink [of u new] u by (auto simp: keeps_objects_def)
qed

text \<open>
  C17. The process has one of each. Whatever is asked for in whatever order, and whatever each call would have
  made: once a call has returned the tunnel, the discovery, the recorder or the client, every later call returns the same and makes nothing;
  the discovery was made with the tunnel everyone gets, and the recorder records to the broadcaster that everyone
  gets. Once the hook for events has connected a broadcaster to a sink, it is the one that every recorder had from then
  on records to.
\<close>

theorem process_has_one_of_each:
  fixes n :: "('b, 'c) nano" and ops later :: "'w object_op list"
  assumes "s = fold (object_step Y) ops (nano_objects n)" "u = fold (object_step Y) later t"
  shows "(get_tunnel tn s = (Ret a, t) \<longrightarrow> get_tunnel tn' u = (Ret a, u)) \<and>
    (get_discovery tn env w s = (Ret d, t) \<longrightarrow> get_discovery tn' env' w' u = (Ret d, u) \<and> (\<exists>x. dv_tunnel d = Some x \<and> get_tunnel tn' u = (Ret x, u))) \<and>
    (get_recorder tn h s = (Ret r, t) \<longrightarrow> get_recorder tn' h' u = (Ret r, u) \<and> get_broadcaster u = (Ret (re_broadcaster r), u)) \<and>
    (get_client new s = (Ret c, t) \<longrightarrow> get_client new' u = (Ret c, u)) \<and>
    (recordEvents new s = (Ret x, t) \<and> get_recorder tn' h' u = (Ret r', v) \<longrightarrow> (\<exists>k. (re_broadcaster r', k) \<in> set (no_connected v)))"
proof -
  have inv: "objects_inv s" unfolding assms(1) by (rule objects.inv_reaches [OF objects_reach])
  have later: "objects_inv t \<Longrightarrow> objects_inv u" unfolding assms(2) by (induction later arbitrary: t) (simp_all add: objects_inv_step)
  have "get_tunnel tn' u = (Ret a, u)" if "get_tunnel tn s = (Ret a, t)"
    unfolding assms(2) by (rule tunnel_object.kept [OF tunnel_object.stays_fold [OF tunnel_object.got [OF that]]])
  moreover have "get_discovery tn' env' w' u = (Ret d, u) \<and> (\<exists>x. dv_tunnel d = Some x \<and> get_tunnel tn' u = (Ret x, u))"
    if d: "get_discovery tn env w s = (Ret d, t)"
  proof -
    have cell: "no_discovery u = Some d" unfolding assms(2) by (rule discovery_object.stays_fold [OF discovery_object.got [OF d]])
    have "objects_inv u" using later objects_inv_discovery [OF inv, of tn env w] d by simp
    then obtain x where "dv_tunnel d = Some x" "no_tunnel u = Some x" using cell by (auto simp: objects_inv_def)
    then show ?thesis using discovery_object.kept [OF cell] tunnel_object.kept by blast
  qed
  moreover have "get_recorder tn' h' u = (Ret r, u) \<and> get_broadcaster u = (Ret (re_broadcaster r), u)"
    if r: "get_recorder tn h s = (Ret r, t)"
  proof -
    have cell: "no_recorder u = Some r" unfolding assms(2) by (rule recorder_object.stays_fold [OF recorder_object.got [OF r]])
    have "objects_inv u" using later objects_inv_recorder [OF inv, of tn h] r by simp
    then have "no_broadcaster u = Some (re_broadcaster r)" using cell by (simp add: objects_inv_def)
    then show ?thesis using recorder_object.kept [OF cell] broadcaster_object.kept by blast
  qed
  moreover have "get_client new' u = (Ret c, u)" if "get_client new s = (Ret c, t)"
    unfolding assms(2) by (rule client_object.kept [OF client_object.stays_fold [OF client_object.got [OF that]]])
  moreover have "\<exists>k. (re_broadcaster r', k) \<in> set (no_connected v)" if rec: "recordEvents new s = (Ret x, t)" and got: "get_recorder tn' h' u = (Ret r', v)"
  proof -
    obtain b k where t: "no_broadcaster t = Some b" "(b, k) \<in> set (no_connected t)" using recordEvents_connects [OF rec] by blast
    have "objects_inv t" using objects_inv_step [OF inv, of Y "RecordEvents new"] rec by simp
    then have "objects_inv u" by (rule later)
    then have v: "objects_inv v" using objects_inv_recorder [of u tn' h'] got by simp
    have tv: "keeps_objects t v"
      using fold_keeps [of t Y later] keeps_recorder [of u tn' h'] got assms(2) keeps_trans by fastforce
    have "no_broadcaster v = Some (re_broadcaster r')" using v recorder_got [OF got] by (simp add: objects_inv_def)
    moreover have "no_broadcaster v = Some b" "(b, k) \<in> set (no_connected v)" using tv t by (auto simp: keeps_objects_def)
    ultimately show ?thesis by auto
  qed
  ultimately show ?thesis by blast
qed

definition example_tunnel :: tunnel where
  "example_tunnel = \<lparr>tn_Hostname = ''h'', tn_LocalIP = ''127.0.0.1'', tn_LocalPort = 1, tn_Port = 443\<rparr>"

theorem process_has_one_of_each_witness:
  "\<exists>r t. get_recorder example_tunnel ''h1'' (nano_objects (NewNanokube (NewOptions ''/h'') []) :: (unit, unit, unit) nano_objects) = (Ret r, t) \<and>
     get_recorder example_tunnel ''h2'' (object_step good_sys GetHost t) = (Ret r, object_step good_sys GetHost t)"
proof -
  let ?s = "nano_objects (NewNanokube (NewOptions ''/h'') []) :: (unit, unit, unit) nano_objects"
  obtain r t where "get_recorder example_tunnel ''h1'' ?s = (Ret r, t)"
    using get_recorder_run [of ?s example_tunnel "''h1''"] by (auto simp: nano_objects_def)
  then show ?thesis
    using process_has_one_of_each [where ops = "[]" and later = "[GetHost]" and s = ?s and n = "NewNanokube (NewOptions ''/h'') []" and Y = good_sys
        and t = t and u = "object_step good_sys GetHost t" and tn = example_tunnel and h = "''h1''" and r = r and tn' = example_tunnel and h' = "''h2''"]
    by auto
qed

lemma nano_cancelled_loopback: "nk_loopback (nano_cancelled Y e s) = nk_loopback s"
  by (simp add: nano_cancelled_def file_path_run Let_def)

text \<open>
  The client waits for its configuration, but not past the end of the context. Before the loopback configuration is
  there, asking for the client waits and changes nothing. The first configuration provided is the client's, also when another is
  provided before it is asked for. If the context ends first, the library is given a nil
  configuration; it cannot make a client of it and the call panics, and from then on every call returns nil, even after the
  configuration was provided, and asking for the event sink panics.
\<close>

theorem client_needs_loopback:
  assumes "\<not> no_clientOnce s" "no_client s = None" "nk_loopback (no_nano s) = None" "nk_cause (no_nano s) = None" "\<forall>c. new (Some c) = Ret (made c)" "new None = Panic m"
  shows "get_client new s = (Blocked, s) \<and>
    fst (get_client new (object_step Y (ProvideLoopback c') (object_step Y (ProvideLoopback c) s))) = Ret (Some (made c)) \<and>
    (\<exists>t. get_client new (object_step Y (EndContext e) s) = (Panic m, t) \<and>
       fst (get_client new (object_step Y (ProvideLoopback c) t)) = Ret None \<and>
       fst (get_sink new (object_step Y (ProvideLoopback c) t)) = Panic ''nil pointer dereference'')"
  using assms
  by (simp add: get_client_def await_cell_def WithLoopback_def once_provide_def nano_cancelled_loopback get_sink_def go_bind_def)

definition example_loopback :: loopback_config where
  "example_loopback = \<lparr>rc_Host = ''https://127.0.0.1:1'', rc_CAData = None, rc_Insecure = False, rc_CertData = [], rc_KeyData = [], rc_BearerToken = [],
     rc_QPS = 0, rc_Burst = 0, rc_Timeout = 0, rc_ServerName = []\<rparr>"

definition example_new :: "loopback_config option \<Rightarrow> client outcome" where
  "example_new l = (case l of None \<Rightarrow> Panic ''nil pointer dereference'' | Some c \<Rightarrow> Ret \<lparr>cl_ctx = True, cl_config = Some (rest_config.truncate c)\<rparr>)"

theorem client_needs_loopback_witness:
  "get_client example_new (nano_objects (NewNanokube (NewOptions ''/h'') []) :: (unit, unit, unit) nano_objects) = (Blocked, nano_objects (NewNanokube (NewOptions ''/h'') []))"
  using client_needs_loopback [of "nano_objects (NewNanokube (NewOptions ''/h'') []) :: (unit, unit, unit) nano_objects" example_new
      "\<lambda>c. \<lparr>cl_ctx = True, cl_config = Some (rest_config.truncate c)\<rparr>" "''nil pointer dereference''" good_sys example_loopback example_loopback "NewError None"]
  by (simp add: nano_objects_def NewNanokube_def example_new_def)

section \<open>The log line of an event\<close>

text \<open>\<^verbatim>\<open>Logf\<close>: the verbosity a line is logged at and its key-value pairs; \<open>gvk\<close> is the library's text for group, version and kind, \<open>stack\<close>
  the stack of the goroutine. Events of other types than the two standard ones are logged at verbosity 2.\<close>

definition Logf :: "(object_ref \<Rightarrow> string) \<Rightarrow> string \<Rightarrow> options \<Rightarrow> event \<Rightarrow> nat \<times> (string \<times> string) list" where
  "Logf gvk stack o1 e =
     (if ev_type e = ''Normal'' \<or> ev_type e = ''Warning'' then 0 else 2,
      [(''gvk'', gvk (ev_object e)), (''reason'', ev_reason e)] @
      (if ev_isRef e then [(''namespace'', or_namespace (ev_object e)), (''name'', or_name (ev_object e))] else []) @
      (if ev_type e = ''Warning'' \<and> 2 \<le> opt_verbosity o1 then [(''stack'', stack)] else []))"

text \<open>The options' verbosity is never set, so no line carries a stack.\<close>

lemma Logf_no_stack: "''stack'' \<notin> fst ` set (snd (Logf gvk stack (NewOptions home) e))"
  by (auto simp: Logf_def NewOptions_def Let_def)

section \<open>The version and the static pods\<close>

text \<open>\<^verbatim>\<open>Version\<close> reads the field \<^verbatim>\<open>cmd\<close>, which nothing sets, inside a \<^verbatim>\<open>sync.Once\<close>: \<open>cmd\<close> is the version of that command.\<close>

record version_cell =
  ve_version :: string
  ve_once :: bool

definition nano_Version :: "string option \<Rightarrow> (version_cell, string) go" where
  "nano_Version cmd s =
     (if ve_once s then (Ret (ve_version s), s)
      else (case cmd of
              None \<Rightarrow> (Panic ''nil pointer dereference'', s\<lparr>ve_once := True\<rparr>)
            | Some v \<Rightarrow> (Ret v, \<lparr>ve_version = v, ve_once = True\<rparr>)))"

lemma Version_unset:
  "\<exists>t. nano_Version None \<lparr>ve_version = [], ve_once = False\<rparr> = (Panic ''nil pointer dereference'', t) \<and> nano_Version None t = (Ret [], t)"
  by (simp add: nano_Version_def)

record static_pod =
  sp_Name :: string
  sp_Namespace :: string
  sp_Image :: string
  sp_Command :: "string list"
  sp_Args :: "string list"
  sp_Mounts :: "(string \<times> string) list"
  sp_Volumes :: "(string \<times> string) list"

text \<open>The pod has one container; mounts and volumes are pairs of a name and a path.\<close>

definition StaticPods :: "options \<Rightarrow> static_pod list" where
  "StaticPods o1 =
     [\<lparr>sp_Name = opt_name o1, sp_Namespace = ''kube-system'', sp_Image = ''some-image:latest'', sp_Command = [''some-command''], sp_Args = [''some-args''],
       sp_Mounts = [(''nanokube-home'', opt_dataDir o1)], sp_Volumes = [(''nanokube-home'', opt_dataDir o1)]\<rparr>]"

end
