(* ===== verification/Stub_Drivers.thy ===== *)
theory Stub_Drivers
  imports Run_Command Backend_Start
begin

text \<open>
  The stub drivers \<^verbatim>\<open>src/pkg/driver/podman/podman.go\<close> and \<^verbatim>\<open>src/pkg/driver/awslambda/awslambda.go\<close>: they satisfy the driver's
  interface, tell their name and their context, and panic on every other call. \<open>Nanokube\<close> has their detection.
\<close>

text \<open>The methods that call \<^verbatim>\<open>Unimplemented\<close>, in the order both files have them.\<close>

definition stub_methods :: "string list" where
  "stub_methods =
     [''Service'', ''CgroupRoot'', ''Attach'', ''CheckpointContainer'', ''Close'', ''ContainerStats'', ''ContainerStatus'',
      ''CreateContainer'', ''Exec'', ''ExecSync'', ''GetContainerEvents'', ''ImageFsInfo'', ''ImageStatus'',
      ''ListContainerStats'', ''ListContainers'', ''ListImages'', ''ListMetricDescriptors'', ''ListPodSandbox'',
      ''ListPodSandboxMetrics'', ''ListPodSandboxStats'', ''PodSandboxStats'', ''PodSandboxStatus'', ''PortForward'',
      ''PullImage'', ''RemoveContainer'', ''RemoveImage'', ''RemovePodSandbox'', ''ReopenContainerLog'', ''RunPodSandbox'',
      ''RuntimeConfig'', ''StartContainer'', ''Status'', ''StopContainer'', ''StopPodSandbox'', ''UpdateContainerResources'',
      ''UpdatePodSandboxResources'', ''UpdateRuntimeConfig'', ''Version'', ''ExecOnHost'', ''ExecOnNetwork'', ''GetNetwork'',
      ''CreateNetwork'', ''RemoveNetwork'', ''LogStream'', ''WithBaseURL'', ''BaseURL'', ''WithNetwork'', ''Network'',
      ''ClaimVolume'', ''CreateVolume'', ''DeleteVolume'', ''ReleaseVolume'']"

text \<open>The name is all a stub answers; the context is the process-wide object.\<close>

definition stub_Name :: string where
  "stub_Name = ''todo''"

definition podman_call :: "string \<Rightarrow> ('s, string) go" where
  "podman_call m = (if m = ''Name'' then go_ret stub_Name else if m = ''Context'' then go_ret ''nanokube'' else Unimplemented m)"

definition awslambda_call :: "string \<Rightarrow> ('s, string) go" where
  "awslambda_call m = (if m = ''Name'' then go_ret stub_Name else if m = ''Context'' then go_ret ''nanokube'' else Unimplemented m)"

text \<open>\<^verbatim>\<open>WithBaseURL\<close> of a backend asks its driver for its name and gives it the URL; \<open>drv\<close> is a driver that is only asked by
  the name of the method.\<close>

definition named_WithBaseURL :: "(string \<Rightarrow> ('s, string) go) \<Rightarrow> ('s, string) go" where
  "named_WithBaseURL drv = go_bind (drv ''Name'') (\<lambda>_. drv ''WithBaseURL'')"

lemma stub_panics: "m \<in> set stub_methods \<Longrightarrow> podman_call m s = (Panic (''unimplemented: '' @ m), s) \<and> awslambda_call m s = (Panic (''unimplemented: '' @ m), s)"
  by (auto simp: stub_methods_def podman_call_def awslambda_call_def Unimplemented_def)

text \<open>
  A stub backend can be neither detected nor used. On no machine do the program's detectors find one, and were one
  registered, the first call the process makes to serve it would panic with the method's name.
\<close>

theorem stubs_never_used:
  "podman_Detect M = None \<and> awslambda_Detect M = None \<and>
   (\<forall>drv \<in> {podman_call, awslambda_call}. named_WithBaseURL drv s = (Panic ''unimplemented: WithBaseURL'', s))"
  by (simp add: podman_Detect_def awslambda_Detect_def named_WithBaseURL_def podman_call_def awslambda_call_def Unimplemented_def)

theorem stubs_never_used_witness: "named_WithBaseURL podman_call () = (Panic ''unimplemented: WithBaseURL'', ())"
  using stubs_never_used [of "example_machine" "()"] by simp

end
