(* ===== verification/Spec2Isabelle.thy ===== *)
theory Spec2Isabelle
  imports Tags Tag_Types Network Log_Stream Streams Storage Backend Docker_Net Docker_Pods Docker_Exec Docker_Volumes
    Host Nanokube Command Cluster_Hooks Start_Hooks Lifecycle Logging Docker_Sessions Backend_Start
    Session_Run Seed_Command Run_Command Nano_Objects Stub_Drivers
begin

text \<open>
  A verification of \<^bold>\<open>nanokube\<close>, a single binary that runs the Kubernetes control plane and a kubelet in
  one process and lets the kubelet start its pods with the Docker daemon of the machine.

  \<^bold>\<open>The program.\<close> \<^verbatim>\<open>main.go\<close> registers the backends and builds the command (\<^verbatim>\<open>pkg/command.go\<close>). The command takes
  in the four Kubernetes components with their flags, and runs hooks around the API server that
  publish a kubeconfig, untaint and drain the node, and apply roles and a token. The process-wide
  object (\<^verbatim>\<open>pkg/nanokube.go\<close>) keeps the identity and certificates of the machine in the data directory
  and finds a backend. A backend (\<^verbatim>\<open>pkg/backend.go\<close>) joins the kubelet to a driver: it admits pods,
  rewrites their probes, and reconciles volume claims. The Docker driver (\<^verbatim>\<open>pkg/driver/docker\<close>)
  implements the container runtime interface with the daemon. It keeps no database: what it knows of
  a container or sandbox is in the labels of the tag builder (\<^verbatim>\<open>pkg/nanokube/tags.go\<close>), and which sandbox
  holds which subnet is in the allocator (\<^verbatim>\<open>network.go\<close>), rebuilt from the daemon. Logs and sessions of
  containers go through \<^verbatim>\<open>log.go\<close> and \<^verbatim>\<open>streams.go\<close>. The API server stores its objects through \<^verbatim>\<open>pkg/storage\<close>,
  an embedded etcd server or a SQLite bridge called in-process over in-memory streams, and several
  machines find each other through \<^verbatim>\<open>pkg/discovery\<close>.

  \<^bold>\<open>How the code is modelled.\<close> \<open>Go_Prelude\<close> says how a Go call ends: it returns, panics, ends its goroutine
  or blocks for ever; a function of the program is a function from its state to that outcome and the
  new state, and errors are values. Strings are byte lists, integers of fixed width are words. \<open>Go_Strings\<close>,
  \<open>Net_IP\<close> and \<open>Base64\<close> hold what the code uses of Go's library, \<open>Cri_Types\<close> the messages of the runtime
  interface. Code outside the repository (the daemon's client, the Kubernetes API, etcd, JSON, the
  operating system) is a record of functions that every operation takes as an argument; what a theorem
  needs of it is a hypothesis of that theorem, and a witness instantiates it.

  \<^bold>\<open>The theories, in the order of the code.\<close>
  \<^item> \<open>Tags\<close>, \<open>Tag_Types\<close> (\<^verbatim>\<open>tags.go\<close>): every method of the builder, the builder chains of the driver and the
    names of resources. The labels of a container give back its whole description, names collide only
    for the same container and attempt, and every field is well typed.
  \<^item> \<open>Network\<close> (\<^verbatim>\<open>network.go\<close>): \<open>FromConfig\<close>, \<open>FromStatus\<close>, \<open>Deallocate\<close> and the reclaim loop. No sandbox loses its
    network to another in any sequence of operations; the high-water mark only moves forward.
  \<^item> \<open>Frames\<close>, \<open>Log_Stream\<close> (\<^verbatim>\<open>log.go\<close>, \<^verbatim>\<open>LogStream\<close> of the driver): taps, pumps and their interleavings, and the
    demultiplexer. The log is the lines of the output however they are cut into chunks and frames.
  \<^item> \<open>Logging\<close> (\<^verbatim>\<open>klogz.go\<close>, \<^verbatim>\<open>HTTPLog\<close>): which lines are written, and that logging changes no exchange.
  \<^item> \<open>Support\<close> (\<^verbatim>\<open>errors.go\<close>, \<^verbatim>\<open>sync.go\<close>, \<^verbatim>\<open>options.go\<close>), \<open>Client\<close> (\<^verbatim>\<open>client.go\<close>): errors, waiting, the data
    directory, derived clients and the merge of kubeconfig files.
  \<^item> \<open>Streams\<close>, \<open>Session_Run\<close> (\<^verbatim>\<open>streams.go\<close>): registry and dispatch of sessions, the output proxy and the resizer,
    first as functions and then with their goroutines, as step relations. Every interleaving of a session
    returns what the function says, and comes to its end; the resizer may leave a handler at an older size.
  \<^item> \<open>Bidi_Pipe\<close>, \<open>Etcd_Client\<close>, \<open>Storage\<close> (\<^verbatim>\<open>pkg/storage\<close>): the pipe as a step relation that neither loses,
    invents nor reorders messages, the gated servers, and at most one backend of a right kind.
  \<^item> \<open>Discovery\<close> (\<^verbatim>\<open>discovery.go\<close>): the retry loop, the seed, registration and peers. \<open>Seed_Command\<close> (the \<^verbatim>\<open>seed\<close>
    commands of \<^verbatim>\<open>command.go\<close>): what the cluster publishes under its seed gives another machine access.
  \<^item> \<open>Backend\<close>, \<open>Backend_Start\<close> (\<^verbatim>\<open>backend.go\<close>): file-system figures and their cache, admission, probes, pod
    networks, pod lookups; services and network of a backend and the events it subscribes to.
  \<^item> \<open>Docker_Api\<close>, \<open>Docker_Query\<close>, \<open>Docker_Net\<close>, \<open>Docker_Pods\<close>, \<open>Docker_Exec\<close>, \<open>Docker_Sessions\<close>, \<open>Docker_Volumes\<close>
    (\<^verbatim>\<open>docker.go\<close>): the daemon's interface, then queries, networks, the life of containers and sandboxes,
    commands, sessions and volumes. Lists are exactly what the filter specifies; creation ends with the
    first free name; removal frees exactly the network of the sandbox; a claim's release removes
    exactly its volume.
  \<^item> \<open>Host\<close> (\<^verbatim>\<open>host.go\<close>): the volume plugin and its mounters.
  \<^item> \<open>Nanokube\<close> (\<^verbatim>\<open>nanokube.go\<close>, detection of the backends): identity and certificates over restarts, the
    values handed over once, events, cancellation, the choice of the backend. \<open>Nano_Objects\<close> (the same file):
    the objects made on demand are one each, also for concurrent callers.
  \<^item> \<open>Stub_Drivers\<close> (\<^verbatim>\<open>podman.go\<close>, \<^verbatim>\<open>awslambda.go\<close>): the two drivers that panic on nearly every call.
  \<^item> \<open>Command\<close>, \<open>Cluster_Hooks\<close>, \<open>Start_Hooks\<close>, \<open>Lifecycle\<close> (\<^verbatim>\<open>command.go\<close>): components and flags, what the hooks
    do to the cluster, the goroutines of the hooks, and the life of the process around the API server, as
    step relations. Starting ends and cannot deadlock, the storage is cancelled last, the roles are made for
    the final list of paths, and a start that fails too early never returns. \<open>Run_Command\<close> (also \<^verbatim>\<open>main.go\<close>):
    the chain of \<^verbatim>\<open>main\<close>, the root command, the construction and run of the API server, the kubelet's settings
    and dependencies. A complete chain leaves nothing to wait for, and the storage is cancelled with the run.
  \<^item> This theory: the properties that span components. The user of a pod's security context reaches the
    daemon through admission, sandbox labels and container creation; a rewritten probe runs in its sandbox;
    a pod exists exactly while the daemon has its sandbox; and after a restart the program marks the nodes
    of its own machine.

  \<^bold>\<open>Interfaces.\<close> The locales state the contracts that several components share, and each is interpreted on
  the model's own definitions: \<open>provided_once\<close> (a value provided once and awaited: base URL, tunnel,
  transport, discovery, configuration, loopback, informers, volume host, the cause of a context),
  \<open>invariant_system\<close> (an invariant of a step relation: pipe, log streams, sessions, resizer, tunnel, start hooks, life of
  the process), \<open>shared_object\<close> (an object made on demand and given to everyone), \<open>gated\<close> (a
  call behind a gate: five of the etcd servers) and \<open>holders\<close> (nobody loses what it holds: the allocator).

  \<^bold>\<open>Bounds and fuel.\<close> Loops over data are structural or have a measure. \<open>create_loop\<close> of container creation and
  \<open>do_loop\<close> of discovery may run for ever in the source; they take a number of rounds, and running out of them
  is the outcome \<open>Blocked\<close>, like any other wait without end. It is shown that creation returns with as many
  retries as there are taken names from the attempt asked for, and that a request returns with one
  attempt more than there are failing ones. \<open>RetryOnConflict\<close> and \<open>PollUntilContextCancel\<close> of the client library
  take their number of rounds as a parameter, and the theorems say how many are used.

  \<^bold>\<open>Not modelled.\<close> The insides of the API server, controller manager, scheduler and kubelet, which are library code
  configured by what is modelled, and the goroutine that calls the kubelet's shutdown; the log format's registration, the
  daemon library and the exit code of \<^verbatim>\<open>main.go\<close>; the tunnel, the event broadcaster and the informers inside;
  the construction of the Docker client; the methods of the Docker driver, the container manager and the host
  that only panic as unimplemented, return a constant or call the operating system; Go interfaces without code.
  Times are values given by the environment; data races outside the modelled interleavings (logs, pipe, sessions,
  resizer, tunnel, hooks, life of the process) are not considered.
\<close>

section \<open>From admission to the daemon\<close>

text \<open>The sandbox labels keep the annotations that carry users.\<close>

lemma map_of_filter_prefix:
  "map_of m k = Some v \<Longrightarrow> P k \<Longrightarrow> map_of (filter (\<lambda>(k, v). P k) m) k = Some v"
  by (induction m) (auto split: if_splits)

lemma sandbox_labels_user:
  assumes "distinct (map fst (psc_annotations config))"
    "map_of (psc_annotations config) (Key (docker_tb D) KeySecurityContext @ ''/'' @ n) = Some u"
  shows "map_of (sandbox_labels D config) (Key (docker_tb D) KeySecurityContext @ ''/'' @ n) = Some u"
proof -
  let ?k = "Key (docker_tb D) KeySecurityContext @ ''/'' @ n"
  let ?f = "filter (\<lambda>(k, v). strings_HasPrefix k (Key (docker_tb D) KeySecurityContext)) (psc_annotations config)"
  have "distinct (map fst ?f)" using assms(1) by (simp add: distinct_map_filter)
  moreover have "map_of ?f ?k = Some u" by (rule map_of_filter_prefix [OF assms(2)]) simp
  ultimately show ?thesis
    by (simp add: sandbox_labels_def map_of_maps_Copy_distinct)
qed

lemma labels_distinct: "distinct (map fst (sandbox_labels D config))"
proof -
  have "distinct (map fst (snd (Build (dv_json D) (sandbox_tb (dv_json D) (dv_options D) (dv_name D) config))))"
    using sandbox_tb_inv [of "dv_json D" "dv_options D" "dv_name D" config]
    by (simp add: Build_def sandbox_tb_get Let_def tb_inv_def)
  then show ?thesis by (simp add: sandbox_labels_def distinct_maps_Copy)
qed

text \<open>
  C12. The user asked for in a pod reaches the daemon. The kubelet passes the annotations of an admitted
  pod to the sandbox and creates its containers with a configuration that need not carry the
  user (it does not on every platform). Then the container is created with the user and group
  of its security context in the pod: admission stores them, the sandbox keeps them in its
  labels, and container creation reads them back by the container's name. A user in the
  configuration itself takes precedence.
\<close>

theorem admitted_user_reaches_container:
  assumes "distinct (map fst (pod_annotations p))"
    "distinct (map pc_name (pod_init p @ pod_containers p @ pod_ephemeral p))"
    "c \<in> set (pod_init p @ pod_containers p @ pod_ephemeral p)" "sc_user c = Some u"
    "Admit (dv_json D) iv H (docker_tb D) p = (ok, q)" "psc_annotations sandbox = pod_annotations q"
    "cm_name (cc_metadata config) = pc_name c"
  shows "container_user D (sandbox_labels D sandbox) config =
     (if cri_user (cc_security_context config) = [] then u else cri_user (cc_security_context config))"
proof -
  let ?k = "Key (docker_tb D) KeySecurityContext @ ''/'' @ pc_name c"
  have q: "map_of (pod_annotations q) ?k = Some u" "distinct (map fst (pod_annotations q))"
    using admit_annotations [OF assms(1-4)] assms(5) by (auto simp: docker_tb_def)
  have "map_of (sandbox_labels D sandbox) ?k = Some u"
    using sandbox_labels_user [of sandbox D "pc_name c" u] q assms(6) by simp
  then have "tb_get (tags_of D (sandbox_labels D sandbox)) (KeySecurityContext @ ''/'' @ pc_name c) = u"
    unfolding tags_of_def docker_tb_def using labels_distinct
    by (intro read_annotation) (simp_all add: Key_def)
  then show ?thesis
    using sc_user_nonempty [OF assms(4)] assms(7) by (simp add: container_user_def SecurityContextFor_def Let_def)
qed

definition user_daemon :: "unit docker" where
  "user_daemon = refusing"

theorem admitted_user_reaches_container_witness:
  "container_user (example_drv user_daemon) (sandbox_labels (example_drv user_daemon) (pod_sandbox_config_zero\<lparr>psc_annotations :=
     pod_annotations (snd (Admit (dv_json (example_drv user_daemon)) (\<lambda>_. 0) example_env (docker_tb (example_drv user_daemon)) (example_pod ''u'')))\<rparr>))
     example_container = ''10:20''"
proof -
  have u: "sc_user example_pc = Some ''10:20''" by code_simp
  have n: "cm_name (cc_metadata example_container) = pc_name example_pc" by (simp add: example_container_def example_pc_def)
  have "cri_user (cc_security_context example_container) = []"
    by (simp add: example_container_def container_config_zero_def container_security_context_zero_def cri_user_def Let_def)
  then show ?thesis
    using admitted_user_reaches_container [where p = "example_pod ''u''" and c = example_pc and D = "example_drv user_daemon",
        OF _ _ _ u prod.collapse [symmetric] _ n]
    by (simp add: example_pod_def)
qed

section \<open>Probes\<close>

text \<open>
  C13. A network probe of a container runs in the container's sandbox. Admission rewrites the probe into
  a command; when the kubelet runs that command in a container created in the sandbox \<open>sid\<close>, the
  driver looks the container up and runs \<open>wget\<close> or \<open>nc\<close> against the loopback address in \<open>sid\<close>, which
  shares the network of the container, and never in the container itself.
\<close>

theorem probe_runs_in_its_sandbox:
  assumes "pr_http p \<noteq> None \<or> pr_tcp p \<noteq> None \<or> pr_grpc p \<noteq> None"
    "dc_Labels (ci_Config i) = snd (Build (dv_json D) (container_tb (dv_json D) (dv_options D) dn sid c sc))"
    "ci_HostConfig i = Some h" "sid \<noteq> []" "d_ContainerInspect (dv_api D) cid (world (drv_network s)) = (Inr i, w)"
  shows "\<exists>tool args. pr_exec (rewriteProbe iv p) = Some (SandboxExecSentinel # tool # args) \<and> (tool = ''wget'' \<or> tool = ''nc'') \<and>
    ExecSync D copy e1 e2 tmo cid (SandboxExecSentinel # tool # args) s =
      exec_in D copy e1 e2 tmo sid (tool # args) (s\<lparr>drv_network := (drv_network s)\<lparr>world := w\<rparr>\<rparr>)"
proof -
  have "\<exists>tool args. pr_exec (rewriteProbe iv p) = Some (SandboxExecSentinel # tool # args) \<and> (tool = ''wget'' \<or> tool = ''nc'')"
    using assms(1) by (auto simp: rewriteProbe_def http_probe_cmd_def nc_probe_cmd_def Let_def split: option.splits)
  then show ?thesis using exec_sync_sandbox [OF assms(2-5)] by metis
qed

theorem probe_runs_in_its_sandbox_witness:
  "\<exists>cmd t. pr_exec (rewriteProbe (\<lambda>_. 80) \<lparr>pr_timeout = 5, pr_http = None, pr_tcp = Some (PortInt 80), pr_grpc = None, pr_exec = None\<rparr>) = Some cmd \<and>
     ExecSync (example_drv (exec_daemon 0)) (\<lambda>r. (rd_bytes r, [], None)) False False ''1s'' ''c1'' cmd (example_driver []) = (Ret (''ok'', [], None), t) \<and>
     world (drv_network t) = [''sb1 nc -z -w5 localhost 80'']"
proof -
  let ?D = "example_drv (exec_daemon 0)" and ?c = "\<lambda>r. (rd_bytes r, [], None)"
  let ?p = "\<lparr>pr_timeout = 5, pr_http = None, pr_tcp = Some (PortInt 80), pr_grpc = None, pr_exec = None\<rparr>"
  obtain i where i: "d_ContainerInspect (exec_daemon 0) ''c1'' [] = (Inr i, [])"
      "dc_Labels (ci_Config i) = snd (Build (dv_json ?D) (container_tb (dv_json ?D) (dv_options ?D) ''docker'' ''sb1'' example_container example_sandbox))"
      "ci_HostConfig i = Some host_config_zero"
    by (simp add: exec_daemon_def)
  have e: "pr_exec (rewriteProbe (\<lambda>_. 80) ?p) = Some [SandboxExecSentinel, ''nc'', ''-z'', ''-w5'', ''localhost'', ''80'']"
    by (simp add: rewriteProbe_def nc_probe_cmd_def strconv_FormatInt_def dec_eval)
  let ?u = "(example_driver [])\<lparr>drv_network := (drv_network (example_driver []))\<lparr>world := []\<rparr>\<rparr>"
  have x: "ExecSync ?D ?c False False ''1s'' ''c1'' [SandboxExecSentinel, ''nc'', ''-z'', ''-w5'', ''localhost'', ''80''] (example_driver []) =
      exec_in ?D ?c False False ''1s'' ''sb1'' [''nc'', ''-z'', ''-w5'', ''localhost'', ''80''] ?u"
    using probe_runs_in_its_sandbox [OF _ i(2,3), of ?p "''c1''" "example_driver []" "[]" "\<lambda>_. 80" ?c False False "''1s''"] i(1) e by auto
  have y: "\<exists>t. exec_in ?D ?c False False ''1s'' ''sb1'' [''nc'', ''-z'', ''-w5'', ''localhost'', ''80''] ?u = (Ret (''ok'', [], None), t) \<and>
      world (drv_network t) = [''sb1 nc -z -w5 localhost 80'']"
    by (simp add: exec_in_def go_bind_def api_apply exec_daemon_def)
  from e x y show ?thesis by auto
qed

section \<open>Pods and sandboxes\<close>

text \<open>The container manager's view of the driver's sandbox list.\<close>

definition sandbox_ids :: "'w drv \<Rightarrow> 'w driver \<Rightarrow> strmap \<Rightarrow> error + string list" where
  "sandbox_ids D s labels =
     (case fst (ListPodSandbox D \<lparr>sf_id = [], sf_state = None, sf_labels = labels\<rparr> s) of
        Ret (Inr sbs) \<Rightarrow> Inr (map sb_Id sbs)
      | Ret (Inl e) \<Rightarrow> Inl e
      | _ \<Rightarrow> Inl (Errorf ''no answer''))"

text \<open>
  C15. A pod exists exactly while the daemon has a sandbox of it. With a daemon whose filters mean what
  their documentation says, the container manager finds a pod by its identifier if and only if
  there is a container that this program made as a sandbox and that carries the pod's
  identifier; the container name it reports is then the identifier of the first of them. (A
  sandbox whose own Kubernetes labels use the program's key could also match; there is none.)
\<close>

theorem pod_exists_exact:
  assumes "CHR ''='' \<notin> set (dv_options D)" "dv_name D \<noteq> []" "lists_by_filter D cs"
    "\<forall>c \<in> set (cs (world (drv_network s))). sm_State c \<in> set docker_states \<and>
       UIDKey (docker_tb D) \<notin> fst ` set (tag_Labels (dv_json D) (tags_of D (sm_Labels c)))"
    "pod_uid p \<noteq> []"
  shows "let own = filter (\<lambda>c. managed_as D ResourceSandbox (sm_Labels c) \<and> mget (sm_Labels c) (UIDKey (docker_tb D)) = pod_uid p)
                     (cs (world (drv_network s)))
    in (manager_Exists (sandbox_ids D s) (docker_tb D) p \<longleftrightarrow> own \<noteq> []) \<and>
       GetPodContainerName (sandbox_ids D s) (docker_tb D) p = (case own of [] \<Rightarrow> [] | c # _ \<Rightarrow> sm_ID c)"
proof -
  let ?f = "\<lparr>sf_id = [], sf_state = None, sf_labels = [(UIDKey (docker_tb D), pod_uid p)]\<rparr>"
  let ?cs = "cs (world (drv_network s))"
  let ?own = "filter (\<lambda>c. managed_as D ResourceSandbox (sm_Labels c) \<and> mget (sm_Labels c) (UIDKey (docker_tb D)) = pod_uid p) ?cs"
  have "selected_sandbox D ?f c \<longleftrightarrow> managed_as D ResourceSandbox (sm_Labels c) \<and> mget (sm_Labels c) (UIDKey (docker_tb D)) = pod_uid p"
    if "c \<in> set ?cs" for c
  proof -
    have "map_of (tag_Labels (dv_json D) (tags_of D (sm_Labels c))) (UIDKey (docker_tb D)) = None"
      using assms(4) that by (simp add: map_of_eq_None_iff)
    then have "mget (tag_Labels (dv_json D) (tags_of D (sm_Labels c))) (UIDKey (docker_tb D)) \<noteq> pod_uid p"
      using assms(5) by (simp add: mget_def)
    then show ?thesis by (simp add: selected_sandbox_def matchLabels_def strings_HasPrefix_def Let_def)
  qed
  then have sel: "filter (selected_sandbox D ?f) ?cs = ?own" by (simp cong: filter_cong)
  have "ListPodSandbox D ?f s = (Ret (Inr (map (to_sandbox D) ?own)), s)"
    using list_sandboxes_exact [OF assms(1-3), of s ?f] assms(4) sel by simp
  then have "sandbox_ids D s [(UIDKey (docker_tb D), pod_uid p)] = Inr (map sm_ID ?own)"
    by (simp add: sandbox_ids_def comp_def to_sandbox_def Let_def)
  then show ?thesis
    by (simp add: manager_Exists_def GetPodContainerName_def Let_def split: list.splits)
qed

theorem pod_exists_exact_witness:
  "manager_Exists (sandbox_ids (example_drv list_daemon) (example_driver [sandbox_summary ''s1''])) (docker_tb (example_drv list_daemon)) (example_pod ''u-1'') \<and>
   GetPodContainerName (sandbox_ids (example_drv list_daemon) (example_driver [sandbox_summary ''s1''])) (docker_tb (example_drv list_daemon)) (example_pod ''u-1'') = ''s1''"
proof -
  let ?D = "example_drv list_daemon" and ?s = "example_driver [sandbox_summary ''s1'']"
  have l: "lists_by_filter ?D (\<lambda>w. w)" by (simp add: lists_by_filter_def list_daemon_def)
  have "tag_Labels (dv_json ?D) (tags_of ?D (sm_Labels (sandbox_summary ''s1''))) = []" by code_simp
  then have st: "\<forall>c \<in> set ((\<lambda>w. w) (world (drv_network ?s))). sm_State c \<in> set docker_states \<and>
       UIDKey (docker_tb ?D) \<notin> fst ` set (tag_Labels (dv_json ?D) (tags_of ?D (sm_Labels c)))"
    by (simp add: sandbox_summary_def docker_states_def)
  have own: "managed_as ?D ResourceSandbox (sm_Labels (sandbox_summary ''s1'')) \<and>
      mget (sm_Labels (sandbox_summary ''s1'')) (UIDKey (docker_tb ?D)) = pod_uid (example_pod ''u-1'')"
    by code_simp
  have "pod_uid (example_pod ''u-1'') \<noteq> []" by (simp add: example_pod_def)
  then show ?thesis
    using pod_exists_exact [OF _ _ l st, of "example_pod ''u-1''"] own by (simp add: Let_def) (simp add: sandbox_summary_def)
qed

section \<open>A machine and its nodes\<close>

text \<open>Every node of the list is posted as not ready, in order and whatever the calls answer.\<close>

lemma mark_each:
  "go_each (\<lambda>n. go_bind (call (f n)) (\<lambda>_. go_ret ())) ns w = (Ret (), fold (\<lambda>n w. snd (f n w)) ns w)"
  by (induction ns arbitrary: w) (simp_all add: go_bind_def call_def case_prod_beta)

lemma nodeStartup_marks:
  assumes "ka_node_list K (MachineIDLabel @ ''='' @ i) w = (Inr ns, w)"
  shows "nodeStartup K i w = (Ret None, fold (\<lambda>n w. snd (ka_node_not_ready K n ''NanokubeStartup'' w)) ns w)"
proof -
  have "(\<lambda>name. go_bind (call (ka_node_not_ready K name ''NanokubeStartup'')) (\<lambda>_. go_ret ())) =
      (\<lambda>n. go_bind (call ((\<lambda>n. ka_node_not_ready K n ''NanokubeStartup'') n)) (\<lambda>_. go_ret ()))"
    by simp
  then show ?thesis
    using assms mark_each [of "\<lambda>n. ka_node_not_ready K n ''NanokubeStartup''" ns w]
    by (simp add: nodeStartup_def go_bind_def call_def)
qed

text \<open>The labels the kubelet registers its node with carry the identity of the machine.\<close>

lemma kubelet_labels_id:
  assumes "MachineID Y u (n :: ('b, 'c) nano) = (Ret i, t)"
  shows "kubelet_labels Y u ls (NewNanokubeCommand n) = (Ret (AList.update MachineIDLabel i ls), (NewNanokubeCommand n)\<lparr>co_nano := t\<rparr>)"
  using assms by (simp add: kubelet_labels_def go_bind_def on_nano_def NewNanokubeCommand_def)

text \<open>
  C21. After a restart the program marks the nodes of this machine not ready and no others. The kubelet
  of one process registers its node with the machine's identity as a label. A later process over the
  same data directory takes the identity from the file and not a fresh one, so with an API server
  whose label selectors mean what their documentation says, its startup hook posts a not-ready
  condition for exactly the nodes that carry the label of the first process, in the order listed,
  and reports no error whatever the posts answer. Without it the event of a node that becomes ready,
  for which the other hooks wait, would not come again.
\<close>

theorem restart_marks_own_nodes:
  assumes "u \<noteq> []" "\<forall>c \<in> set u. \<not> is_space c" "p = path_at o1 ''machine-id''" "sy_read Y p = None" "sy_write Y p = None"
    "path_at o2 ''machine-id'' = p"
    "\<forall>i w. ka_node_list K (MachineIDLabel @ ''='' @ i) w =
       (Inr (map fst (filter (\<lambda>(_, l). map_of l MachineIDLabel = Some i) (nodes w))), w)"
  shows "\<exists>labels s. kubelet_labels Y u ls (NewNanokubeCommand (NewNanokube o1 d :: ('b, 'c) nano)) = (Ret labels, s) \<and>
    (\<forall>d2 w. map_of d2 p = map_of (nk_disk (co_nano s)) p \<longrightarrow>
       (\<exists>i t. MachineID Y u' (NewNanokube o2 d2 :: ('b, 'c) nano) = (Ret i, t) \<and>
          nodeStartup K i w = (Ret None, fold (\<lambda>n w. snd (ka_node_not_ready K n ''NanokubeStartup'' w))
            (map fst (filter (\<lambda>(_, l). map_of l MachineIDLabel = map_of labels MachineIDLabel) (nodes w))) w)))"
proof -
  obtain i and s :: "('b, 'c) nano" where i: "MachineID Y u (NewNanokube o1 d) = (Ret i, s)" "i = (if stored_id o1 d = [] then u else stored_id o1 d)"
    "stored_id o1 (nk_disk s) = i"
    using MachineID_first [OF refl assms(1-5), of d] by blast
  have ne: "i \<noteq> []" using i(2) assms(1) by simp
  have "\<exists>i' t. MachineID Y u' (NewNanokube o2 d2 :: ('b, 'c) nano) = (Ret i', t) \<and>
      nodeStartup K i' w = (Ret None, fold (\<lambda>n w. snd (ka_node_not_ready K n ''NanokubeStartup'' w))
        (map fst (filter (\<lambda>(_, l). map_of l MachineIDLabel = Some i) (nodes w))) w)"
    if "map_of d2 p = map_of (nk_disk s) p" for d2 w
  proof -
    have "stored_id o2 d2 = i" using that i(3) assms(3,6) by (simp add: stored_id_def)
    from MachineID_restart [OF refl assms(6,4) this ne, of u', where 'b = 'b]
    show ?thesis using nodeStartup_marks [of K i w] assms(7) by blast
  qed
  with kubelet_labels_id [OF i(1), of ls] show ?thesis by (simp add: update_conv)
qed

text \<open>An API server that keeps a name and a machine identity per node, and adds a mark to the name when told not ready.\<close>

definition nodes_api :: "(string \<times> string) list kube_api" where
  "nodes_api = pods_api\<lparr>
     ka_node_list := \<lambda>sel w. (Inr (map fst (filter (\<lambda>(_, i). MachineIDLabel @ ''='' @ i = sel) w)), w),
     ka_node_not_ready := \<lambda>n _ w. (None, map (\<lambda>(m, i). (if m = n then m @ '' (not ready)'' else m, i)) w)\<rparr>"

theorem restart_marks_own_nodes_witness:
  "\<exists>s. kubelet_labels good_sys ''id1'' [] (NewNanokubeCommand (NewNanokube (NewOptions ''/home/u'') [] :: (unit, unit) nano)) = (Ret [(MachineIDLabel, ''id1'')], s) \<and>
     (\<exists>i t. MachineID good_sys ''id2'' (NewNanokube (NewOptions ''/home/u'') (nk_disk (co_nano s)) :: (unit, unit) nano) = (Ret i, t) \<and>
        snd (nodeStartup nodes_api i [(''a'', ''id1''), (''b'', ''id3'')]) = [(''a (not ready)'', ''id1''), (''b'', ''id3'')])"
proof -
  let ?o = "NewOptions ''/home/u''"
  have u: "\<forall>c \<in> set ''id1''. \<not> is_space c" by code_simp
  have sel: "\<forall>i w. ka_node_list nodes_api (MachineIDLabel @ ''='' @ i) w =
      (Inr (map fst (filter (\<lambda>(_, l). map_of l MachineIDLabel = Some i) (map (\<lambda>(n, j). (n, [(MachineIDLabel, j)])) w))), w)"
    by (simp add: nodes_api_def filter_map comp_def case_prod_unfold)
  have g: "sy_read good_sys p = None" "sy_write good_sys p = None" for p by (simp_all add: good_sys_def)
  have "stored_id ?o [] = []" by (simp add: stored_id_def)
  then obtain t where "MachineID good_sys ''id1'' (NewNanokube ?o [] :: (unit, unit) nano) = (Ret ''id1'', t)"
    using MachineID_first [OF refl _ u refl g, of ?o "[]", where 'b = unit] by auto
  note l = kubelet_labels_id [OF this, of "[]"]
  obtain labels s where s: "kubelet_labels good_sys ''id1'' [] (NewNanokubeCommand (NewNanokube ?o [] :: (unit, unit) nano)) = (Ret labels, s)"
    "\<And>w. \<exists>i t. MachineID good_sys ''id2'' (NewNanokube ?o (nk_disk (co_nano s)) :: (unit, unit) nano) = (Ret i, t) \<and>
          nodeStartup nodes_api i w = (Ret None, fold (\<lambda>n w. snd (ka_node_not_ready nodes_api n ''NanokubeStartup'' w))
            (map fst (filter (\<lambda>(_, l). map_of l MachineIDLabel = map_of labels MachineIDLabel) (map (\<lambda>(n, j). (n, [(MachineIDLabel, j)])) w))) w)"
    using restart_marks_own_nodes [OF _ u refl g refl sel, where 'b = unit and ?o1.0 = ?o and d = "[]" and ls = "[]" and u' = "''id2''"] by auto
  from l s(1) have "labels = [(MachineIDLabel, ''id1'')]" by simp
  with s(1) s(2) [of "[(''a'', ''id1''), (''b'', ''id3'')]"] show ?thesis by (auto simp: nodes_api_def)
qed

end
